(* ===== verification/Prelude.thy ===== *)
theory Prelude
  imports Main "HOL-Library.Word" "HOL-Library.Multiset"
begin

text \<open>
  What every component of the development shares: the C integer types of the driver as
  machine words, the NTSTATUS code space with the NT_SUCCESS test, the error-and-state
  combinators the register-level code is written with, and generic lemmas on lists and
  words.  The named collection \<open>status_simps\<close> holds the evaluation of NT_SUCCESS on the
  status codes the driver names.
\<close>

unbundle bit_operations_syntax

type_synonym UCHAR = "8 word"
type_synonym USHORT = "16 word"
type_synonym ULONG = "32 word"
type_synonym ULONG64 = "64 word"
type_synonym NTSTATUS = "32 word"

named_theorems status_simps

section \<open>NTSTATUS\<close>

abbreviation (input) STATUS_SUCCESS :: NTSTATUS where "STATUS_SUCCESS \<equiv> 0"
abbreviation (input) STATUS_TIMEOUT :: NTSTATUS where "STATUS_TIMEOUT \<equiv> 0x102"
abbreviation (input) STATUS_NO_MORE_ENTRIES :: NTSTATUS where "STATUS_NO_MORE_ENTRIES \<equiv> 0x8000001A"
abbreviation (input) STATUS_UNSUCCESSFUL :: NTSTATUS where "STATUS_UNSUCCESSFUL \<equiv> 0xC0000001"
abbreviation (input) STATUS_NOT_IMPLEMENTED :: NTSTATUS where "STATUS_NOT_IMPLEMENTED \<equiv> 0xC0000002"
abbreviation (input) STATUS_INVALID_PARAMETER :: NTSTATUS where "STATUS_INVALID_PARAMETER \<equiv> 0xC000000D"
abbreviation (input) STATUS_DELETE_PENDING :: NTSTATUS where "STATUS_DELETE_PENDING \<equiv> 0xC0000056"
abbreviation (input) STATUS_INSUFFICIENT_RESOURCES :: NTSTATUS
  where "STATUS_INSUFFICIENT_RESOURCES \<equiv> 0xC000009A"
abbreviation (input) STATUS_DEVICE_DATA_ERROR :: NTSTATUS where "STATUS_DEVICE_DATA_ERROR \<equiv> 0xC000009C"
abbreviation (input) STATUS_DEVICE_NOT_CONNECTED :: NTSTATUS
  where "STATUS_DEVICE_NOT_CONNECTED \<equiv> 0xC000009D"
abbreviation (input) STATUS_DEVICE_NOT_READY :: NTSTATUS where "STATUS_DEVICE_NOT_READY \<equiv> 0xC00000A3"
abbreviation (input) STATUS_IO_TIMEOUT :: NTSTATUS where "STATUS_IO_TIMEOUT \<equiv> 0xC00000B5"
abbreviation (input) STATUS_NOT_SUPPORTED :: NTSTATUS where "STATUS_NOT_SUPPORTED \<equiv> 0xC00000BB"
abbreviation (input) STATUS_CANCELLED :: NTSTATUS where "STATUS_CANCELLED \<equiv> 0xC0000120"
abbreviation (input) STATUS_DEVICE_CONFIGURATION_ERROR :: NTSTATUS
  where "STATUS_DEVICE_CONFIGURATION_ERROR \<equiv> 0xC0000182"
abbreviation (input) STATUS_INVALID_DEVICE_STATE :: NTSTATUS
  where "STATUS_INVALID_DEVICE_STATE \<equiv> 0xC0000184"
abbreviation (input) STATUS_NOT_FOUND :: NTSTATUS where "STATUS_NOT_FOUND \<equiv> 0xC0000225"
abbreviation (input) STATUS_DEVICE_REMOVED :: NTSTATUS where "STATUS_DEVICE_REMOVED \<equiv> 0xC00002B6"
abbreviation (input) STATUS_INVALID_GENERATION :: NTSTATUS
  where "STATUS_INVALID_GENERATION \<equiv> 0xC00002E5"

text \<open>
  NTSTATUS is a signed 32-bit value and NT_SUCCESS holds of the non-negative ones: success
  and informational codes (such as STATUS_TIMEOUT) alike.
\<close>

definition NT_SUCCESS :: "NTSTATUS \<Rightarrow> bool" where
  "NT_SUCCESS s \<longleftrightarrow> 0 \<le> sint s"

lemma NT_SUCCESS_codes [simp, status_simps]:
  "NT_SUCCESS STATUS_SUCCESS"
  "NT_SUCCESS STATUS_TIMEOUT"
  "\<not> NT_SUCCESS STATUS_NO_MORE_ENTRIES"
  "\<not> NT_SUCCESS STATUS_UNSUCCESSFUL"
  "\<not> NT_SUCCESS STATUS_NOT_IMPLEMENTED"
  "\<not> NT_SUCCESS STATUS_INVALID_PARAMETER"
  "\<not> NT_SUCCESS STATUS_DELETE_PENDING"
  "\<not> NT_SUCCESS STATUS_INSUFFICIENT_RESOURCES"
  "\<not> NT_SUCCESS STATUS_DEVICE_DATA_ERROR"
  "\<not> NT_SUCCESS STATUS_DEVICE_NOT_CONNECTED"
  "\<not> NT_SUCCESS STATUS_DEVICE_NOT_READY"
  "\<not> NT_SUCCESS STATUS_IO_TIMEOUT"
  "\<not> NT_SUCCESS STATUS_NOT_SUPPORTED"
  "\<not> NT_SUCCESS STATUS_CANCELLED"
  "\<not> NT_SUCCESS STATUS_DEVICE_CONFIGURATION_ERROR"
  "\<not> NT_SUCCESS STATUS_INVALID_DEVICE_STATE"
  "\<not> NT_SUCCESS STATUS_NOT_FOUND"
  "\<not> NT_SUCCESS STATUS_DEVICE_REMOVED"
  "\<not> NT_SUCCESS STATUS_INVALID_GENERATION"
  by (simp_all add: NT_SUCCESS_def)

section \<open>Widening\<close>

lemma unat_bound: "unat (w :: ULONG) < 2 ^ 32"
  by (rule order_less_le_trans [OF unsigned_less]) simp

lemma unat_widen: "unat (ucast (w :: ULONG) :: ULONG64) = unat w"
  unfolding unat_eq_nat_uint by (subst uint_up_ucast) (simp_all add: is_up)

section \<open>State with an early return\<close>

text \<open>
  The register-level code is a chain of calls, each of which may fail with a status that the
  caller returns at once, leaving whatever the earlier calls wrote in place.  A computation
  takes the state and returns a failed status (\<open>Inl\<close>) or a value (\<open>Inr\<close>) with the new state.
\<close>

type_synonym ('s, 'a) comp = "'s \<Rightarrow> (NTSTATUS + 'a) \<times> 's"

definition ret :: "'a \<Rightarrow> ('s, 'a) comp" where
  "ret a s = (Inr a, s)"

definition fail :: "NTSTATUS \<Rightarrow> ('s, 'a) comp" where
  "fail e s = (Inl e, s)"

definition andThen :: "('s, 'a) comp \<Rightarrow> ('a \<Rightarrow> ('s, 'b) comp) \<Rightarrow> ('s, 'b) comp" where
  "andThen m f s = (case m s of (Inl e, s') \<Rightarrow> (Inl e, s') | (Inr a, s') \<Rightarrow> f a s')"

definition getState :: "('s, 's) comp" where
  "getState s = (Inr s, s)"

definition setState :: "'s \<Rightarrow> ('s, unit) comp" where
  "setState t s = (Inr (), t)"

lemma ret_run [simp]: "ret a s = (Inr a, s)"
  by (simp add: ret_def)

lemma fail_run [simp]: "fail e s = (Inl e, s)"
  by (simp add: fail_def)

lemma getState_run [simp]: "getState s = (Inr s, s)"
  by (simp add: getState_def)

lemma setState_run [simp]: "setState t s = (Inr (), t)"
  by (simp add: setState_def)

lemma andThen_Inr [simp]: "m s = (Inr a, s') \<Longrightarrow> andThen m f s = f a s'"
  by (simp add: andThen_def)

lemma andThen_Inl [simp]: "m s = (Inl e, s') \<Longrightarrow> andThen m f s = (Inl e, s')"
  by (simp add: andThen_def)

lemma andThen_eq_Inr_iff:
  "andThen m f s = (Inr b, t) \<longleftrightarrow> (\<exists>a s'. m s = (Inr a, s') \<and> f a s' = (Inr b, t))"
  by (auto simp: andThen_def split: prod.splits sum.splits)

lemma andThen_InrE:
  assumes "andThen m f s = (Inr b, t)"
  obtains a s' where "m s = (Inr a, s')" and "f a s' = (Inr b, t)"
  using assms by (auto simp: andThen_eq_Inr_iff)

text \<open>The status a C caller sees: the failed status, or STATUS_SUCCESS.\<close>

definition statusOf :: "NTSTATUS + 'a \<Rightarrow> NTSTATUS" where
  "statusOf r = (case r of Inl e \<Rightarrow> e | Inr _ \<Rightarrow> STATUS_SUCCESS)"

lemma statusOf_simps [simp]: "statusOf (Inl e) = e" "statusOf (Inr a) = STATUS_SUCCESS"
  by (simp_all add: statusOf_def)

end
