(* ===== verification/Irb_Race.thy ===== *)
theory Irb_Race
  imports Prelude
begin

text \<open>
  photonic/p1394.c, PhotonicSubmitIrbEx against PhotonicIrbComplete: who frees the IRP, the
  sync block and the memory a request references when the waiter gives up on an overdue
  request while its completion may be running on another processor.  The two sides meet in one
  interlocked exchange on the sync block's State.  Every atomic action of either side is a rule
  of the step relation \<open>race_step\<close>; the theorems are invariants of its reachable states.
\<close>

datatype irb_state = PhotonicIrbPending | PhotonicIrbCompleted | PhotonicIrbAbandoned

text \<open>
  The waiter: the first bounded wait, the wait after IoCancelIrp, the exchange, the unbounded
  wait for a completion that won the exchange, the cleanup, and the return (with *Abandoned).
\<close>

datatype waiter = WWait | WWaitCancelled | WGiveUp | WWaitSet | WCleanup | WReturned bool

text \<open>
  The completion routine: not yet run, about to exchange, about to set the event, freeing an
  abandoned request, releasing the remove lock as its last action, finished.
\<close>

datatype completer = CNotRun | CExchange | CSetEvent | CFree | CReleaseLock | CDone

record race =
  rState :: irb_state
  rEvent :: bool
  rWaiter :: waiter
  rCompleter :: completer
  irpFrees :: nat
  syncFrees :: nat
  memFrees :: nat
  lockReleases :: nat

definition race_init :: race where
  "race_init = \<lparr>rState = PhotonicIrbPending, rEvent = False, rWaiter = WWait,
     rCompleter = CNotRun, irpFrees = 0, syncFrees = 0, memFrees = 0, lockReleases = 0\<rparr>"

text \<open>
  One action of the waiter; \<open>timeout\<close> says whether a bounded wait expires when the event is
  not set.  \<open>None\<close>: the waiter cannot move.
\<close>

definition waiter_step :: "bool \<Rightarrow> race \<Rightarrow> race option" where
  "waiter_step timeout r = (case rWaiter r of
      WWait \<Rightarrow> if rEvent r then Some (r\<lparr>rWaiter := WCleanup\<rparr>)
               else if timeout then Some (r\<lparr>rWaiter := WWaitCancelled\<rparr>) else None
    | WWaitCancelled \<Rightarrow> if rEvent r then Some (r\<lparr>rWaiter := WCleanup\<rparr>)
               else if timeout then Some (r\<lparr>rWaiter := WGiveUp\<rparr>) else None
    | WGiveUp \<Rightarrow> Some (r\<lparr>rState := PhotonicIrbAbandoned,
               rWaiter := (if rState r \<noteq> PhotonicIrbCompleted then WReturned True else WWaitSet)\<rparr>)
    | WWaitSet \<Rightarrow> if rEvent r then Some (r\<lparr>rWaiter := WCleanup\<rparr>) else None
    | WCleanup \<Rightarrow> Some (r\<lparr>irpFrees := Suc (irpFrees r), syncFrees := Suc (syncFrees r),
               lockReleases := Suc (lockReleases r), rWaiter := WReturned False\<rparr>)
    | WReturned _ \<Rightarrow> None)"

definition completer_step :: "race \<Rightarrow> race option" where
  "completer_step r = (case rCompleter r of
      CNotRun \<Rightarrow> Some (r\<lparr>rCompleter := CExchange\<rparr>)
    | CExchange \<Rightarrow> Some (r\<lparr>rState := PhotonicIrbCompleted,
               rCompleter := (if rState r = PhotonicIrbAbandoned then CFree else CSetEvent)\<rparr>)
    | CSetEvent \<Rightarrow> Some (r\<lparr>rEvent := True, rCompleter := CDone\<rparr>)
    | CFree \<Rightarrow> Some (r\<lparr>irpFrees := Suc (irpFrees r), memFrees := Suc (memFrees r),
               syncFrees := Suc (syncFrees r), rCompleter := CReleaseLock\<rparr>)
    | CReleaseLock \<Rightarrow> Some (r\<lparr>lockReleases := Suc (lockReleases r), rCompleter := CDone\<rparr>)
    | CDone \<Rightarrow> None)"

inductive race_step :: "race \<Rightarrow> race \<Rightarrow> bool" where
  waiter: "waiter_step timeout r = Some r' \<Longrightarrow> race_step r r'"
| completer: "completer_step r = Some r' \<Longrightarrow> race_step r r'"

inductive race_reachable :: "race \<Rightarrow> bool" where
  init: "race_reachable race_init"
| step: "race_reachable r \<Longrightarrow> race_step r r' \<Longrightarrow> race_reachable r'"

inductive_cases race_stepE: "race_step r r'"

section \<open>The invariant\<close>

text \<open>
  Which states of the exchange word go with which positions of the two sides.
\<close>

fun race_ok :: "waiter \<Rightarrow> completer \<Rightarrow> irb_state \<Rightarrow> bool" where
  "race_ok (WReturned True) c s =
     (case c of CNotRun \<Rightarrow> s = PhotonicIrbAbandoned | CExchange \<Rightarrow> s = PhotonicIrbAbandoned
      | CSetEvent \<Rightarrow> False | _ \<Rightarrow> s = PhotonicIrbCompleted)"
| "race_ok (WReturned False) c s = (c = CDone)"
| "race_ok WCleanup c s = (c = CDone)"
| "race_ok WWaitSet c s = (c = CSetEvent \<or> c = CDone)"
| "race_ok _ c s =
     (case c of CNotRun \<Rightarrow> s = PhotonicIrbPending | CExchange \<Rightarrow> s = PhotonicIrbPending
      | CSetEvent \<Rightarrow> s = PhotonicIrbCompleted | CDone \<Rightarrow> s = PhotonicIrbCompleted | _ \<Rightarrow> False)"

fun mem_freed :: "waiter \<Rightarrow> completer \<Rightarrow> nat" where
  "mem_freed (WReturned True) CReleaseLock = 1"
| "mem_freed (WReturned True) CDone = 1"
| "mem_freed _ _ = 0"

fun waiter_freed :: "waiter \<Rightarrow> nat" where
  "waiter_freed (WReturned False) = 1"
| "waiter_freed _ = 0"

fun lock_released :: "waiter \<Rightarrow> completer \<Rightarrow> nat" where
  "lock_released (WReturned False) _ = 1"
| "lock_released (WReturned True) CDone = 1"
| "lock_released _ _ = 0"

definition race_inv :: "race \<Rightarrow> bool" where
  "race_inv r \<longleftrightarrow>
     race_ok (rWaiter r) (rCompleter r) (rState r) \<and>
     rEvent r = (rCompleter r = CDone \<and> rWaiter r \<noteq> WReturned True) \<and>
     memFrees r = mem_freed (rWaiter r) (rCompleter r) \<and>
     irpFrees r = memFrees r + waiter_freed (rWaiter r) \<and>
     syncFrees r = memFrees r + waiter_freed (rWaiter r) \<and>
     lockReleases r = lock_released (rWaiter r) (rCompleter r)"

lemma race_inv_init: "race_inv race_init"
  by (simp add: race_inv_def race_init_def)

lemma waiter_step_inv:
  assumes "waiter_step t r = Some r'" and "race_inv r"
  shows "race_inv r'"
proof (cases "rWaiter r")
  case (WReturned x)
  then show ?thesis using assms by (simp add: waiter_step_def)
qed (use assms in \<open>auto simp: waiter_step_def race_inv_def split: if_splits completer.splits\<close>)

lemma completer_step_inv:
  assumes "completer_step r = Some r'" and "race_inv r"
  shows "race_inv r'"
proof -
  have "race_ok (rWaiter r) (rCompleter r) (rState r)"
    using assms(2) by (simp add: race_inv_def)
  then show ?thesis
    using assms
    by (cases "(rWaiter r, rCompleter r, rState r)" rule: race_ok.cases)
      (auto simp: completer_step_def race_inv_def split: if_splits completer.splits)
qed

lemma race_reachable_inv: "race_reachable r \<Longrightarrow> race_inv r"
  by (induction rule: race_reachable.induct)
    (auto intro: race_inv_init waiter_step_inv completer_step_inv elim!: race_stepE)

section \<open>Ownership\<close>

text \<open>
  C7: once both sides have finished, the IRP, the sync block and the remove lock have each
  been given up exactly once, and the memory the request references was freed by the
  completion routine exactly when the submit reported the request abandoned (otherwise it is
  still the caller's).
\<close>

theorem irb_ownership:
  assumes "race_reachable r" and "rWaiter r = WReturned abandoned" and "rCompleter r = CDone"
  shows "irpFrees r = 1 \<and> syncFrees r = 1 \<and> lockReleases r = 1 \<and>
         memFrees r = (if abandoned then 1 else 0)"
  using race_reachable_inv [OF assms(1)] assms(2,3)
  by (cases abandoned) (auto simp: race_inv_def)

definition run_abandoned :: race where
  "run_abandoned = \<lparr>rState = PhotonicIrbCompleted, rEvent = False, rWaiter = WReturned True,
     rCompleter = CDone, irpFrees = 1, syncFrees = 1, memFrees = 1, lockReleases = 1\<rparr>"

lemma run_abandoned_reachable: "race_reachable run_abandoned"
proof -
  let ?w = "\<lambda>t r. the (waiter_step t r)" and ?c = "\<lambda>r. the (completer_step r)"
  let ?r1 = "?w True race_init" and ?r3 = "?w True (?w True (?w True race_init))"
  have "race_reachable ?r1"
    by (rule race_reachable.step [OF race_reachable.init], rule race_step.waiter [of True])
      (simp add: waiter_step_def race_init_def)
  then have "race_reachable (?w True ?r1)"
    by (rule race_reachable.step, intro race_step.waiter [of True])
      (simp add: waiter_step_def race_init_def)
  then have "race_reachable ?r3"
    by (rule race_reachable.step, intro race_step.waiter [of True])
      (simp add: waiter_step_def race_init_def)
  then have "race_reachable (?c ?r3)"
    by (rule race_reachable.step, intro race_step.completer)
      (simp add: waiter_step_def completer_step_def race_init_def)
  then have "race_reachable (?c (?c ?r3))"
    by (rule race_reachable.step, intro race_step.completer)
      (simp add: waiter_step_def completer_step_def race_init_def)
  then have "race_reachable (?c (?c (?c ?r3)))"
    by (rule race_reachable.step, intro race_step.completer)
      (simp add: waiter_step_def completer_step_def race_init_def)
  then have "race_reachable (?c (?c (?c (?c ?r3))))"
    by (rule race_reachable.step, intro race_step.completer)
      (simp add: waiter_step_def completer_step_def race_init_def)
  then show ?thesis
    by (simp add: waiter_step_def completer_step_def race_init_def run_abandoned_def)
qed

theorem irb_ownership_witness:
  "irpFrees run_abandoned = 1 \<and> syncFrees run_abandoned = 1 \<and> lockReleases run_abandoned = 1 \<and>
   memFrees run_abandoned = 1"
  using irb_ownership [OF run_abandoned_reachable, of True] by (simp add: run_abandoned_def)

text \<open>
  C14: nothing is used after it is freed.  As long as the completion routine may still touch the
  sync block (its exchange, the event it sets) the sync block and the IRP are not freed, and as
  long as the waiter may still touch it (its waits, its own exchange, its cleanup) neither.
\<close>

theorem irb_no_use_after_free:
  assumes "race_reachable r"
    and "rCompleter r \<in> {CNotRun, CExchange, CSetEvent, CFree} \<or>
         rWaiter r \<in> {WWait, WWaitCancelled, WGiveUp, WWaitSet, WCleanup}"
  shows "irpFrees r = 0 \<and> syncFrees r = 0 \<and> memFrees r = 0 \<and> lockReleases r = 0"
proof -
  have inv: "race_inv r" by (rule race_reachable_inv [OF assms(1)])
  then have "race_ok (rWaiter r) (rCompleter r) (rState r)" by (simp add: race_inv_def)
  then show ?thesis
    using inv assms(2)
    by (cases "(rWaiter r, rCompleter r, rState r)" rule: race_ok.cases)
      (auto simp: race_inv_def split: completer.splits)
qed

theorem irb_no_use_after_free_witness: "syncFrees race_init = 0 \<and> irpFrees race_init = 0"
proof -
  have "rCompleter race_init \<in> {CNotRun, CExchange, CSetEvent, CFree} \<or>
      rWaiter race_init \<in> {WWait, WWaitCancelled, WGiveUp, WWaitSet, WCleanup}"
    by (simp add: race_init_def)
  from irb_no_use_after_free [OF race_reachable.init this] show ?thesis by simp
qed

end
