(* ===== verification/Device.thy ===== *)
theory Device
  imports Prelude
begin

text \<open>
  photonic/photonic.h: the data the driver's components share.  \<open>video_mode\<close> is
  PHOTONIC_VIDEO_MODE, one (format, mode, coding) the camera advertised; \<open>extension\<close> is the
  part of PHOTONIC_DEVICE_EXTENSION the modelled components read and write.  The array
  Modes[] with its ModeCount is the list of its valid entries.
\<close>

section \<open>Pixel codings and image sizes\<close>

abbreviation (input) PHOTONIC_MAX_VIDEO_MODES :: nat where "PHOTONIC_MAX_VIDEO_MODES \<equiv> 48"

abbreviation (input) PIX_MONO8 :: ULONG where "PIX_MONO8 \<equiv> 0"
abbreviation (input) PIX_YUV411 :: ULONG where "PIX_YUV411 \<equiv> 1"
abbreviation (input) PIX_YUV422 :: ULONG where "PIX_YUV422 \<equiv> 2"
abbreviation (input) PIX_YUV444 :: ULONG where "PIX_YUV444 \<equiv> 3"
abbreviation (input) PIX_RGB24 :: ULONG where "PIX_RGB24 \<equiv> 4"
abbreviation (input) PIX_MONO16 :: ULONG where "PIX_MONO16 \<equiv> 5"
abbreviation (input) PIX_RAW8 :: ULONG where "PIX_RAW8 \<equiv> 7"
abbreviation (input) PIX_INVALID :: ULONG where "PIX_INVALID \<equiv> 0xFFFFFFFF"

text \<open>The product is formed in 64 bits, then divided and narrowed.\<close>

definition PhotonicImageBytes :: "ULONG \<Rightarrow> ULONG \<Rightarrow> ULONG \<Rightarrow> ULONG" where
  "PhotonicImageBytes Width Height BitsPerPixel =
     ucast ((ucast Width * ucast Height * ucast BitsPerPixel :: ULONG64) div 8)"

definition PhotonicImageBitsPerSecond :: "ULONG \<Rightarrow> ULONG \<Rightarrow> ULONG" where
  "PhotonicImageBitsPerSecond ImageBytes Interval =
     ucast ((ucast ImageBytes * 8 * 10000000 :: ULONG64) div ucast Interval)"

section \<open>The video mode table and the device extension\<close>

record video_mode =
  Format :: UCHAR
  Mode :: UCHAR
  PixelFormat :: ULONG
  Width :: ULONG
  Height :: ULONG
  DefaultWidth :: ULONG
  DefaultHeight :: ULONG
  IsFormat7 :: bool
  UnitWidth :: ULONG
  UnitHeight :: ULONG
  Format7CsrOffset :: ULONG
  RateMask :: ULONG
  MinFrameInterval :: ULONG
  MaxFrameInterval :: ULONG

record extension =
  HasPdo :: bool
  CsrBaseAddress :: ULONG64
  BusGeneration :: ULONG
  HostCapabilities :: ULONG
  MaxAsyncReadRequest :: ULONG
  MaxAsyncWriteRequest :: ULONG
  MaxDmaBufferSize :: ULONG64
  MaxSpeedCode :: UCHAR
  BusResetRegistered :: bool
  BusResetPending :: bool
  Modes :: "video_mode list"
  Removed :: bool

abbreviation ModeCount :: "extension \<Rightarrow> nat" where
  "ModeCount x \<equiv> length (Modes x)"

section \<open>The stream extension\<close>

text \<open>
  The negotiated part of PHOTONIC_STREAM_EXTENSION.  The Mode pointer into the extension's
  table is the entry it points at.
\<close>

datatype KSSTATE = KSSTATE_STOP | KSSTATE_ACQUIRE | KSSTATE_PAUSE | KSSTATE_RUN

record stream =
  StreamState :: KSSTATE
  sWidth :: ULONG
  sHeight :: ULONG
  ImageSize :: ULONG
  FrameInterval :: ULONG
  OneShot :: bool
  sMode :: "video_mode option"
  RateId :: ULONG

end
