(* ===== verification/Bus1394.thy ===== *)
theory Bus1394
  imports Device
begin

text \<open>
  photonic/p1394.c: the transport that carries every synchronous request of the driver to the
  1394 bus driver.  The bus driver, the Windows kernel allocator and the remove lock are not
  code of the repository: they are the parameter \<open>'b env\<close>, three functions on a state \<open>'b\<close>
  that answer an allocation, a remove-lock acquisition and a submitted IRB.  Everything the
  driver does around those answers is modelled: the submit path with its abandon protocol,
  the generation-count refresh, quadlet byte order, the register and block transfers, and the
  discovery and checking of CSR addresses.
\<close>

section \<open>Bytes and quadlets\<close>

type_synonym byte = UCHAR

definition le_bytes :: "ULONG \<Rightarrow> byte list" where
  "le_bytes w = [ucast w, ucast (drop_bit 8 w), ucast (drop_bit 16 w), ucast (drop_bit 24 w)]"

definition of_le_bytes :: "byte list \<Rightarrow> ULONG" where
  "of_le_bytes bs = (case bs of
      [b0, b1, b2, b3] \<Rightarrow>
        ucast b0 OR push_bit 8 (ucast b1) OR push_bit 16 (ucast b2) OR push_bit 24 (ucast b3)
    | _ \<Rightarrow> 0)"

definition RtlUlongByteSwap :: "ULONG \<Rightarrow> ULONG" where
  "RtlUlongByteSwap w = of_le_bytes (rev (le_bytes w))"

lemma of_le_bytes_le_bytes [simp]: "of_le_bytes (le_bytes w) = w"
proof (rule bit_word_eqI)
  fix n
  assume "n < LENGTH(32)"
  then consider "n < 8" | "8 \<le> n" "n < 16" | "16 \<le> n" "n < 24" | "24 \<le> n" "n < 32"
    by fastforce
  then show "bit (of_le_bytes (le_bytes w)) n = bit w n"
    by cases (auto simp: of_le_bytes_def le_bytes_def bit_simps)
qed

lemma byte_bit_beyond: "8 \<le> n \<Longrightarrow> bit (b :: byte) n = False"
  using bit_imp_le_length [of b n] by auto

lemma le_bytes_of_le_bytes [simp]:
  assumes "length bs = 4"
  shows "le_bytes (of_le_bytes bs) = bs"
proof -
  obtain b0 b1 b2 b3 where bs: "bs = [b0, b1, b2, b3]"
    using assms by (auto simp: numeral_eq_Suc length_Suc_conv)
  show ?thesis
    unfolding bs
    by (auto simp: of_le_bytes_def le_bytes_def bit_simps byte_bit_beyond intro!: bit_word_eqI)
qed

lemma length_le_bytes [simp]: "length (le_bytes w) = 4"
  by (simp add: le_bytes_def)

text \<open>A register value travels most significant byte first.\<close>

lemma le_bytes_RtlUlongByteSwap: "le_bytes (RtlUlongByteSwap w) = rev (le_bytes w)"
  by (simp add: RtlUlongByteSwap_def)

lemma RtlUlongByteSwap_involution [simp]: "RtlUlongByteSwap (RtlUlongByteSwap w) = w"
  by (simp add: RtlUlongByteSwap_def)

text \<open>
  A pool buffer of \<open>n\<close> bytes is zeroed when allocated; a transfer writes at most \<open>n\<close> bytes of
  it.
\<close>

definition fill_buffer :: "nat \<Rightarrow> byte list \<Rightarrow> byte list" where
  "fill_buffer n bs = take n (bs @ replicate n 0)"

lemma length_fill_buffer [simp]: "length (fill_buffer n bs) = n"
  by (simp add: fill_buffer_def)

lemma fill_buffer_id [simp]: "length bs = n \<Longrightarrow> fill_buffer n bs = bs"
  by (simp add: fill_buffer_def)


section \<open>Requests and the bus driver\<close>

text \<open>
  One constructor per REQUEST_* function the driver submits, with the fields of the IRB it
  fills in.  The results are the fields the bus driver fills in on completion; an IRB is
  zeroed before it is built, so a field the bus driver did not fill reads as zero.
\<close>

datatype tcode = TCODE_READ_REQUEST_QUADLET | TCODE_WRITE_REQUEST_QUADLET
  | TCODE_READ_REQUEST_BLOCK | TCODE_WRITE_REQUEST_BLOCK

record resource_request =
  rqSpeed :: ULONG
  rqFlags :: ULONG
  rqChannel :: ULONG
  rqMaxBytesPerFrame :: ULONG
  rqNumberOfBuffers :: ULONG
  rqMaxBufferSize :: ULONG
  rqQuadletsToStrip :: ULONG

datatype irb =
    GET_GENERATION_COUNT
  | GET_LOCAL_HOST_INFO ULONG
  | GET_SPEED_BETWEEN_DEVICES ULONG
  | BUS_RESET_NOTIFICATION bool
  | ASYNC_READ USHORT ULONG ULONG ULONG UCHAR tcode
  | ASYNC_WRITE USHORT ULONG "byte list" ULONG UCHAR tcode
  | GET_CONFIGURATION_INFO ULONG
  | ISOCH_ALLOCATE_CHANNEL ULONG
  | ISOCH_ALLOCATE_BANDWIDTH ULONG ULONG
  | ISOCH_ALLOCATE_RESOURCES resource_request
  | ISOCH_LISTEN nat
  | ISOCH_STOP nat
  | ISOCH_FREE_RESOURCES nat
  | ISOCH_FREE_BANDWIDTH nat
  | ISOCH_FREE_CHANNEL ULONG

datatype irb_result =
    ResNone
  | ResGeneration ULONG
  | ResHostCaps ULONG ULONG ULONG
  | ResDmaCaps ULONG64
  | ResSpeed ULONG
  | ResBytes "byte list"
  | ResConfigSize ULONG
  | ResConfig ULONG "ULONG list"
  | ResChannel ULONG
  | ResHandle nat

text \<open>
  How a submitted request ends: completed within the timeout; completed after the cancel;
  completed just as the waiter gives up, the completion routine winning the exchange on the
  sync block; or still overdue when the waiter gives up (PhotonicIrbAbandoned).
\<close>

datatype irb_outcome =
    InTime NTSTATUS irb_result
  | AfterCancel NTSTATUS irb_result
  | WonByCompletion NTSTATUS irb_result
  | Overdue

record 'b env =
  envAlloc :: "'b \<Rightarrow> bool \<times> 'b"
  envLock :: "'b \<Rightarrow> NTSTATUS \<times> 'b"
  envCall :: "irb \<Rightarrow> 'b \<Rightarrow> irb_outcome \<times> 'b"

record submission =
  subStatus :: NTSTATUS
  subResult :: irb_result
  subAbandoned :: bool
  subSubmitted :: bool

text \<open>
  PhotonicSubmitIrbEx: the sync block, then the IRP, then the remove lock, each with its early
  return, then IoCallDriver and the two bounded waits.
\<close>

definition refused :: "NTSTATUS \<Rightarrow> submission" where
  "refused s = \<lparr>subStatus = s, subResult = ResNone, subAbandoned = False, subSubmitted = False\<rparr>"

definition completed :: "NTSTATUS \<Rightarrow> irb_result \<Rightarrow> submission" where
  "completed s r = \<lparr>subStatus = s, subResult = r, subAbandoned = False, subSubmitted = True\<rparr>"

fun outcomeSubmission :: "irb_outcome \<Rightarrow> submission" where
  "outcomeSubmission (InTime s r) = completed s r"
| "outcomeSubmission (AfterCancel s r) = completed s r"
| "outcomeSubmission (WonByCompletion s r) = completed s r"
| "outcomeSubmission Overdue =
     \<lparr>subStatus = STATUS_IO_TIMEOUT, subResult = ResNone, subAbandoned = True, subSubmitted = True\<rparr>"

definition PhotonicSubmitIrbEx ::
  "'b env \<Rightarrow> extension \<Rightarrow> irb \<Rightarrow> 'b \<Rightarrow> submission \<times> 'b" where
  "PhotonicSubmitIrbEx ev x i b =
     (if \<not> HasPdo x then (refused STATUS_DEVICE_NOT_CONNECTED, b)
      else case envAlloc ev b of
        (False, b1) \<Rightarrow> (refused STATUS_INSUFFICIENT_RESOURCES, b1)
      | (True, b1) \<Rightarrow> (case envAlloc ev b1 of
          (False, b2) \<Rightarrow> (refused STATUS_INSUFFICIENT_RESOURCES, b2)
        | (True, b2) \<Rightarrow> (case envLock ev b2 of (lock, b3) \<Rightarrow>
            if \<not> NT_SUCCESS lock then (refused lock, b3)
            else (case envCall ev i b3 of (outcome, b4) \<Rightarrow> (outcomeSubmission outcome, b4)))))"

definition PhotonicSubmitIrb ::
  "'b env \<Rightarrow> extension \<Rightarrow> irb \<Rightarrow> 'b \<Rightarrow> (NTSTATUS \<times> irb_result) \<times> 'b" where
  "PhotonicSubmitIrb ev x i b =
     (case PhotonicSubmitIrbEx ev x i b of (r, b') \<Rightarrow> ((subStatus r, subResult r), b'))"

definition PhotonicSubmitIrbTracked ::
  "'b env \<Rightarrow> extension \<Rightarrow> irb \<Rightarrow> 'b \<Rightarrow> (NTSTATUS \<times> bool) \<times> 'b" where
  "PhotonicSubmitIrbTracked ev x i b =
     (case PhotonicSubmitIrbEx ev x i b of (r, b') \<Rightarrow> ((subStatus r, subSubmitted r), b'))"

lemma refused_simps [simp]:
  "subStatus (refused s) = s" "subResult (refused s) = ResNone"
  "\<not> subAbandoned (refused s)" "\<not> subSubmitted (refused s)"
  by (simp_all add: refused_def)

lemma completed_simps [simp]:
  "subStatus (completed s r) = s" "subResult (completed s r) = r"
  "\<not> subAbandoned (completed s r)" "subSubmitted (completed s r)"
  by (simp_all add: completed_def)

fun outcomeStatus :: "irb_outcome \<Rightarrow> NTSTATUS" where
  "outcomeStatus (InTime s _) = s"
| "outcomeStatus (AfterCancel s _) = s"
| "outcomeStatus (WonByCompletion s _) = s"
| "outcomeStatus Overdue = STATUS_IO_TIMEOUT"

lemma outcomeSubmission_simps [simp]:
  "subStatus (outcomeSubmission c) = outcomeStatus c"
  "subSubmitted (outcomeSubmission c)"
  "subAbandoned (outcomeSubmission c) \<longleftrightarrow> c = Overdue"
  by (cases c; simp)+

text \<open>A request reported as not submitted never reached IoCallDriver and never succeeded.\<close>

lemma not_submitted_fails:
  "PhotonicSubmitIrbEx ev x i b = (r, b') \<Longrightarrow> \<not> subSubmitted r \<Longrightarrow> \<not> NT_SUCCESS (subStatus r)"
  by (auto simp: PhotonicSubmitIrbEx_def split: if_splits prod.splits bool.splits irb_outcome.splits)

lemma abandoned_fails:
  "PhotonicSubmitIrbEx ev x i b = (r, b') \<Longrightarrow> subAbandoned r \<Longrightarrow> subStatus r = STATUS_IO_TIMEOUT"
  by (auto simp: PhotonicSubmitIrbEx_def split: if_splits prod.splits bool.splits irb_outcome.splits)

section \<open>Bus state: generation, host, speed, reset notification\<close>

abbreviation (input) SCODE_100_RATE :: UCHAR where "SCODE_100_RATE \<equiv> 0"
abbreviation (input) SCODE_200_RATE :: UCHAR where "SCODE_200_RATE \<equiv> 1"
abbreviation (input) SCODE_400_RATE :: UCHAR where "SCODE_400_RATE \<equiv> 2"
abbreviation (input) SCODE_800_RATE :: UCHAR where "SCODE_800_RATE \<equiv> 3"
abbreviation (input) SCODE_1600_RATE :: UCHAR where "SCODE_1600_RATE \<equiv> 4"
abbreviation (input) SCODE_3200_RATE :: UCHAR where "SCODE_3200_RATE \<equiv> 5"

abbreviation (input) SPEED_FLAGS_100 :: ULONG where "SPEED_FLAGS_100 \<equiv> 0x01"
abbreviation (input) SPEED_FLAGS_200 :: ULONG where "SPEED_FLAGS_200 \<equiv> 0x02"
abbreviation (input) SPEED_FLAGS_400 :: ULONG where "SPEED_FLAGS_400 \<equiv> 0x04"
abbreviation (input) SPEED_FLAGS_800 :: ULONG where "SPEED_FLAGS_800 \<equiv> 0x08"
abbreviation (input) SPEED_FLAGS_1600 :: ULONG where "SPEED_FLAGS_1600 \<equiv> 0x10"
abbreviation (input) SPEED_FLAGS_3200 :: ULONG where "SPEED_FLAGS_3200 \<equiv> 0x20"

definition PhotonicSpeedFlagsToScode :: "ULONG \<Rightarrow> UCHAR" where
  "PhotonicSpeedFlagsToScode SpeedFlags =
     (if SpeedFlags AND SPEED_FLAGS_3200 \<noteq> 0 then SCODE_3200_RATE
      else if SpeedFlags AND SPEED_FLAGS_1600 \<noteq> 0 then SCODE_1600_RATE
      else if SpeedFlags AND SPEED_FLAGS_800 \<noteq> 0 then SCODE_800_RATE
      else if SpeedFlags AND SPEED_FLAGS_400 \<noteq> 0 then SCODE_400_RATE
      else if SpeedFlags AND SPEED_FLAGS_200 \<noteq> 0 then SCODE_200_RATE
      else if SpeedFlags AND SPEED_FLAGS_100 \<noteq> 0 then SCODE_100_RATE
      else SCODE_400_RATE)"

definition Photonic1394SpeedName :: "UCHAR \<Rightarrow> string" where
  "Photonic1394SpeedName Scode =
     (if Scode = SCODE_100_RATE then ''S100''
      else if Scode = SCODE_200_RATE then ''S200''
      else if Scode = SCODE_400_RATE then ''S400''
      else if Scode = SCODE_800_RATE then ''S800''
      else if Scode = SCODE_1600_RATE then ''S1600''
      else if Scode = SCODE_3200_RATE then ''S3200''
      else ''S-unknown'')"

definition Photonic1394StreamScode :: "extension \<Rightarrow> UCHAR" where
  "Photonic1394StreamScode x =
     (let scode = MaxSpeedCode x in if scode > SCODE_400_RATE then SCODE_400_RATE else scode)"

definition Photonic1394MaxIsochPayload :: "extension \<Rightarrow> ULONG" where
  "Photonic1394MaxIsochPayload x = push_bit (unat (Photonic1394StreamScode x)) 1024"

text \<open>The driver state a synchronous call runs on: the extension and the bus.\<close>

type_synonym 'b drv = "extension \<times> 'b"

definition submit :: "'b env \<Rightarrow> irb \<Rightarrow> 'b drv \<Rightarrow> (NTSTATUS \<times> irb_result) \<times> 'b drv" where
  "submit ev i = (\<lambda>(x, b). case PhotonicSubmitIrb ev x i b of (r, b') \<Rightarrow> (r, (x, b')))"

definition PhotonicQueryGenerationCount :: "'b env \<Rightarrow> 'b drv \<Rightarrow> NTSTATUS \<times> 'b drv" where
  "PhotonicQueryGenerationCount ev d =
     (case submit ev GET_GENERATION_COUNT d of ((status, r), (x, b)) \<Rightarrow>
        if NT_SUCCESS status
        then (status, (x\<lparr>BusGeneration := (case r of ResGeneration g \<Rightarrow> g | _ \<Rightarrow> 0)\<rparr>, b))
        else (status, (x, b)))"

text \<open>
  PhotonicQueryLocalHostInfo allocates a staging buffer for the result, which an abandoned
  request keeps; the result reaches the caller on success only.
\<close>

definition PhotonicQueryLocalHostInfo ::
  "'b env \<Rightarrow> ULONG \<Rightarrow> 'b drv \<Rightarrow> (NTSTATUS \<times> irb_result) \<times> 'b drv" where
  "PhotonicQueryLocalHostInfo ev Level = (\<lambda>(x, b).
     case envAlloc ev b of
       (False, b1) \<Rightarrow> ((STATUS_INSUFFICIENT_RESOURCES, ResNone), (x, b1))
     | (True, b1) \<Rightarrow> submit ev (GET_LOCAL_HOST_INFO Level) (x, b1))"

abbreviation (input) GET_HOST_CAPABILITIES :: ULONG where "GET_HOST_CAPABILITIES \<equiv> 2"
abbreviation (input) GET_HOST_DMA_CAPABILITIES :: ULONG where "GET_HOST_DMA_CAPABILITIES \<equiv> 7"

definition PhotonicQueryHostInfo :: "'b env \<Rightarrow> 'b drv \<Rightarrow> NTSTATUS \<times> 'b drv" where
  "PhotonicQueryHostInfo ev d =
     (case PhotonicQueryLocalHostInfo ev GET_HOST_CAPABILITIES d of ((status, r), (x, b)) \<Rightarrow>
      let x1 = (if NT_SUCCESS status
                then (case r of
                    ResHostCaps caps rd wr \<Rightarrow>
                      x\<lparr>HostCapabilities := caps, MaxAsyncReadRequest := rd, MaxAsyncWriteRequest := wr\<rparr>
                  | _ \<Rightarrow> x\<lparr>HostCapabilities := 0, MaxAsyncReadRequest := 0, MaxAsyncWriteRequest := 0\<rparr>)
                else x)
      in case PhotonicQueryLocalHostInfo ev GET_HOST_DMA_CAPABILITIES (x1, b) of ((dma, r'), (x2, b')) \<Rightarrow>
        (status,
          (if NT_SUCCESS dma
           then x2\<lparr>MaxDmaBufferSize := (case r' of ResDmaCaps m \<Rightarrow> m | _ \<Rightarrow> 0)\<rparr> else x2, b')))"

abbreviation (input) USE_LOCAL_NODE :: ULONG where "USE_LOCAL_NODE \<equiv> 1"

definition PhotonicQueryMaxSpeed :: "'b env \<Rightarrow> 'b drv \<Rightarrow> NTSTATUS \<times> 'b drv" where
  "PhotonicQueryMaxSpeed ev = (\<lambda>(x, b).
     case submit ev (GET_SPEED_BETWEEN_DEVICES USE_LOCAL_NODE) (x\<lparr>MaxSpeedCode := SCODE_400_RATE\<rparr>, b)
     of ((status, r), (x1, b1)) \<Rightarrow>
       (status,
         (if NT_SUCCESS status
          then x1\<lparr>MaxSpeedCode := PhotonicSpeedFlagsToScode (case r of ResSpeed f \<Rightarrow> f | _ \<Rightarrow> 0)\<rparr>
          else x1, b1)))"

definition PhotonicBusResetRoutine :: "extension \<Rightarrow> extension" where
  "PhotonicBusResetRoutine x = x\<lparr>BusResetPending := True\<rparr>"

definition Photonic1394RegisterBusResetNotification :: "'b env \<Rightarrow> 'b drv \<Rightarrow> NTSTATUS \<times> 'b drv" where
  "Photonic1394RegisterBusResetNotification ev = (\<lambda>(x, b).
     if BusResetRegistered x then (STATUS_SUCCESS, (x, b))
     else case submit ev (BUS_RESET_NOTIFICATION True) (x, b) of ((status, _), (x1, b1)) \<Rightarrow>
       (status, (if NT_SUCCESS status then x1\<lparr>BusResetRegistered := True\<rparr> else x1, b1)))"

text \<open>The deregistration loop: at most three attempts, stopping at the first success.\<close>

fun deregister_attempts :: "'b env \<Rightarrow> nat \<Rightarrow> 'b drv \<Rightarrow> 'b drv" where
  "deregister_attempts ev 0 d = d"
| "deregister_attempts ev (Suc n) d =
     (case submit ev (BUS_RESET_NOTIFICATION False) d of ((status, _), (x, b)) \<Rightarrow>
        if NT_SUCCESS status then (x\<lparr>BusResetRegistered := False\<rparr>, b)
        else deregister_attempts ev n (x, b))"

definition Photonic1394DeregisterBusResetNotification :: "'b env \<Rightarrow> 'b drv \<Rightarrow> 'b drv" where
  "Photonic1394DeregisterBusResetNotification ev = (\<lambda>(x, b).
     if \<not> BusResetRegistered x then (x, b) else deregister_attempts ev 3 (x, b))"

definition Photonic1394RefreshBusState :: "'b env \<Rightarrow> 'b drv \<Rightarrow> NTSTATUS \<times> 'b drv" where
  "Photonic1394RefreshBusState ev d =
     (case PhotonicQueryGenerationCount ev d of (status, d1) \<Rightarrow>
        if \<not> NT_SUCCESS status then (status, d1)
        else (STATUS_SUCCESS, snd (PhotonicQueryMaxSpeed ev (snd (PhotonicQueryHostInfo ev d1)))))"

section \<open>Asynchronous transfers\<close>

datatype xfer = XRead nat | XWrite "byte list"

fun xferLength :: "xfer \<Rightarrow> nat" where
  "xferLength (XRead n) = n"
| "xferLength (XWrite bs) = length bs"

fun isWrite :: "xfer \<Rightarrow> bool" where
  "isWrite (XRead n) = False"
| "isWrite (XWrite bs) = True"

text \<open>The IRB of a transfer, stamped with the cached generation and the link speed.\<close>

definition xferIrb :: "ULONG64 \<Rightarrow> xfer \<Rightarrow> tcode \<Rightarrow> extension \<Rightarrow> irb" where
  "xferIrb Address xf TCode x =
     (case xf of
        XRead n \<Rightarrow> ASYNC_READ (ucast (drop_bit 32 Address)) (ucast Address) (of_nat n)
                     (BusGeneration x) (MaxSpeedCode x) TCode
      | XWrite bs \<Rightarrow> ASYNC_WRITE (ucast (drop_bit 32 Address)) (ucast Address) bs
                     (BusGeneration x) (MaxSpeedCode x) TCode)"

text \<open>
  The refresh before the transfer: the pending flag is taken (cleared), the generation re-read,
  and the flag put back when the re-read failed.
\<close>

definition refreshIfPending :: "'b env \<Rightarrow> 'b drv \<Rightarrow> 'b drv" where
  "refreshIfPending ev = (\<lambda>(x, b).
     if BusResetPending x then
       (case PhotonicQueryGenerationCount ev (x\<lparr>BusResetPending := False\<rparr>, b) of (st, (x1, b1)) \<Rightarrow>
          if NT_SUCCESS st then (x1, b1) else (x1\<lparr>BusResetPending := True\<rparr>, b1))
     else (x, b))"

text \<open>
  The submission, retried once after a refresh when the bus driver rejects the generation.
\<close>

definition submitRetry ::
  "'b env \<Rightarrow> ULONG64 \<Rightarrow> xfer \<Rightarrow> tcode \<Rightarrow> 'b drv \<Rightarrow> submission \<times> 'b drv" where
  "submitRetry ev Address xf TCode = (\<lambda>(x, b).
     case PhotonicSubmitIrbEx ev x (xferIrb Address xf TCode x) b of (r, b1) \<Rightarrow>
       if subStatus r = STATUS_INVALID_GENERATION \<and> \<not> subAbandoned r then
         (case PhotonicQueryGenerationCount ev (x, b1) of (st, (x2, b2)) \<Rightarrow>
            if NT_SUCCESS st then
              (case PhotonicSubmitIrbEx ev x2 (xferIrb Address xf TCode x2) b2 of
                 (r', b3) \<Rightarrow> (r', (x2, b3)))
            else (r, (x2\<lparr>BusResetPending := True\<rparr>, b2)))
       else (r, (x, b1)))"

definition PhotonicAsyncTransfer ::
  "'b env \<Rightarrow> ULONG64 \<Rightarrow> xfer \<Rightarrow> tcode \<Rightarrow> ('b drv, byte list) comp" where
  "PhotonicAsyncTransfer ev Address xf TCode d =
     (if xferLength xf = 0 then (Inl STATUS_INVALID_PARAMETER, d)
      else case refreshIfPending ev d of (x1, b1) \<Rightarrow>
        (case envAlloc ev b1 of
          (False, b2) \<Rightarrow> (Inl STATUS_INSUFFICIENT_RESOURCES, (x1, b2))
        | (True, b2) \<Rightarrow> (case envAlloc ev b2 of
            (False, b3) \<Rightarrow> (Inl STATUS_INSUFFICIENT_RESOURCES, (x1, b3))
          | (True, b3) \<Rightarrow> (case submitRetry ev Address xf TCode (x1, b3) of (r, d') \<Rightarrow>
              if NT_SUCCESS (subStatus r) then
                (Inr (if isWrite xf then []
                      else fill_buffer (xferLength xf)
                             (case subResult r of ResBytes bs \<Rightarrow> bs | _ \<Rightarrow> [])), d')
              else (Inl (subStatus r), d')))))"

text \<open>One quadlet: the bytes on the bus are those of the swapped value.\<close>

definition readQuadlet :: "'b env \<Rightarrow> ULONG64 \<Rightarrow> ('b drv, ULONG) comp" where
  "readQuadlet ev Address =
     andThen (PhotonicAsyncTransfer ev Address (XRead 4) TCODE_READ_REQUEST_QUADLET)
       (\<lambda>bs. ret (RtlUlongByteSwap (of_le_bytes bs)))"

definition writeQuadlet :: "'b env \<Rightarrow> ULONG64 \<Rightarrow> ULONG \<Rightarrow> ('b drv, unit) comp" where
  "writeQuadlet ev Address Value =
     andThen (PhotonicAsyncTransfer ev Address (XWrite (le_bytes (RtlUlongByteSwap Value)))
                TCODE_WRITE_REQUEST_QUADLET)
       (\<lambda>_. ret ())"

definition Photonic1394ReadRegister :: "'b env \<Rightarrow> ULONG \<Rightarrow> ('b drv, ULONG) comp" where
  "Photonic1394ReadRegister ev Offset d =
     readQuadlet ev (CsrBaseAddress (fst d) + ucast Offset) d"

definition Photonic1394WriteRegister :: "'b env \<Rightarrow> ULONG \<Rightarrow> ULONG \<Rightarrow> ('b drv, unit) comp" where
  "Photonic1394WriteRegister ev Offset Value d =
     writeQuadlet ev (CsrBaseAddress (fst d) + ucast Offset) Value d"

definition Photonic1394ReadBlock :: "'b env \<Rightarrow> ULONG64 \<Rightarrow> nat \<Rightarrow> ('b drv, byte list) comp" where
  "Photonic1394ReadBlock ev Address Length =
     PhotonicAsyncTransfer ev Address (XRead Length) TCODE_READ_REQUEST_BLOCK"

definition Photonic1394WriteBlock :: "'b env \<Rightarrow> ULONG64 \<Rightarrow> byte list \<Rightarrow> ('b drv, unit) comp" where
  "Photonic1394WriteBlock ev Address Buffer =
     andThen (PhotonicAsyncTransfer ev Address (XWrite Buffer) TCODE_WRITE_REQUEST_BLOCK)
       (\<lambda>_. ret ())"

section \<open>CSR addresses\<close>

abbreviation (input) PHOTONIC_REGISTER_SPACE_HIGH :: ULONG64 where "PHOTONIC_REGISTER_SPACE_HIGH \<equiv> 0xFFFF"
abbreviation (input) PHOTONIC_REGISTER_SPACE_LOW :: ULONG where "PHOTONIC_REGISTER_SPACE_LOW \<equiv> 0xF0000000"
abbreviation (input) PHOTONIC_CSR_BASE_MIN :: ULONG where "PHOTONIC_CSR_BASE_MIN \<equiv> 0xF0000000"
abbreviation (input) PHOTONIC_CSR_BASE_MAX :: ULONG where "PHOTONIC_CSR_BASE_MAX \<equiv> 0xF1000000"
abbreviation (input) PHOTONIC_KEY_COMMAND_BASE :: ULONG where "PHOTONIC_KEY_COMMAND_BASE \<equiv> 0x40"
abbreviation (input) CONFIG_ROM_SIGNATURE :: ULONG where "CONFIG_ROM_SIGNATURE \<equiv> 0x31333934"

text \<open>The 48-bit address with the register-space high part over a 32-bit low part.\<close>

definition registerSpace :: "ULONG \<Rightarrow> ULONG64" where
  "registerSpace low = push_bit 32 PHOTONIC_REGISTER_SPACE_HIGH OR ucast low"

definition Photonic1394CsrPointerToOffset :: "ULONG \<Rightarrow> ULONG \<Rightarrow> ('b drv, ULONG) comp" where
  "Photonic1394CsrPointerToOffset Pointer BlockBytes d =
     (let base = registerSpace PHOTONIC_REGISTER_SPACE_LOW;
          absolute = base + ucast Pointer * 4;
          windowMin = registerSpace PHOTONIC_CSR_BASE_MIN;
          windowMax = registerSpace PHOTONIC_CSR_BASE_MAX
      in if absolute < windowMin \<or> absolute + ucast BlockBytes > windowMax
            \<or> absolute < CsrBaseAddress (fst d)
         then (Inl STATUS_DEVICE_CONFIGURATION_ERROR, d)
         else (Inr (ucast (absolute - CsrBaseAddress (fst d))), d))"

text \<open>
  PhotonicGetUnitDependentDirectory: a size query, then the fetch of the directory in host
  order, byte-swapped when the ROM signature came back reversed.
\<close>

definition normalizeDirectory :: "ULONG \<Rightarrow> ULONG list \<Rightarrow> ULONG list" where
  "normalizeDirectory signature qs =
     (if signature = RtlUlongByteSwap CONFIG_ROM_SIGNATURE then map RtlUlongByteSwap qs else qs)"

definition PhotonicGetUnitDependentDirectory :: "'b env \<Rightarrow> ('b drv, ULONG list) comp" where
  "PhotonicGetUnitDependentDirectory ev = (\<lambda>(x, b).
     case envAlloc ev b of
       (False, b1) \<Rightarrow> (Inl STATUS_INSUFFICIENT_RESOURCES, (x, b1))
     | (True, b1) \<Rightarrow> (case PhotonicSubmitIrbEx ev x (GET_CONFIGURATION_INFO 0) b1 of (r, b2) \<Rightarrow>
         if \<not> NT_SUCCESS (subStatus r) then (Inl (subStatus r), (x, b2))
         else let size = (case subResult r of ResConfigSize n \<Rightarrow> n | _ \<Rightarrow> 0) in
           if size < 4 then (Inl STATUS_DEVICE_CONFIGURATION_ERROR, (x, b2))
           else case envAlloc ev b2 of
             (False, b3) \<Rightarrow> (Inl STATUS_INSUFFICIENT_RESOURCES, (x, b3))
           | (True, b3) \<Rightarrow> (case PhotonicSubmitIrbEx ev x (GET_CONFIGURATION_INFO size) b3 of (r', b4) \<Rightarrow>
               if \<not> NT_SUCCESS (subStatus r') then (Inl (subStatus r'), (x, b4))
               else let count = unat size div 4 in
                 case subResult r' of
                   ResConfig signature qs \<Rightarrow>
                     (Inr (normalizeDirectory signature (take count (qs @ replicate count 0))), (x, b4))
                 | _ \<Rightarrow> (Inr (replicate count 0), (x, b4)))))"

definition isCommandBase :: "ULONG \<Rightarrow> bool" where
  "isCommandBase q \<longleftrightarrow> drop_bit 24 q AND 0xFF = PHOTONIC_KEY_COMMAND_BASE"

definition Photonic1394DiscoverCsrBase :: "'b env \<Rightarrow> ('b drv, unit) comp" where
  "Photonic1394DiscoverCsrBase ev =
     andThen (PhotonicGetUnitDependentDirectory ev) (\<lambda>directory (x, b).
       case find isCommandBase directory of
         None \<Rightarrow> (Inl STATUS_DEVICE_CONFIGURATION_ERROR, (x, b))
       | Some q \<Rightarrow>
           let csrBaseLow = PHOTONIC_REGISTER_SPACE_LOW + push_bit 2 (q AND 0x00FFFFFF) in
           if csrBaseLow < PHOTONIC_CSR_BASE_MIN \<or> csrBaseLow \<ge> PHOTONIC_CSR_BASE_MAX
           then (Inl STATUS_DEVICE_CONFIGURATION_ERROR, (x, b))
           else (Inr (), (x\<lparr>CsrBaseAddress := registerSpace csrBaseLow\<rparr>, b)))"

end
