(* ===== verification/Bus1394_Props.thy ===== *)
theory Bus1394_Props
  imports Bus1394
begin

text \<open>
  What the transport promises: stale generations are refreshed and retried, a pending bus reset
  is not forgotten when its refresh fails, and the CSR addresses taken from the camera stay
  inside the register window.
\<close>

section \<open>Generation handling\<close>

text \<open>
  A bus that is up: allocations and the remove lock succeed, the generation query is answered
  with \<open>g\<close>, and a transfer stamped with \<open>g\<close> is never rejected as stale.
\<close>

definition irbGeneration :: "irb \<Rightarrow> ULONG option" where
  "irbGeneration i = (case i of
      ASYNC_READ _ _ _ g _ _ \<Rightarrow> Some g | ASYNC_WRITE _ _ _ g _ _ \<Rightarrow> Some g | _ \<Rightarrow> None)"

definition bus_up :: "'b env \<Rightarrow> ULONG \<Rightarrow> bool" where
  "bus_up ev g \<longleftrightarrow>
     (\<forall>b. fst (envAlloc ev b)) \<and> (\<forall>b. fst (envLock ev b) = STATUS_SUCCESS) \<and>
     (\<forall>b. fst (envCall ev GET_GENERATION_COUNT b) = InTime STATUS_SUCCESS (ResGeneration g)) \<and>
     (\<forall>b i. irbGeneration i = Some g \<longrightarrow>
        outcomeStatus (fst (envCall ev i b)) \<noteq> STATUS_INVALID_GENERATION)"

lemma xferIrb_generation [simp]: "irbGeneration (xferIrb a xf t x) = Some (BusGeneration x)"
  by (simp add: xferIrb_def irbGeneration_def split: xfer.splits)

lemma submit_status_up:
  assumes "bus_up ev g" and "HasPdo x"
  shows "\<exists>b0. fst (PhotonicSubmitIrbEx ev x i b) = outcomeSubmission (fst (envCall ev i b0))"
proof -
  obtain b1 where 1: "envAlloc ev b = (True, b1)"
    using assms(1) unfolding bus_up_def by (metis prod.collapse)
  obtain b2 where 2: "envAlloc ev b1 = (True, b2)"
    using assms(1) unfolding bus_up_def by (metis prod.collapse)
  obtain b3 where 3: "envLock ev b2 = (STATUS_SUCCESS, b3)"
    using assms(1) unfolding bus_up_def by (metis prod.collapse)
  show ?thesis
    by (rule exI [of _ b3])
      (simp add: PhotonicSubmitIrbEx_def assms(2) 1 2 3 split: prod.splits)
qed

lemma generation_query_up:
  assumes "bus_up ev g" and "HasPdo x"
  shows "\<exists>b'. PhotonicQueryGenerationCount ev (x, b) = (STATUS_SUCCESS, (x\<lparr>BusGeneration := g\<rparr>, b'))"
proof -
  obtain r b' where r: "PhotonicSubmitIrbEx ev x GET_GENERATION_COUNT b = (r, b')"
    by (cases "PhotonicSubmitIrbEx ev x GET_GENERATION_COUNT b")
  have "r = completed STATUS_SUCCESS (ResGeneration g)"
    using submit_status_up [OF assms, of GET_GENERATION_COUNT b] assms(1)
    by (auto simp: r bus_up_def)
  then show ?thesis
    by (simp add: PhotonicQueryGenerationCount_def submit_def PhotonicSubmitIrb_def r)
qed

lemma stamped_not_stale:
  assumes "bus_up ev g" and "HasPdo x" and "BusGeneration x = g"
  shows "subStatus (fst (PhotonicSubmitIrbEx ev x (xferIrb a xf t x) b)) \<noteq> STATUS_INVALID_GENERATION"
proof -
  obtain b0 where b0: "fst (PhotonicSubmitIrbEx ev x (xferIrb a xf t x) b) =
      outcomeSubmission (fst (envCall ev (xferIrb a xf t x) b0))"
    using submit_status_up [OF assms(1,2)] by blast
  then show ?thesis
    using assms by (simp add: bus_up_def)
qed

lemma submitRetry_not_stale:
  assumes "bus_up ev g" and "HasPdo x"
  shows "subStatus (fst (submitRetry ev a xf t (x, b))) \<noteq> STATUS_INVALID_GENERATION"
proof -
  obtain r b1 where r: "PhotonicSubmitIrbEx ev x (xferIrb a xf t x) b = (r, b1)"
    by (cases "PhotonicSubmitIrbEx ev x (xferIrb a xf t x) b")
  let ?x2 = "x\<lparr>BusGeneration := g\<rparr>"
  obtain b2 where q: "PhotonicQueryGenerationCount ev (x, b1) = (STATUS_SUCCESS, (?x2, b2))"
    using generation_query_up [OF assms] by blast
  obtain r' b3 where r': "PhotonicSubmitIrbEx ev ?x2 (xferIrb a xf t ?x2) b2 = (r', b3)"
    by (cases "PhotonicSubmitIrbEx ev ?x2 (xferIrb a xf t ?x2) b2")
  have "subStatus r' \<noteq> STATUS_INVALID_GENERATION"
    using stamped_not_stale [OF assms(1), of ?x2 a xf t b2] assms(2) by (simp add: r')
  moreover have "subStatus r = STATUS_INVALID_GENERATION \<Longrightarrow> \<not> subAbandoned r"
    using abandoned_fails [OF r] by auto
  ultimately show ?thesis
    by (simp add: submitRetry_def r q r')
qed

lemma query_keeps_pdo:
  "PhotonicQueryGenerationCount ev (x, b) = (st, (x', b')) \<Longrightarrow> HasPdo x' = HasPdo x"
  by (auto simp: PhotonicQueryGenerationCount_def submit_def split: prod.splits if_splits)

lemma refresh_keeps_pdo: "refreshIfPending ev (x, b) = (x', b') \<Longrightarrow> HasPdo x' = HasPdo x"
  by (auto simp: refreshIfPending_def split: if_splits prod.splits dest!: query_keeps_pdo)

text \<open>
  C27: on a bus that is up, no register or block transfer ever reports a stale generation to
  its caller, whatever generation the extension had cached and whether or not a reset is
  flagged: the transfer is refreshed and retried.
\<close>

theorem transfer_survives_bus_reset:
  assumes "bus_up ev g" and "HasPdo x"
  shows "statusOf (fst (PhotonicAsyncTransfer ev a xf t (x, b))) \<noteq> STATUS_INVALID_GENERATION"
proof -
  obtain x1 b1 where r: "refreshIfPending ev (x, b) = (x1, b1)"
    by (cases "refreshIfPending ev (x, b)")
  have pdo: "HasPdo x1" using refresh_keeps_pdo [OF r] assms(2) by simp
  show ?thesis
    using submitRetry_not_stale [OF assms(1) pdo, of a xf t]
    by (auto simp: PhotonicAsyncTransfer_def r statusOf_def split: prod.splits bool.splits)
      (metis fst_conv)+
qed

definition stale_then_ok :: "ULONG env" where
  "stale_then_ok = \<lparr>envAlloc = (\<lambda>b. (True, b)), envLock = (\<lambda>b. (STATUS_SUCCESS, b)),
     envCall = (\<lambda>i b. (case irbGeneration i of
         None \<Rightarrow> InTime STATUS_SUCCESS (ResGeneration 7)
       | Some g \<Rightarrow> if g = 7 then InTime STATUS_SUCCESS (ResBytes [1, 2, 3, 4])
                  else InTime STATUS_INVALID_GENERATION ResNone, b))\<rparr>"

definition ext0 :: extension where
  "ext0 = \<lparr>HasPdo = True, CsrBaseAddress = registerSpace 0xF0F00000, BusGeneration = 3,
     HostCapabilities = 0, MaxAsyncReadRequest = 0, MaxAsyncWriteRequest = 0,
     MaxDmaBufferSize = 0, MaxSpeedCode = SCODE_400_RATE, BusResetRegistered = True,
     BusResetPending = False, Modes = [], Removed = False\<rparr>"

lemma stale_then_ok_up: "bus_up stale_then_ok 7"
  by (simp add: bus_up_def stale_then_ok_def irbGeneration_def)

theorem transfer_survives_bus_reset_witness:
  "BusGeneration ext0 \<noteq> 7 \<and>
   statusOf (fst (PhotonicAsyncTransfer stale_then_ok 0 (XRead 4) TCODE_READ_REQUEST_QUADLET
     (ext0, 0))) \<noteq> STATUS_INVALID_GENERATION"
  using transfer_survives_bus_reset [OF stale_then_ok_up, of ext0 0 "XRead 4"
      TCODE_READ_REQUEST_QUADLET 0]
  by (simp add: ext0_def)

definition refresh_fails :: "'b env \<Rightarrow> bool" where
  "refresh_fails ev \<longleftrightarrow> (\<forall>x b. \<not> NT_SUCCESS (fst (PhotonicQueryGenerationCount ev (x, b))))"

lemma set_pending_id: "BusResetPending x \<Longrightarrow> x\<lparr>BusResetPending := True\<rparr> = x"
  by (cases x) simp

lemma failed_query_keeps:
  assumes "refresh_fails ev" and "PhotonicQueryGenerationCount ev (x, b) = (st, (x', b'))"
  shows "x' = x \<and> \<not> NT_SUCCESS st"
proof -
  have "\<not> NT_SUCCESS st"
    using assms unfolding refresh_fails_def by (metis fst_conv)
  then show ?thesis
    using assms(2)
    by (auto simp: PhotonicQueryGenerationCount_def submit_def split: prod.splits if_splits)
qed

lemma failed_refresh_keeps:
  assumes "refresh_fails ev" and "refreshIfPending ev (x, b) = (x', b')"
  shows "x' = x"
  using assms(2)
  by (auto simp: refreshIfPending_def set_pending_id split: if_splits prod.splits
      dest!: failed_query_keeps [OF assms(1)])

lemma failed_retry_keeps:
  assumes "refresh_fails ev" and "submitRetry ev a xf t (x, b) = (r, (x', b'))"
    and "BusResetPending x"
  shows "x' = x"
  using assms(2,3)
  by (auto simp: submitRetry_def set_pending_id split: if_splits prod.splits
      dest!: failed_query_keeps [OF assms(1)])

text \<open>
  A bus reset is not forgotten.  When every attempt to re-read the generation fails, a
  transfer that found the reset pending leaves it pending, and the cached generation is not
  replaced by anything else; so the next transfer tries the refresh again.
\<close>

theorem reset_flag_not_lost:
  assumes "refresh_fails ev" and "BusResetPending x"
  shows "BusResetPending (fst (snd (PhotonicAsyncTransfer ev a xf t (x, b)))) \<and>
         BusGeneration (fst (snd (PhotonicAsyncTransfer ev a xf t (x, b)))) = BusGeneration x"
proof -
  obtain x1 b1 where r: "refreshIfPending ev (x, b) = (x1, b1)"
    by (cases "refreshIfPending ev (x, b)")
  have x1: "x1 = x" by (rule failed_refresh_keeps [OF assms(1) r])
  show ?thesis
    using assms(2)
    by (auto simp: PhotonicAsyncTransfer_def r x1 split: prod.splits bool.splits
        dest!: failed_retry_keeps [OF assms(1)])
qed

definition dead_bus :: "unit env" where
  "dead_bus = \<lparr>envAlloc = (\<lambda>b. (True, b)), envLock = (\<lambda>b. (STATUS_DELETE_PENDING, b)),
     envCall = (\<lambda>i b. (Overdue, b))\<rparr>"

lemma dead_bus_refresh_fails: "refresh_fails dead_bus"
  by (auto simp: refresh_fails_def dead_bus_def PhotonicQueryGenerationCount_def submit_def
      PhotonicSubmitIrb_def PhotonicSubmitIrbEx_def)

theorem reset_flag_not_lost_witness:
  "BusResetPending (fst (snd (PhotonicAsyncTransfer dead_bus 0 (XRead 4)
     TCODE_READ_REQUEST_QUADLET (ext0\<lparr>BusResetPending := True\<rparr>, ()))))"
  using reset_flag_not_lost [OF dead_bus_refresh_fails, of "ext0\<lparr>BusResetPending := True\<rparr>" 0
      "XRead 4" TCODE_READ_REQUEST_QUADLET "()"]
  by simp

section \<open>CSR addresses\<close>

definition in_window :: "ULONG64 \<Rightarrow> bool" where
  "in_window a \<longleftrightarrow> registerSpace PHOTONIC_CSR_BASE_MIN \<le> a \<and> a < registerSpace PHOTONIC_CSR_BASE_MAX"

lemma registerSpace_bounds [simp]:
  "registerSpace 0xF0000000 = 0xFFFFF0000000" "registerSpace 0xF1000000 = 0xFFFFF1000000"
  by (simp_all add: registerSpace_def)

lemma registerSpace_plus: "registerSpace low = 0xFFFF00000000 + ucast low"
proof -
  have "push_bit 32 (0xFFFF :: ULONG64) AND ucast low = 0"
    by (rule bit_word_eqI) (auto simp: bit_push_bit_iff bit_and_iff bit_ucast_iff
        simp del: push_bit_numeral dest: bit_imp_le_length)
  then have "push_bit 32 (0xFFFF :: ULONG64) OR ucast low = push_bit 32 0xFFFF + ucast low"
    by (metis add_0 word_plus_and_or)
  then show ?thesis by (simp add: registerSpace_def)
qed

lemma uint_registerSpace: "uint (registerSpace low) = 0xFFFF00000000 + uint low"
proof -
  have "uint low < 2 ^ 32" using uint_lt2p [of low] by simp
  then show ?thesis
    by (simp add: registerSpace_plus uint_word_ariths uint_up_ucast is_up take_bit_eq_mod)
qed

text \<open>
  Command-base discovery either fails or leaves a CSR base inside the register window, so
  no later register access is aimed outside it.
\<close>

theorem discover_in_window:
  assumes "Photonic1394DiscoverCsrBase ev d = (Inr (), d')"
  shows "in_window (CsrBaseAddress (fst d'))"
proof -
  obtain low x b where d': "d' = (x\<lparr>CsrBaseAddress := registerSpace low\<rparr>, b)"
    and low: "0xF0000000 \<le> low" "low < 0xF1000000"
    using assms unfolding Photonic1394DiscoverCsrBase_def
    by (auto simp: Let_def not_less not_le split: option.splits if_splits elim!: andThen_InrE)
  have "0xF0000000 \<le> uint low" "uint low < 0xF1000000"
    using low by (simp_all add: word_le_def word_less_def)
  then show ?thesis
    by (simp add: d' in_window_def word_le_def word_less_def uint_registerSpace)
qed

definition rom_bus :: "unit env" where
  "rom_bus = \<lparr>envAlloc = (\<lambda>b. (True, b)), envLock = (\<lambda>b. (STATUS_SUCCESS, b)),
     envCall = (\<lambda>i b. (case i of
         GET_CONFIGURATION_INFO n \<Rightarrow>
           if n = 0 then InTime STATUS_SUCCESS (ResConfigSize 8)
           else InTime STATUS_SUCCESS (ResConfig CONFIG_ROM_SIGNATURE [0x00010000, 0x403C0000])
       | _ \<Rightarrow> InTime STATUS_SUCCESS ResNone, b))\<rparr>"

lemma rom_bus_discover:
  "Photonic1394DiscoverCsrBase rom_bus (ext0, ()) =
     (Inr (), (ext0\<lparr>CsrBaseAddress := registerSpace 0xF0F00000\<rparr>, ()))"
  by code_simp

theorem discover_in_window_witness:
  "in_window (CsrBaseAddress (ext0\<lparr>CsrBaseAddress := registerSpace 0xF0F00000\<rparr>))"
  using discover_in_window [OF rom_bus_discover] by simp

text \<open>
  A CSR pointer the camera advertises for a Format 7 mode is accepted only when the whole
  register block it names lies in the register window and not below the CSR base; the offset
  returned then denotes exactly the advertised address, and adding any register offset of the
  block to it does not wrap in 32 bits.
\<close>

theorem csr_pointer_sound:
  assumes "Photonic1394CsrPointerToOffset Pointer BlockBytes d = (Inr off, d')"
    and "in_window (CsrBaseAddress (fst d))"
  shows "uint (CsrBaseAddress (fst d)) + uint off = 0xFFFFF0000000 + 4 * uint Pointer \<and>
         uint (CsrBaseAddress (fst d)) + uint off + uint BlockBytes \<le> 0xFFFFF1000000 \<and>
         uint off + uint BlockBytes < 2 ^ 32 \<and> d' = d"
proof -
  let ?base = "CsrBaseAddress (fst d)"
  define absolute :: ULONG64 where "absolute = 0xFFFFF0000000 + ucast Pointer * 4"
  have p: "uint Pointer < 2 ^ 32" and k: "uint BlockBytes < 2 ^ 32"
    using uint_lt2p [of Pointer] uint_lt2p [of BlockBytes] by simp_all
  have ab: "uint absolute = 0xFFFFF0000000 + 4 * uint Pointer"
    using p by (simp add: absolute_def uint_word_ariths uint_up_ucast is_up take_bit_eq_mod)
  have le: "absolute + ucast BlockBytes \<le> 0xFFFFF1000000" "?base \<le> absolute"
    and off: "off = ucast (absolute - ?base)" and d': "d' = d"
    using assms(1)
    by (auto simp: Photonic1394CsrPointerToOffset_def absolute_def Let_def split: if_splits)
  have "uint (absolute + ucast BlockBytes) = uint absolute + uint BlockBytes"
    using p k by (simp add: ab uint_word_ariths uint_up_ucast is_up take_bit_eq_mod)
  with le have end_le: "uint absolute + uint BlockBytes \<le> 0xFFFFF1000000"
    by (simp add: word_le_def)
  have base: "0xFFFFF0000000 \<le> uint ?base"
    using assms(2) by (simp add: in_window_def word_le_def)
  have diff: "uint (absolute - ?base) = uint absolute - uint ?base"
    using le(2) by (simp add: uint_minus_simple_alt word_le_def)
  have small: "uint absolute - uint ?base < 4294967296"
    using end_le base uint_ge_0 [of BlockBytes] by linarith
  have "uint off = uint absolute - uint ?base"
    using small le(2)
    by (simp add: off unsigned_ucast_eq diff take_bit_eq_mod word_le_def)
  then show ?thesis
    using end_le base ab d' by simp
qed

theorem csr_pointer_sound_witness:
  "uint (CsrBaseAddress ext0) + uint (0x300 :: ULONG) = 0xFFFFF0000000 + 4 * uint (0x3C00C0 :: ULONG)"
proof -
  have run: "Photonic1394CsrPointerToOffset 0x3C00C0 0x48 (ext0, ()) = (Inr 0x300, (ext0, ()))"
    by code_simp
  have win: "in_window (CsrBaseAddress (fst (ext0, ())))"
    by code_simp
  from csr_pointer_sound [OF run win] show ?thesis by simp
qed

end
