(* ===== verification/Dcam.thy ===== *)
theory Dcam
  imports Bus1394
begin

text \<open>
  photonic/dcam.c: the DCAM register protocol the driver speaks to the camera.  The register
  calls are those of \<open>Bus1394\<close>, so every operation is a computation on the extension and the
  bus (\<open>'b drv\<close>) that may stop with a failed status, leaving what it has written in place.
\<close>

section \<open>Registers and tables\<close>

abbreviation (input) DCAM_REG_INITIALIZE :: ULONG where "DCAM_REG_INITIALIZE \<equiv> 0x000"
abbreviation (input) DCAM_REG_VIDEO_FORMAT_INQ :: ULONG where "DCAM_REG_VIDEO_FORMAT_INQ \<equiv> 0x100"
abbreviation (input) DCAM_REG_VIDEO_MODE_INQ :: ULONG where "DCAM_REG_VIDEO_MODE_INQ \<equiv> 0x180"
abbreviation (input) DCAM_REG_FRAME_RATE_INQ :: ULONG where "DCAM_REG_FRAME_RATE_INQ \<equiv> 0x200"
abbreviation (input) DCAM_REG_FRAME_RATE :: ULONG where "DCAM_REG_FRAME_RATE \<equiv> 0x600"
abbreviation (input) DCAM_REG_VIDEO_MODE :: ULONG where "DCAM_REG_VIDEO_MODE \<equiv> 0x604"
abbreviation (input) DCAM_REG_VIDEO_FORMAT :: ULONG where "DCAM_REG_VIDEO_FORMAT \<equiv> 0x608"
abbreviation (input) DCAM_REG_ISOCH_CHANNEL :: ULONG where "DCAM_REG_ISOCH_CHANNEL \<equiv> 0x60C"
abbreviation (input) DCAM_REG_ISO_EN :: ULONG where "DCAM_REG_ISO_EN \<equiv> 0x614"
abbreviation (input) DCAM_REG_ONE_SHOT :: ULONG where "DCAM_REG_ONE_SHOT \<equiv> 0x61C"
abbreviation (input) DCAM_ISO_EN_BIT :: ULONG where "DCAM_ISO_EN_BIT \<equiv> 0x80000000"
abbreviation (input) DCAM_ONE_SHOT_BIT :: ULONG where "DCAM_ONE_SHOT_BIT \<equiv> 0x80000000"
abbreviation (input) DCAM_INITIALIZE_BIT :: ULONG where "DCAM_INITIALIZE_BIT \<equiv> 0x80000000"
abbreviation (input) DCAM_SELECT_SHIFT :: nat where "DCAM_SELECT_SHIFT \<equiv> 29"
abbreviation (input) DCAM_ISOCH_CHANNEL_SHIFT :: nat where "DCAM_ISOCH_CHANNEL_SHIFT \<equiv> 28"
abbreviation (input) DCAM_ISOCH_SPEED_SHIFT :: nat where "DCAM_ISOCH_SPEED_SHIFT \<equiv> 24"
abbreviation (input) DCAM_MAX_IMAGE_BYTES :: ULONG where "DCAM_MAX_IMAGE_BYTES \<equiv> 0x10000000"
abbreviation (input) DCAM_F7_FORMAT :: nat where "DCAM_F7_FORMAT \<equiv> 7"
abbreviation (input) DCAM_REG_VIDEO_MODE_INQ_7 :: ULONG where "DCAM_REG_VIDEO_MODE_INQ_7 \<equiv> 0x19C"
abbreviation (input) DCAM_REG_V_CSR_INQ_7 :: ULONG where "DCAM_REG_V_CSR_INQ_7 \<equiv> 0x2E0"
abbreviation (input) DCAM_F7_MAX_IMAGE_SIZE :: ULONG where "DCAM_F7_MAX_IMAGE_SIZE \<equiv> 0x00"
abbreviation (input) DCAM_F7_UNIT_SIZE :: ULONG where "DCAM_F7_UNIT_SIZE \<equiv> 0x04"
abbreviation (input) DCAM_F7_IMAGE_POSITION :: ULONG where "DCAM_F7_IMAGE_POSITION \<equiv> 0x08"
abbreviation (input) DCAM_F7_IMAGE_SIZE :: ULONG where "DCAM_F7_IMAGE_SIZE \<equiv> 0x0C"
abbreviation (input) DCAM_F7_COLOR_CODING_ID :: ULONG where "DCAM_F7_COLOR_CODING_ID \<equiv> 0x10"
abbreviation (input) DCAM_F7_COLOR_CODING_INQ :: ULONG where "DCAM_F7_COLOR_CODING_INQ \<equiv> 0x14"
abbreviation (input) DCAM_F7_PACKET_PARA_INQ :: ULONG where "DCAM_F7_PACKET_PARA_INQ \<equiv> 0x40"
abbreviation (input) DCAM_F7_BYTE_PER_PACKET :: ULONG where "DCAM_F7_BYTE_PER_PACKET \<equiv> 0x44"
abbreviation (input) DCAM_ISO_CYCLE_100NS :: ULONG64 where "DCAM_ISO_CYCLE_100NS \<equiv> 1250"
abbreviation (input) DCAM_NUM_FORMATS :: nat where "DCAM_NUM_FORMATS \<equiv> 3"
abbreviation (input) DCAM_NUM_MODES :: nat where "DCAM_NUM_MODES \<equiv> 8"
abbreviation (input) DCAM_NUM_RATES :: nat where "DCAM_NUM_RATES \<equiv> 6"

text \<open>The mask bit of id \<open>n\<close>: bit 31 is id 0.\<close>

definition inqBit :: "ULONG \<Rightarrow> nat \<Rightarrow> bool" where
  "inqBit m n \<longleftrightarrow> m AND drop_bit n 0x80000000 \<noteq> 0"

text \<open>(PixelFormat, Width, Height) per standard format and mode.\<close>

definition g_DcamGeometry :: "(ULONG \<times> ULONG \<times> ULONG) list list" where
  "g_DcamGeometry =
    [[(PIX_YUV444, 160, 120), (PIX_YUV422, 320, 240), (PIX_YUV411, 640, 480),
      (PIX_YUV422, 640, 480), (PIX_RGB24, 640, 480), (PIX_MONO8, 640, 480),
      (PIX_MONO16, 640, 480), (PIX_INVALID, 0, 0)],
     [(PIX_YUV422, 800, 600), (PIX_RGB24, 800, 600), (PIX_MONO8, 800, 600),
      (PIX_YUV422, 1024, 768), (PIX_RGB24, 1024, 768), (PIX_MONO8, 1024, 768),
      (PIX_MONO16, 800, 600), (PIX_MONO16, 1024, 768)],
     [(PIX_YUV422, 1280, 960), (PIX_RGB24, 1280, 960), (PIX_MONO8, 1280, 960),
      (PIX_YUV422, 1600, 1200), (PIX_RGB24, 1600, 1200), (PIX_MONO8, 1600, 1200),
      (PIX_MONO16, 1280, 960), (PIX_MONO16, 1600, 1200)]]"

definition g_DcamRateInterval :: "ULONG list" where
  "g_DcamRateInterval = [5333333, 2666667, 1333333, 666667, 333333, 166667]"

text \<open>(BytesPerPacket, PacketsPerFrame) per standard format, mode and rate.\<close>

definition g_DcamPacketGeometry :: "(ULONG \<times> ULONG) list list list" where
  "g_DcamPacketGeometry =
    [[[(0, 0), (0, 0), (60, 960), (120, 480), (240, 240), (0, 0)],
      [(0, 0), (80, 1920), (160, 960), (320, 480), (640, 240), (0, 0)],
      [(0, 0), (240, 1920), (480, 960), (960, 480), (1920, 240), (0, 0)],
      [(0, 0), (320, 1920), (640, 960), (1280, 480), (2560, 240), (0, 0)],
      [(0, 0), (480, 1920), (960, 960), (1920, 480), (3840, 240), (0, 0)],
      [(0, 0), (160, 1920), (320, 960), (640, 480), (1280, 240), (2560, 120)],
      [(0, 0), (320, 1920), (640, 960), (1280, 480), (2560, 240), (0, 0)],
      [(0, 0), (0, 0), (0, 0), (0, 0), (0, 0), (0, 0)]],
     [[(0, 0), (500, 1920), (1000, 960), (2000, 480), (4000, 240), (0, 0)],
      [(0, 0), (0, 0), (1500, 960), (3000, 480), (0, 0), (0, 0)],
      [(0, 0), (0, 0), (500, 960), (1000, 480), (2000, 240), (4000, 120)],
      [(384, 4096), (768, 2048), (1536, 1024), (3072, 512), (0, 0), (0, 0)],
      [(576, 4096), (1152, 2048), (2304, 1024), (0, 0), (0, 0), (0, 0)],
      [(192, 4096), (384, 2048), (768, 1024), (1536, 512), (3072, 256), (0, 0)],
      [(0, 0), (500, 1920), (1000, 960), (2000, 480), (4000, 240), (0, 0)],
      [(384, 4096), (768, 2048), (1536, 1024), (3072, 512), (0, 0), (0, 0)]],
     [[(640, 3840), (1280, 1920), (2560, 960), (0, 0), (0, 0), (0, 0)],
      [(960, 3840), (1920, 1920), (3840, 960), (0, 0), (0, 0), (0, 0)],
      [(320, 3840), (640, 1920), (1280, 960), (2560, 480), (0, 0), (0, 0)],
      [(1000, 3840), (2000, 1920), (4000, 960), (0, 0), (0, 0), (0, 0)],
      [(1500, 3840), (3000, 1920), (0, 0), (0, 0), (0, 0), (0, 0)],
      [(500, 3840), (1000, 1920), (2000, 960), (4000, 480), (0, 0), (0, 0)],
      [(640, 3840), (1280, 1920), (2560, 960), (0, 0), (0, 0), (0, 0)],
      [(1000, 3840), (2000, 1920), (4000, 960), (0, 0), (0, 0), (0, 0)]]]"

section \<open>Reset\<close>

text \<open>The poll loop: at most \<open>n\<close> reads, stopping when the INITIALIZE bit has cleared.\<close>

fun pollInitialize :: "'b env \<Rightarrow> nat \<Rightarrow> ('b drv, unit) comp" where
  "pollInitialize ev 0 d = (Inr (), d)"
| "pollInitialize ev (Suc n) d =
     (case Photonic1394ReadRegister ev DCAM_REG_INITIALIZE d of
        (Inl e, d') \<Rightarrow> (Inl e, d')
      | (Inr value, d') \<Rightarrow>
          if value AND DCAM_INITIALIZE_BIT = 0 then (Inr (), d') else pollInitialize ev n d')"

definition PhotonicDcamReset :: "'b env \<Rightarrow> ('b drv, unit) comp" where
  "PhotonicDcamReset ev =
     andThen (Photonic1394WriteRegister ev DCAM_REG_INITIALIZE DCAM_INITIALIZE_BIT)
       (\<lambda>_. pollInitialize ev 50)"

section \<open>Frame rates and codings\<close>

text \<open>The rate loop of PhotonicDcamRateBounds: the shortest and longest supported interval.\<close>

definition rateBoundsStep :: "ULONG \<Rightarrow> nat \<Rightarrow> ULONG \<times> ULONG \<Rightarrow> ULONG \<times> ULONG" where
  "rateBoundsStep rateMask rate = (\<lambda>(mn, mx).
     if inqBit rateMask rate then
       (let interval = g_DcamRateInterval ! rate
        in (if mn = 0 \<or> interval < mn then interval else mn,
            if mx = 0 \<or> interval > mx then interval else mx))
     else (mn, mx))"

definition PhotonicDcamRateBounds :: "ULONG \<Rightarrow> ULONG \<times> ULONG" where
  "PhotonicDcamRateBounds rateMask = fold (rateBoundsStep rateMask) [0..<DCAM_NUM_RATES] (0, 0)"

definition PhotonicDcamFormat7Interval :: "ULONG \<Rightarrow> ULONG \<Rightarrow> ULONG" where
  "PhotonicDcamFormat7Interval TotalBytes BytesPerPacket =
     (if BytesPerPacket = 0 then 0
      else let interval = (ucast TotalBytes * DCAM_ISO_CYCLE_100NS) div ucast BytesPerPacket
           in if interval > 0xFFFFFFFF then 0xFFFFFFFF else ucast (interval :: ULONG64))"

definition PhotonicDcamCodingBpp :: "ULONG \<Rightarrow> ULONG" where
  "PhotonicDcamCodingBpp Coding =
     (if Coding = PIX_MONO8 \<or> Coding = PIX_RAW8 then 8
      else if Coding = PIX_YUV411 then 12
      else if Coding = PIX_YUV422 \<or> Coding = PIX_MONO16 then 16
      else if Coding = PIX_YUV444 \<or> Coding = PIX_RGB24 then 24
      else 0)"

section \<open>Format 7 enumeration\<close>

record f7_regs =
  rMaxSize :: ULONG
  rUnitSize :: ULONG
  rCodingMask :: ULONG
  rCurSize :: ULONG
  rCurCoding :: ULONG
  rPacketPara :: ULONG
  rBytePerPacket :: ULONG

definition readF7Block :: "'b env \<Rightarrow> ULONG \<Rightarrow> ('b drv, f7_regs) comp" where
  "readF7Block ev base =
     andThen (Photonic1394ReadRegister ev (base + DCAM_F7_MAX_IMAGE_SIZE)) (\<lambda>maxSize.
     andThen (Photonic1394ReadRegister ev (base + DCAM_F7_UNIT_SIZE)) (\<lambda>unitSize.
     andThen (Photonic1394ReadRegister ev (base + DCAM_F7_COLOR_CODING_INQ)) (\<lambda>codingMask.
     andThen (Photonic1394ReadRegister ev (base + DCAM_F7_IMAGE_SIZE)) (\<lambda>curSize.
     andThen (Photonic1394ReadRegister ev (base + DCAM_F7_COLOR_CODING_ID)) (\<lambda>curCoding.
     andThen (Photonic1394ReadRegister ev (base + DCAM_F7_PACKET_PARA_INQ)) (\<lambda>packetPara.
     andThen (Photonic1394ReadRegister ev (base + DCAM_F7_BYTE_PER_PACKET)) (\<lambda>bytePerPacket.
     ret \<lparr>rMaxSize = maxSize, rUnitSize = unitSize, rCodingMask = codingMask, rCurSize = curSize,
          rCurCoding = curCoding, rPacketPara = packetPara, rBytePerPacket = bytePerPacket\<rparr>)))))))"

text \<open>
  The registers of one mode, read in the code's order: the CSR pointer, its block, the mode
  select, then the block.
\<close>

definition probeF7Mode :: "'b env \<Rightarrow> nat \<Rightarrow> ('b drv, ULONG \<times> f7_regs) comp" where
  "probeF7Mode ev mode =
     andThen (Photonic1394ReadRegister ev (DCAM_REG_V_CSR_INQ_7 + of_nat mode * 4)) (\<lambda>pointer.
     andThen (Photonic1394CsrPointerToOffset pointer (DCAM_F7_BYTE_PER_PACKET + 4)) (\<lambda>base.
     andThen (Photonic1394WriteRegister ev DCAM_REG_VIDEO_MODE
                (push_bit DCAM_SELECT_SHIFT (of_nat mode))) (\<lambda>_.
     andThen (readF7Block ev base) (\<lambda>regs. ret (base, regs)))))"

record f7_geometry =
  gMaxWidth :: ULONG
  gMaxHeight :: ULONG
  gCurWidth :: ULONG
  gCurHeight :: ULONG
  gUnitWidth :: ULONG
  gUnitHeight :: ULONG
  gUnitBpp :: ULONG
  gMaxBpp :: ULONG

text \<open>The 64-bit frame-size test against the 256 MB cap.\<close>

definition exceedsCap :: "ULONG \<Rightarrow> ULONG \<Rightarrow> ULONG \<Rightarrow> bool" where
  "exceedsCap w h bpp \<longleftrightarrow>
     drop_bit 3 (ucast w * ucast h * ucast bpp :: ULONG64) > ucast DCAM_MAX_IMAGE_BYTES"

definition clampSize :: "ULONG \<Rightarrow> ULONG \<Rightarrow> ULONG" where
  "clampSize x mx = (if x > mx then mx else x)"

text \<open>The geometry of a mode from its registers; \<open>None\<close> is every reason to skip it.\<close>

definition f7Geometry :: "f7_regs \<Rightarrow> f7_geometry option" where
  "f7Geometry r =
     (let maxWidth = drop_bit 16 (rMaxSize r);
          maxHeight = rMaxSize r AND 0xFFFF;
          unitWidth0 = drop_bit 16 (rUnitSize r);
          unitHeight0 = rUnitSize r AND 0xFFFF
      in if maxWidth = 0 \<or> maxHeight = 0 then None
      else let (unitWidth, unitHeight) =
                 (if unitWidth0 = 0 \<or> unitHeight0 = 0 then (maxWidth, maxHeight)
                  else (unitWidth0, unitHeight0));
               alignedMaxWidth = maxWidth div unitWidth * unitWidth;
               alignedMaxHeight = maxHeight div unitHeight * unitHeight
      in if alignedMaxWidth = 0 \<or> alignedMaxHeight = 0 then None
      else let curWidth1 = clampSize (drop_bit 16 (rCurSize r) div unitWidth * unitWidth)
                             alignedMaxWidth;
               curHeight1 = clampSize ((rCurSize r AND 0xFFFF) div unitHeight * unitHeight)
                             alignedMaxHeight;
               (curWidth, curHeight) =
                 (if curWidth1 = 0 \<or> curHeight1 = 0 then (alignedMaxWidth, alignedMaxHeight)
                  else (curWidth1, curHeight1));
               unitBpp = drop_bit 16 (rPacketPara r);
               maxBpp = rPacketPara r AND 0xFFFF
      in if unitBpp = 0 \<or> maxBpp = 0 \<or> drop_bit 16 (rBytePerPacket r) = 0 then None
      else let bpp = PhotonicDcamCodingBpp (drop_bit 24 (rCurCoding r))
      in if bpp = 0 then None
      else if exceedsCap curWidth curHeight bpp then None
      else Some \<lparr>gMaxWidth = alignedMaxWidth, gMaxHeight = alignedMaxHeight, gCurWidth = curWidth,
                 gCurHeight = curHeight, gUnitWidth = unitWidth, gUnitHeight = unitHeight,
                 gUnitBpp = unitBpp, gMaxBpp = maxBpp\<rparr>)"

definition f7Entry :: "nat \<Rightarrow> ULONG \<Rightarrow> f7_geometry \<Rightarrow> nat \<Rightarrow> ULONG \<Rightarrow> video_mode" where
  "f7Entry mode base g coding codingBpp =
     (let codingFrameBytes = PhotonicImageBytes (gCurWidth g) (gCurHeight g) codingBpp in
      \<lparr>Format = of_nat DCAM_F7_FORMAT, Mode = of_nat mode, PixelFormat = of_nat coding,
       Width = gMaxWidth g, Height = gMaxHeight g,
       DefaultWidth = gCurWidth g, DefaultHeight = gCurHeight g,
       IsFormat7 = True, UnitWidth = gUnitWidth g, UnitHeight = gUnitHeight g,
       Format7CsrOffset = base, RateMask = 0,
       MinFrameInterval = PhotonicDcamFormat7Interval codingFrameBytes (gMaxBpp g),
       MaxFrameInterval = PhotonicDcamFormat7Interval codingFrameBytes (gUnitBpp g)\<rparr>)"

text \<open>The coding loop; the flag reports that the mode table was full.\<close>

fun f7Codings ::
  "nat \<Rightarrow> ULONG \<Rightarrow> f7_geometry \<Rightarrow> ULONG \<Rightarrow> nat list \<Rightarrow> video_mode list \<Rightarrow> video_mode list \<times> bool" where
  "f7Codings mode base g codingMask [] ms = (ms, False)"
| "f7Codings mode base g codingMask (coding # cs) ms =
     (if \<not> inqBit codingMask coding then f7Codings mode base g codingMask cs ms
      else let codingBpp = PhotonicDcamCodingBpp (of_nat coding)
      in if codingBpp = 0 then f7Codings mode base g codingMask cs ms
      else if exceedsCap (gMaxWidth g) (gMaxHeight g) codingBpp
      then f7Codings mode base g codingMask cs ms
      else if length ms \<ge> PHOTONIC_MAX_VIDEO_MODES then (ms, True)
      else f7Codings mode base g codingMask cs (ms @ [f7Entry mode base g coding codingBpp]))"

fun f7Modes :: "'b env \<Rightarrow> ULONG \<Rightarrow> nat list \<Rightarrow> 'b drv \<Rightarrow> 'b drv" where
  "f7Modes ev modeMask [] d = d"
| "f7Modes ev modeMask (mode # rest) d =
     (if \<not> inqBit modeMask mode then f7Modes ev modeMask rest d
      else case probeF7Mode ev mode d of
        (Inl _, d') \<Rightarrow> f7Modes ev modeMask rest d'
      | (Inr (base, regs), (x, b)) \<Rightarrow> (case f7Geometry regs of
          None \<Rightarrow> f7Modes ev modeMask rest (x, b)
        | Some g \<Rightarrow>
            (case f7Codings mode base g (rCodingMask regs) [0..<32] (Modes x) of (ms, full) \<Rightarrow>
               if full then (x\<lparr>Modes := ms\<rparr>, b)
               else f7Modes ev modeMask rest (x\<lparr>Modes := ms\<rparr>, b))))"

definition PhotonicDcamEnumerateFormat7 :: "'b env \<Rightarrow> 'b drv \<Rightarrow> 'b drv" where
  "PhotonicDcamEnumerateFormat7 ev d =
     (case Photonic1394WriteRegister ev DCAM_REG_VIDEO_FORMAT
             (push_bit DCAM_SELECT_SHIFT (of_nat DCAM_F7_FORMAT)) d of
        (Inl _, d1) \<Rightarrow> d1
      | (Inr _, d1) \<Rightarrow> (case Photonic1394ReadRegister ev DCAM_REG_VIDEO_MODE_INQ_7 d1 of
          (Inl _, d2) \<Rightarrow> d2
        | (Inr modeMask, d2) \<Rightarrow> f7Modes ev modeMask [0..<DCAM_NUM_MODES] d2))"

section \<open>Enumeration\<close>

definition PhotonicDcamReadSelection :: "'b env \<Rightarrow> ('b drv, ULONG \<times> ULONG) comp" where
  "PhotonicDcamReadSelection ev d =
     (if CsrBaseAddress (fst d) = 0 then (Inl STATUS_DEVICE_NOT_READY, d)
      else andThen (Photonic1394ReadRegister ev DCAM_REG_VIDEO_FORMAT) (\<lambda>f.
           andThen (Photonic1394ReadRegister ev DCAM_REG_VIDEO_MODE) (\<lambda>m.
           ret (drop_bit DCAM_SELECT_SHIFT f, drop_bit DCAM_SELECT_SHIFT m))) d)"

text \<open>
  The selection left after enumeration: the camera's own if it names an enumerated mode,
  otherwise the first entry.  Failed writes are only traced.
\<close>

definition PhotonicDcamNormalizeSelection ::
  "'b env \<Rightarrow> (ULONG \<times> ULONG) option \<Rightarrow> 'b drv \<Rightarrow> 'b drv" where
  "PhotonicDcamNormalizeSelection ev saved d =
     (let ms = Modes (fst d);
          (format, modeId) =
            (case saved of
               Some (sf, sm) \<Rightarrow>
                 if \<exists>e \<in> set ms. ucast (Format e) = sf \<and> ucast (Mode e) = sm then (sf, sm)
                 else (ucast (Format (ms ! 0)), ucast (Mode (ms ! 0)))
             | None \<Rightarrow> (ucast (Format (ms ! 0)), ucast (Mode (ms ! 0))))
      in snd (andThen (Photonic1394WriteRegister ev DCAM_REG_VIDEO_FORMAT
                         (push_bit DCAM_SELECT_SHIFT format))
              (\<lambda>_. Photonic1394WriteRegister ev DCAM_REG_VIDEO_MODE
                         (push_bit DCAM_SELECT_SHIFT modeId)) d))"

definition stdEntry ::
  "nat \<Rightarrow> nat \<Rightarrow> ULONG \<times> ULONG \<times> ULONG \<Rightarrow> ULONG \<Rightarrow> ULONG \<Rightarrow> ULONG \<Rightarrow> video_mode" where
  "stdEntry format mode geom rateMask minInterval maxInterval =
     (case geom of (pix, w, h) \<Rightarrow>
      \<lparr>Format = of_nat format, Mode = of_nat mode, PixelFormat = pix, Width = w, Height = h,
       DefaultWidth = w, DefaultHeight = h, IsFormat7 = False, UnitWidth = 0, UnitHeight = 0,
       Format7CsrOffset = 0, RateMask = rateMask,
       MinFrameInterval = minInterval, MaxFrameInterval = maxInterval\<rparr>)"

text \<open>The mode loop of one standard format; \<open>Inr True\<close>: the table was full (goto done).\<close>

fun stdModes :: "'b env \<Rightarrow> nat \<Rightarrow> ULONG \<Rightarrow> nat list \<Rightarrow> ('b drv, bool) comp" where
  "stdModes ev format modeMask [] d = (Inr False, d)"
| "stdModes ev format modeMask (mode # rest) d =
     (if \<not> inqBit modeMask mode then stdModes ev format modeMask rest d
      else let geom = g_DcamGeometry ! format ! mode
      in if fst geom = PIX_INVALID then stdModes ev format modeMask rest d
      else case Photonic1394ReadRegister ev
                  (DCAM_REG_FRAME_RATE_INQ + of_nat ((format * DCAM_NUM_MODES + mode) * 4)) d of
        (Inl e, d') \<Rightarrow> (Inl e, d')
      | (Inr rateMask, (x, b)) \<Rightarrow>
          (case PhotonicDcamRateBounds rateMask of (minInterval, maxInterval) \<Rightarrow>
             if minInterval = 0 then stdModes ev format modeMask rest (x, b)
             else if ModeCount x \<ge> PHOTONIC_MAX_VIDEO_MODES then (Inr True, (x, b))
             else stdModes ev format modeMask rest
                    (x\<lparr>Modes := Modes x @ [stdEntry format mode geom rateMask minInterval maxInterval]\<rparr>,
                     b)))"

fun stdFormats :: "'b env \<Rightarrow> ULONG \<Rightarrow> nat list \<Rightarrow> ('b drv, bool) comp" where
  "stdFormats ev formatMask [] d = (Inr False, d)"
| "stdFormats ev formatMask (format # rest) d =
     (if \<not> inqBit formatMask format then stdFormats ev formatMask rest d
      else case Photonic1394ReadRegister ev (DCAM_REG_VIDEO_MODE_INQ + of_nat (format * 4)) d of
        (Inl e, d') \<Rightarrow> (Inl e, d')
      | (Inr modeMask, d') \<Rightarrow> (case stdModes ev format modeMask [0..<DCAM_NUM_MODES] d' of
          (Inl e, d'') \<Rightarrow> (Inl e, d'')
        | (Inr True, d'') \<Rightarrow> (Inr True, d'')
        | (Inr False, d'') \<Rightarrow> stdFormats ev formatMask rest d''))"

definition PhotonicDcamEnumerateModes :: "'b env \<Rightarrow> ('b drv, unit) comp" where
  "PhotonicDcamEnumerateModes ev = (\<lambda>(x0, b0).
     case PhotonicDcamReadSelection ev (x0\<lparr>Modes := []\<rparr>, b0) of (sel, d1) \<Rightarrow>
     (case Photonic1394ReadRegister ev DCAM_REG_VIDEO_FORMAT_INQ d1 of
        (Inl e, d2) \<Rightarrow> (Inl e, d2)
      | (Inr formatMask, d2) \<Rightarrow> (case stdFormats ev formatMask [0..<DCAM_NUM_FORMATS] d2 of
          (Inl e, d3) \<Rightarrow> (Inl e, d3)
        | (Inr full, d3) \<Rightarrow>
            let d4 = (if \<not> full \<and> inqBit formatMask DCAM_F7_FORMAT
                      then PhotonicDcamEnumerateFormat7 ev d3 else d3)
            in if Modes (fst d4) = [] then (Inl STATUS_DEVICE_CONFIGURATION_ERROR, d4)
               else (Inr (), PhotonicDcamNormalizeSelection ev
                       (case sel of Inl _ \<Rightarrow> None | Inr p \<Rightarrow> Some p) d4))))"

end
