(* ===== verification/Dcam_Stream.thy ===== *)
theory Dcam_Stream
  imports Dcam
begin

text \<open>
  photonic/dcam.c, the half that drives an enumerated camera: the choice of the frame rate and
  of the Format 7 packet size, the programming of a stream, the queries of the current mode and
  sub-window, the frame-rate operations, and the three isochronous control registers.
\<close>

section \<open>Rate selection\<close>

text \<open>The loop of PhotonicDcamSelectRate: best rate and its distance, or no rate yet.\<close>

definition rateDelta :: "ULONG \<Rightarrow> nat \<Rightarrow> ULONG" where
  "rateDelta Interval rate =
     (if g_DcamRateInterval ! rate > Interval then g_DcamRateInterval ! rate - Interval
      else Interval - g_DcamRateInterval ! rate)"

definition rateStreams :: "nat \<Rightarrow> nat \<Rightarrow> ULONG \<Rightarrow> ULONG \<Rightarrow> nat \<Rightarrow> bool" where
  "rateStreams format mode rateMask MaxPayload rate \<longleftrightarrow>
     inqBit rateMask rate \<and>
     \<not> (fst (g_DcamPacketGeometry ! format ! mode ! rate) = 0 \<or>
        fst (g_DcamPacketGeometry ! format ! mode ! rate) > MaxPayload)"

definition selectRateStep ::
  "nat \<Rightarrow> nat \<Rightarrow> ULONG \<Rightarrow> ULONG \<Rightarrow> ULONG \<Rightarrow> nat \<Rightarrow> nat \<times> ULONG \<Rightarrow> nat \<times> ULONG" where
  "selectRateStep format mode rateMask Interval MaxPayload rate = (\<lambda>(best, bestDelta).
     if \<not> rateStreams format mode rateMask MaxPayload rate then (best, bestDelta)
     else if best = DCAM_NUM_RATES \<or> rateDelta Interval rate < bestDelta
     then (rate, rateDelta Interval rate)
     else (best, bestDelta))"

definition PhotonicDcamSelectRate :: "nat \<Rightarrow> nat \<Rightarrow> ULONG \<Rightarrow> ULONG \<Rightarrow> ULONG \<Rightarrow> nat" where
  "PhotonicDcamSelectRate format mode rateMask Interval MaxPayload =
     fst (fold (selectRateStep format mode rateMask Interval MaxPayload) [0..<DCAM_NUM_RATES]
            (DCAM_NUM_RATES, 0))"

section \<open>The Format 7 packet size\<close>

text \<open>
  The divisor scan: candidates are the multiples of the unit up to the maximum; the scan keeps
  the last divisor at or below the target and stops at the first one above it.  The result is
  (divisorBelow, divisorAbove).  The loop variable is a ULONG; the fuel bounds the number of
  candidates, and \<open>None\<close> would be a scan that did not finish.
\<close>

fun divisorScan ::
  "nat \<Rightarrow> ULONG \<Rightarrow> ULONG \<Rightarrow> ULONG \<Rightarrow> ULONG \<Rightarrow> ULONG \<Rightarrow> ULONG \<Rightarrow> (ULONG \<times> ULONG) option" where
  "divisorScan 0 frameBytes unitBpp maxBpp bpp candidate divisorBelow = None"
| "divisorScan (Suc n) frameBytes unitBpp maxBpp bpp candidate divisorBelow =
     (if candidate > maxBpp then Some (divisorBelow, 0)
      else if frameBytes mod candidate \<noteq> 0
      then divisorScan n frameBytes unitBpp maxBpp bpp (candidate + unitBpp) divisorBelow
      else if candidate \<le> bpp
      then divisorScan n frameBytes unitBpp maxBpp bpp (candidate + unitBpp) candidate
      else Some (divisorBelow, candidate))"

text \<open>The cap of the advertised maximum at the payload the bus speed carries.\<close>

definition capPacket :: "ULONG \<Rightarrow> ULONG \<Rightarrow> ULONG \<Rightarrow> ULONG" where
  "capPacket unitBpp maxBpp speedMaxBpp =
     (if maxBpp > speedMaxBpp then speedMaxBpp div unitBpp * unitBpp else maxBpp)"

text \<open>The rate-derived target, clamped in 64 bits, floored to the unit and snapped into range.\<close>

definition targetPacket :: "ULONG \<Rightarrow> ULONG \<Rightarrow> ULONG \<Rightarrow> ULONG \<Rightarrow> ULONG" where
  "targetPacket frameBytes unitBpp maxBpp Interval =
     (let rawBpp = (if Interval \<noteq> 0
                    then (let target = (ucast frameBytes * DCAM_ISO_CYCLE_100NS) div ucast Interval
                          in if target > ucast maxBpp then maxBpp else ucast (target :: ULONG64))
                    else maxBpp);
          bpp = rawBpp div unitBpp * unitBpp;
          bpp1 = (if bpp = 0 then unitBpp else bpp)
      in if bpp1 > maxBpp then maxBpp else bpp1)"

abbreviation (input) scanFuel :: nat where "scanFuel \<equiv> 65537"

definition choosePacket :: "ULONG \<Rightarrow> ULONG \<Rightarrow> ULONG \<Rightarrow> ULONG \<Rightarrow> NTSTATUS + ULONG" where
  "choosePacket frameBytes packetPara speedMaxBpp Interval =
     (let unitBpp = drop_bit 16 packetPara;
          maxBpp0 = packetPara AND 0xFFFF
      in if unitBpp = 0 \<or> maxBpp0 = 0 then Inl STATUS_UNSUCCESSFUL
      else let maxBpp = capPacket unitBpp maxBpp0 speedMaxBpp
      in if maxBpp = 0 then Inl STATUS_INVALID_PARAMETER
      else let bpp = targetPacket frameBytes unitBpp maxBpp Interval
      in case divisorScan scanFuel frameBytes unitBpp maxBpp bpp unitBpp 0 of
           None \<Rightarrow> Inl STATUS_INVALID_PARAMETER
         | Some (divisorBelow, divisorAbove) \<Rightarrow>
             if divisorBelow \<noteq> 0 then Inr divisorBelow
             else if divisorAbove \<noteq> 0 then Inr divisorAbove
             else Inl STATUS_INVALID_PARAMETER)"

section \<open>Programming a stream\<close>

text \<open>
  The operations below run on the stream extension as well; \<open>onDrv\<close> runs a register
  computation and leaves the stream alone.
\<close>

definition onDrv :: "('b drv, 'a) comp \<Rightarrow> (stream \<times> 'b drv, 'a) comp" where
  "onDrv m = (\<lambda>(s, d). case m d of (r, d') \<Rightarrow> (r, (s, d')))"

definition PhotonicDcamConfigureFormat7 ::
  "'b env \<Rightarrow> video_mode \<Rightarrow> (stream \<times> 'b drv, ULONG \<times> ULONG) comp" where
  "PhotonicDcamConfigureFormat7 ev mode = (\<lambda>(s, d).
     let base = Format7CsrOffset mode; frameBytes = ImageSize s in
     if frameBytes = 0 then (Inl STATUS_INVALID_PARAMETER, (s, d))
     else onDrv
       (andThen (Photonic1394WriteRegister ev DCAM_REG_VIDEO_FORMAT
                   (push_bit DCAM_SELECT_SHIFT (of_nat DCAM_F7_FORMAT))) (\<lambda>_.
        andThen (Photonic1394WriteRegister ev DCAM_REG_VIDEO_MODE
                   (push_bit DCAM_SELECT_SHIFT (ucast (Mode mode)))) (\<lambda>_.
        andThen (Photonic1394WriteRegister ev (base + DCAM_F7_IMAGE_SIZE)
                   (push_bit 16 (sWidth s AND 0xFFFF) OR (sHeight s AND 0xFFFF))) (\<lambda>_.
        andThen (Photonic1394WriteRegister ev (base + DCAM_F7_COLOR_CODING_ID)
                   (push_bit 24 (PixelFormat mode))) (\<lambda>_.
        andThen (Photonic1394ReadRegister ev (base + DCAM_F7_PACKET_PARA_INQ)) (\<lambda>packetPara d1.
          case choosePacket frameBytes packetPara (Photonic1394MaxIsochPayload (fst d1))
                 (FrameInterval s) of
            Inl e \<Rightarrow> (Inl e, d1)
          | Inr bpp \<Rightarrow>
              (let ppf = frameBytes div bpp in
               if ppf = 0 then (Inl STATUS_INVALID_PARAMETER, d1)
               else andThen (Photonic1394WriteRegister ev (base + DCAM_F7_BYTE_PER_PACKET)
                               (push_bit 16 bpp)) (\<lambda>_. ret (bpp, ppf)) d1)))))))
       (s, d))"

definition PhotonicDcamConfigureStream ::
  "'b env \<Rightarrow> (stream \<times> 'b drv, ULONG \<times> ULONG) comp" where
  "PhotonicDcamConfigureStream ev = (\<lambda>(s, d).
     case sMode s of
       None \<Rightarrow> (Inl STATUS_INVALID_DEVICE_STATE, (s, d))
     | Some mode \<Rightarrow>
         if IsFormat7 mode then PhotonicDcamConfigureFormat7 ev mode (s, d)
         else let rate = PhotonicDcamSelectRate (unat (Format mode)) (unat (Mode mode))
                           (RateMask mode) (FrameInterval s) (Photonic1394MaxIsochPayload (fst d))
         in if rate \<ge> DCAM_NUM_RATES then (Inl STATUS_INVALID_DEVICE_STATE, (s, d))
         else onDrv
           (andThen (Photonic1394WriteRegister ev DCAM_REG_VIDEO_FORMAT
                       (push_bit DCAM_SELECT_SHIFT (ucast (Format mode)))) (\<lambda>_.
            andThen (Photonic1394WriteRegister ev DCAM_REG_VIDEO_MODE
                       (push_bit DCAM_SELECT_SHIFT (ucast (Mode mode)))) (\<lambda>_.
            andThen (Photonic1394WriteRegister ev DCAM_REG_FRAME_RATE
                       (push_bit DCAM_SELECT_SHIFT (of_nat rate))) (\<lambda>_.
            ret (g_DcamPacketGeometry ! unat (Format mode) ! unat (Mode mode) ! rate)))))
           (s\<lparr>RateId := of_nat rate\<rparr>, d))"

section \<open>The current mode\<close>

definition selects :: "ULONG \<Rightarrow> ULONG \<Rightarrow> video_mode \<Rightarrow> bool" where
  "selects format mode e \<longleftrightarrow> ucast (Format e) = format \<and> ucast (Mode e) = mode"

definition PhotonicDcamGetCurrentPixelFormat :: "'b env \<Rightarrow> ('b drv, ULONG) comp" where
  "PhotonicDcamGetCurrentPixelFormat ev =
     andThen (PhotonicDcamReadSelection ev) (\<lambda>(format, mode) d.
       case find (selects format mode) (Modes (fst d)) of
         None \<Rightarrow> (Inl STATUS_NOT_FOUND, d)
       | Some entry \<Rightarrow>
           if \<not> IsFormat7 entry then (Inr (PixelFormat entry), d)
           else andThen (Photonic1394ReadRegister ev
                           (Format7CsrOffset entry + DCAM_F7_COLOR_CODING_ID))
                  (\<lambda>value. ret (drop_bit 24 value)) d)"

definition PhotonicDcamGetCurrentMode :: "'b env \<Rightarrow> ('b drv, video_mode) comp" where
  "PhotonicDcamGetCurrentMode ev =
     andThen (PhotonicDcamReadSelection ev) (\<lambda>(format, mode) d.
       case dropWhile (\<lambda>e. \<not> selects format mode e) (Modes (fst d)) of
         [] \<Rightarrow> (Inl STATUS_NOT_FOUND, d)
       | entry # rest \<Rightarrow>
           if IsFormat7 entry then
             (case Photonic1394ReadRegister ev (Format7CsrOffset entry + DCAM_F7_COLOR_CODING_ID) d of
                (Inl _, d') \<Rightarrow> (Inr entry, d')
              | (Inr value, d') \<Rightarrow>
                  (case find (\<lambda>c. selects format mode c \<and> PixelFormat c = drop_bit 24 value)
                          (entry # rest) of
                     None \<Rightarrow> (Inr entry, d')
                   | Some c \<Rightarrow> (Inr c, d')))
           else (Inr entry, d))"

text \<open>The decimation factor is relative to the widest enumerated mode.\<close>

definition fullWidth :: "video_mode list \<Rightarrow> ULONG" where
  "fullWidth ms = fold (\<lambda>e w. if DefaultWidth e > w then DefaultWidth e else w) ms 0"

record subwindow =
  swScale :: ULONG
  swOffsetX :: ULONG
  swOffsetY :: ULONG
  swWidth :: ULONG
  swHeight :: ULONG

definition scaledWindow :: "ULONG \<Rightarrow> ULONG \<Rightarrow> ULONG \<Rightarrow> ULONG \<Rightarrow> ULONG \<Rightarrow> subwindow" where
  "scaledWindow scale x y w h =
     \<lparr>swScale = scale, swOffsetX = x * scale, swOffsetY = y * scale, swWidth = w * scale,
      swHeight = h * scale\<rparr>"

definition PhotonicDcamGetCurrentSubwindow :: "'b env \<Rightarrow> ('b drv, subwindow) comp" where
  "PhotonicDcamGetCurrentSubwindow ev =
     andThen (PhotonicDcamGetCurrentMode ev) (\<lambda>mode d.
       let scale = fullWidth (Modes (fst d)) div DefaultWidth mode in
       if IsFormat7 mode then
         andThen (Photonic1394ReadRegister ev (Format7CsrOffset mode + DCAM_F7_IMAGE_POSITION)) (\<lambda>position.
         andThen (Photonic1394ReadRegister ev (Format7CsrOffset mode + DCAM_F7_IMAGE_SIZE)) (\<lambda>size.
           ret (scaledWindow scale (drop_bit 16 position) (position AND 0xFFFF)
                  (drop_bit 16 size) (size AND 0xFFFF)))) d
       else ret (scaledWindow scale 0 0 (DefaultWidth mode) (DefaultHeight mode)) d)"

section \<open>Frame rate operations\<close>

text \<open>The rate id of the Index-th bit set in the mask, slowest first; six when there is none.\<close>

fun rateFromIndexLoop :: "ULONG \<Rightarrow> ULONG \<Rightarrow> nat list \<Rightarrow> ULONG \<Rightarrow> nat" where
  "rateFromIndexLoop rateMask Index [] cnt = DCAM_NUM_RATES"
| "rateFromIndexLoop rateMask Index (rate # rest) cnt =
     (if \<not> inqBit rateMask rate then rateFromIndexLoop rateMask Index rest cnt
      else if cnt = Index then rate
      else rateFromIndexLoop rateMask Index rest (cnt + 1))"

definition PhotonicDcamRateFromIndex :: "ULONG \<Rightarrow> ULONG \<Rightarrow> nat" where
  "PhotonicDcamRateFromIndex rateMask Index =
     rateFromIndexLoop rateMask Index [0..<DCAM_NUM_RATES] 0"

definition PhotonicDcamSelectPixelFormat :: "'b env \<Rightarrow> ULONG \<Rightarrow> ('b drv, unit) comp" where
  "PhotonicDcamSelectPixelFormat ev pixelFormat d =
     (if CsrBaseAddress (fst d) = 0 then (Inl STATUS_DEVICE_NOT_READY, d)
      else case find (\<lambda>e. PixelFormat e = pixelFormat) (Modes (fst d)) of
        None \<Rightarrow> (Inl STATUS_NOT_FOUND, d)
      | Some entry \<Rightarrow>
          andThen (Photonic1394WriteRegister ev DCAM_REG_VIDEO_FORMAT
                     (push_bit DCAM_SELECT_SHIFT (ucast (Format entry)))) (\<lambda>_.
          andThen (Photonic1394WriteRegister ev DCAM_REG_VIDEO_MODE
                     (push_bit DCAM_SELECT_SHIFT (ucast (Mode entry)))) (\<lambda>_.
          if IsFormat7 entry
          then Photonic1394WriteRegister ev (Format7CsrOffset entry + DCAM_F7_COLOR_CODING_ID)
                 (push_bit 24 (PixelFormat entry))
          else ret ())) d)"

definition PhotonicDcamEnumFrameRate :: "'b env \<Rightarrow> ULONG \<Rightarrow> ('b drv, ULONG) comp" where
  "PhotonicDcamEnumFrameRate ev Index =
     andThen (PhotonicDcamGetCurrentMode ev) (\<lambda>entry.
       if IsFormat7 entry then
         (if Index = 0 \<and> MinFrameInterval entry \<noteq> 0 then ret (MinFrameInterval entry)
          else fail STATUS_NO_MORE_ENTRIES)
       else let rate = PhotonicDcamRateFromIndex (RateMask entry) Index
       in if rate \<ge> DCAM_NUM_RATES then fail STATUS_NO_MORE_ENTRIES
       else ret (g_DcamRateInterval ! rate))"

definition PhotonicDcamSetFrameRate :: "'b env \<Rightarrow> ULONG \<Rightarrow> ('b drv, unit) comp" where
  "PhotonicDcamSetFrameRate ev Index =
     andThen (PhotonicDcamGetCurrentMode ev) (\<lambda>entry.
       if IsFormat7 entry then
         (if Index \<noteq> 0 \<or> MinFrameInterval entry = 0 then fail STATUS_NO_MORE_ENTRIES else ret ())
       else let rate = PhotonicDcamRateFromIndex (RateMask entry) Index
       in if rate \<ge> DCAM_NUM_RATES then fail STATUS_NO_MORE_ENTRIES
       else Photonic1394WriteRegister ev DCAM_REG_FRAME_RATE
              (push_bit DCAM_SELECT_SHIFT (of_nat rate)))"

definition PhotonicDcamGetFrameRate :: "'b env \<Rightarrow> ('b drv, ULONG) comp" where
  "PhotonicDcamGetFrameRate ev =
     andThen (PhotonicDcamGetCurrentMode ev) (\<lambda>entry.
       if IsFormat7 entry then
         (if MinFrameInterval entry = 0 then fail STATUS_UNSUCCESSFUL
          else ret (MinFrameInterval entry))
       else andThen (Photonic1394ReadRegister ev DCAM_REG_FRAME_RATE) (\<lambda>value.
         let rate = unat (drop_bit DCAM_SELECT_SHIFT value) in
         if rate \<ge> DCAM_NUM_RATES then fail STATUS_DEVICE_DATA_ERROR
         else ret (g_DcamRateInterval ! rate)))"

section \<open>Isochronous control\<close>

definition PhotonicDcamSetIsochChannel :: "'b env \<Rightarrow> ULONG \<Rightarrow> ULONG \<Rightarrow> ('b drv, unit) comp" where
  "PhotonicDcamSetIsochChannel ev Channel SpeedCode =
     (let value = push_bit DCAM_ISOCH_CHANNEL_SHIFT Channel OR push_bit DCAM_ISOCH_SPEED_SHIFT SpeedCode in
      if Channel > 15 \<or> SpeedCode > 2 then fail STATUS_INVALID_PARAMETER
      else Photonic1394WriteRegister ev DCAM_REG_ISOCH_CHANNEL value)"

definition PhotonicDcamSetIsochEnable :: "'b env \<Rightarrow> bool \<Rightarrow> ('b drv, unit) comp" where
  "PhotonicDcamSetIsochEnable ev Enable =
     Photonic1394WriteRegister ev DCAM_REG_ISO_EN (if Enable then DCAM_ISO_EN_BIT else 0)"

definition PhotonicDcamOneShot :: "'b env \<Rightarrow> bool \<Rightarrow> ('b drv, unit) comp" where
  "PhotonicDcamOneShot ev Arm =
     Photonic1394WriteRegister ev DCAM_REG_ONE_SHOT (if Arm then DCAM_ONE_SHOT_BIT else 0)"

end
