(* ===== verification/Register_Frame.thy ===== *)
theory Register_Frame
  imports Bus1394
begin

text \<open>
  The contract between the register transport (\<open>Bus1394\<close>) and the camera protocol built on it:
  a register access may refresh the bus bookkeeping of the extension and nothing else.  The
  contract is the locale \<open>register_transport\<close>; the protocol's computations inherit it from the
  accesses they are made of, and the interpretation discharges it for the modelled transport.
\<close>

definition keeps :: "('s \<Rightarrow> 's \<Rightarrow> bool) \<Rightarrow> ('s, 'a) comp \<Rightarrow> bool" where
  "keeps same m \<longleftrightarrow> (\<forall>s. same s (snd (m s)))"

lemma keepsI: "(\<And>s. same s (snd (m s))) \<Longrightarrow> keeps same m"
  by (simp add: keeps_def)

lemma keepsD: "keeps same m \<Longrightarrow> m s = (r, s') \<Longrightarrow> same s s'"
  by (metis keeps_def snd_conv)

locale register_transport =
  fixes same :: "'s \<Rightarrow> 's \<Rightarrow> bool"
    and rd :: "ULONG \<Rightarrow> ('s, ULONG) comp"
    and wr :: "ULONG \<Rightarrow> ULONG \<Rightarrow> ('s, unit) comp"
  assumes same_refl: "same s s"
    and same_trans: "same s t \<Longrightarrow> same t u \<Longrightarrow> same s u"
    and rd_keeps: "keeps same (rd offset)"
    and wr_keeps: "keeps same (wr offset v)"
begin

lemma keeps_ret: "keeps same (ret a)"
  by (simp add: keeps_def same_refl)

lemma keeps_fail: "keeps same (fail e)"
  by (simp add: keeps_def same_refl)

lemma keeps_andThen:
  assumes "keeps same m" and "\<And>a. keeps same (f a)"
  shows "keeps same (andThen m f)"
proof (rule keepsI)
  fix s
  obtain r t where m: "m s = (r, t)"
    by (cases "m s")
  have "same s t"
    using keepsD [OF assms(1) m] .
  then show "same s (snd (andThen m f s))"
    using assms(2) by (auto simp: andThen_def m keeps_def split: sum.splits intro: same_trans)
qed

lemma keeps_if: "(c \<Longrightarrow> keeps same m) \<Longrightarrow> (\<not> c \<Longrightarrow> keeps same n) \<Longrightarrow> keeps same (if c then m else n)"
  by simp

lemmas keeps_intros = keeps_ret keeps_fail keeps_andThen keeps_if rd_keeps wr_keeps

text \<open>A read followed by a write of the same register stays within the contract.\<close>

lemma keeps_modify: "keeps same (andThen (rd offset) (\<lambda>v. wr offset (f v)))"
  by (intro keeps_intros)

end

text \<open>
  The stronger contract: a failed access reports a failure status, so a caller that tests the
  status with NT_SUCCESS sees every failure.
\<close>

definition failsOnly :: "('s, 'a) comp \<Rightarrow> bool" where
  "failsOnly m \<longleftrightarrow> (\<forall>s e s'. m s = (Inl e, s') \<longrightarrow> \<not> NT_SUCCESS e)"

lemma failsOnlyD: "failsOnly m \<Longrightarrow> m s = (Inl e, s') \<Longrightarrow> \<not> NT_SUCCESS e"
  by (auto simp: failsOnly_def)

locale reporting_transport = register_transport +
  assumes rd_fails: "failsOnly (rd offset)"
    and wr_fails: "failsOnly (wr offset v)"
begin

lemma fails_ret: "failsOnly (ret a)"
  by (simp add: failsOnly_def)

lemma fails_fail: "\<not> NT_SUCCESS e \<Longrightarrow> failsOnly (fail e)"
  by (simp add: failsOnly_def)

lemma fails_andThen:
  assumes "failsOnly m" and "\<And>a. failsOnly (f a)"
  shows "failsOnly (andThen m f)"
  using assms unfolding failsOnly_def andThen_def by (auto split: prod.splits sum.splits)

lemmas fails_intros = fails_ret fails_fail fails_andThen rd_fails wr_fails

end

section \<open>The modelled transport satisfies the contract\<close>

text \<open>Two driver states with the same device: only generation and reset flag may differ.\<close>

definition same_ext :: "extension \<Rightarrow> extension \<Rightarrow> bool" where
  "same_ext x x' \<longleftrightarrow>
     x' = x\<lparr>BusGeneration := BusGeneration x', BusResetPending := BusResetPending x'\<rparr>"

definition same_device :: "'b drv \<Rightarrow> 'b drv \<Rightarrow> bool" where
  "same_device d d' \<longleftrightarrow> same_ext (fst d) (fst d')"

named_theorems same_intros

lemma same_ext_refl [simp, same_intros]: "same_ext x x"
  by (simp add: same_ext_def)

lemma same_device_refl [simp]: "same_device d d"
  by (simp add: same_device_def)

lemma same_ext_iff:
  "same_ext x x' \<longleftrightarrow> (\<exists>g p. x' = x\<lparr>BusGeneration := g, BusResetPending := p\<rparr>)"
  by (auto simp: same_ext_def)

lemma same_ext_trans: "same_ext x y \<Longrightarrow> same_ext y z \<Longrightarrow> same_ext x z"
  unfolding same_ext_iff by (elim exE) (intro exI, simp)

lemma same_device_trans: "same_device d e \<Longrightarrow> same_device e f \<Longrightarrow> same_device d f"
  by (simp add: same_device_def) (metis same_ext_trans)

lemma same_ext_pending [same_intros]: "same_ext x y \<Longrightarrow> same_ext x (y\<lparr>BusResetPending := p\<rparr>)"
  unfolding same_ext_iff by (elim exE) (intro exI, simp)

lemma same_ext_generation [same_intros]: "same_ext x y \<Longrightarrow> same_ext x (y\<lparr>BusGeneration := g\<rparr>)"
  by (cases x; cases y) (simp add: same_ext_def)

lemma same_ext_unset:
  "same_ext (x\<lparr>BusResetPending := p\<rparr>) y \<Longrightarrow> same_ext x y"
  by (rule same_ext_trans [of _ "x\<lparr>BusResetPending := p\<rparr>"]) (auto intro: same_intros)

lemma same_ext_fields:
  assumes "same_ext x x'"
  shows "Modes x' = Modes x" "CsrBaseAddress x' = CsrBaseAddress x"
    "MaxSpeedCode x' = MaxSpeedCode x" "HasPdo x' = HasPdo x" "Removed x' = Removed x"
    "MaxDmaBufferSize x' = MaxDmaBufferSize x"
  using assms unfolding same_ext_iff by auto

lemma query_generation_same:
  "PhotonicQueryGenerationCount ev (x, b) = (st, (x', b')) \<Longrightarrow> same_ext x x'"
  by (auto simp: PhotonicQueryGenerationCount_def submit_def split: prod.splits if_splits
      intro: same_intros)

lemma refreshIfPending_same: "refreshIfPending ev (x, b) = (x', b') \<Longrightarrow> same_ext x x'"
  by (auto simp: refreshIfPending_def split: prod.splits if_splits
      dest!: query_generation_same intro: same_intros same_ext_unset)

lemma submitRetry_same: "submitRetry ev a xf t (x, b) = (r, (x', b')) \<Longrightarrow> same_ext x x'"
  by (auto simp: submitRetry_def split: prod.splits if_splits
      dest!: query_generation_same intro: same_intros)

lemma transfer_same: "PhotonicAsyncTransfer ev a xf t (x, b) = (r, (x', b')) \<Longrightarrow> same_ext x x'"
  by (auto simp: PhotonicAsyncTransfer_def split: prod.splits if_splits bool.splits
      dest!: refreshIfPending_same submitRetry_same intro: same_ext_trans)

lemma ReadRegister_same: "keeps same_device (Photonic1394ReadRegister ev offset)"
  by (rule keepsI)
    (auto simp: same_device_def Photonic1394ReadRegister_def readQuadlet_def andThen_def
      split: prod.splits sum.splits dest: transfer_same)

lemma WriteRegister_same: "keeps same_device (Photonic1394WriteRegister ev offset v)"
  by (rule keepsI)
    (auto simp: same_device_def Photonic1394WriteRegister_def writeQuadlet_def andThen_def
      split: prod.splits sum.splits dest: transfer_same)

interpretation registers: register_transport same_device "Photonic1394ReadRegister ev"
  "Photonic1394WriteRegister ev" for ev
  by unfold_locales
    (auto intro: same_device_trans ReadRegister_same WriteRegister_same)

lemmas registers_keep = registers.keeps_intros

lemma transfer_fails: "failsOnly (PhotonicAsyncTransfer ev a xf t)"
  unfolding failsOnly_def
  by (auto simp: PhotonicAsyncTransfer_def split: prod.splits if_splits bool.splits)

lemma ReadRegister_fails: "failsOnly (Photonic1394ReadRegister ev offset)"
  unfolding failsOnly_def Photonic1394ReadRegister_def readQuadlet_def andThen_def
  by (auto split: prod.splits sum.splits dest: failsOnlyD [OF transfer_fails])

lemma WriteRegister_fails: "failsOnly (Photonic1394WriteRegister ev offset v)"
  unfolding failsOnly_def Photonic1394WriteRegister_def writeQuadlet_def andThen_def
  by (auto split: prod.splits sum.splits dest: failsOnlyD [OF transfer_fails])

interpretation reporting: reporting_transport same_device "Photonic1394ReadRegister ev"
  "Photonic1394WriteRegister ev" for ev
  by unfold_locales (rule ReadRegister_fails WriteRegister_fails)+

lemmas registers_fail = reporting.fails_intros

end
