(* ===== verification/Dcam_Props.thy ===== *)
theory Dcam_Props
  imports Dcam_Stream Register_Frame Bus1394_Props
begin

text \<open>
  What the DCAM layer guarantees: the packet table agrees with the geometry table, the rate and
  packet choices are the optimal legal ones, the enumerated mode table is well formed whatever
  the camera's registers hold, and the arithmetic of the operations that use it neither wraps
  nor divides by zero.
\<close>

section \<open>The packet choice\<close>

text \<open>
  The specification: the packet sizes a camera may be programmed with are the positive multiples
  of the unit up to the cap that divide the frame.
\<close>

definition legalPacket :: "ULONG \<Rightarrow> ULONG \<Rightarrow> ULONG \<Rightarrow> nat \<Rightarrow> bool" where
  "legalPacket frameBytes unitBpp cap c \<longleftrightarrow>
     0 < c \<and> c \<le> unat cap \<and> unat unitBpp dvd c \<and> c dvd unat frameBytes"

lemma word_add_small:
  fixes a b :: ULONG
  assumes "unat a \<le> 65535" and "unat b \<le> 65535"
  shows "unat (a + b) = unat a + unat b"
  using assms by (simp add: unat_word_ariths)

lemma mod_eq_0_iff_dvd_unat:
  fixes a b :: ULONG
  shows "a mod b = 0 \<longleftrightarrow> unat b dvd unat a"
  by (simp add: unat_eq_0 [symmetric] unat_mod dvd_eq_mod_eq_0)

lemma dvd_between:
  fixes u a c :: nat
  assumes "u dvd a" and "u dvd c" and "a < c"
  shows "a + u \<le> c"
proof -
  obtain i j where ij: "a = u * i" "c = u * j"
    using assms by (auto elim!: dvdE)
  with \<open>a < c\<close> have "Suc i \<le> j"
    by (simp add: Suc_le_eq)
  then have "u * Suc i \<le> u * j"
    by (rule mult_le_mono2)
  with ij show ?thesis
    by simp
qed

text \<open>
  What the scan has established when it is at \<open>candidate\<close>: every legal size below the
  candidate is at or below the target, and the best of them is \<open>divisorBelow\<close>.
\<close>

definition scanInv :: "(nat \<Rightarrow> bool) \<Rightarrow> nat \<Rightarrow> nat \<Rightarrow> nat \<Rightarrow> bool" where
  "scanInv legal t candidate below \<longleftrightarrow>
     (\<forall>c. legal c \<and> c < candidate \<longrightarrow> c \<le> t \<and> c \<le> below) \<and> (below \<noteq> 0 \<longrightarrow> legal below \<and> below \<le> t)"

definition scanResult :: "(nat \<Rightarrow> bool) \<Rightarrow> nat \<Rightarrow> nat \<Rightarrow> nat \<Rightarrow> bool" where
  "scanResult legal t lo hi \<longleftrightarrow>
     (lo \<noteq> 0 \<longrightarrow> legal lo \<and> lo \<le> t) \<and> (\<forall>c. legal c \<and> c \<le> t \<longrightarrow> c \<le> lo) \<and>
     (hi \<noteq> 0 \<longrightarrow> legal hi \<and> t < hi \<and> (\<forall>c. legal c \<and> t < c \<longrightarrow> hi \<le> c)) \<and>
     (hi = 0 \<longrightarrow> (\<forall>c. legal c \<longrightarrow> c \<le> t))"

lemma scanInv_skip:
  assumes "scanInv legal t cand below" and "\<And>c. legal c \<Longrightarrow> u dvd c" and "u dvd cand"
    and "\<not> legal cand"
  shows "scanInv legal t (cand + u) below"
  using assms dvd_between [of u cand]
  by (auto simp: scanInv_def) (metis add_leD1 linorder_neqE_nat not_le)+

lemma scanInv_take:
  assumes "scanInv legal t cand below" and "\<And>c. legal c \<Longrightarrow> u dvd c" and "u dvd cand"
    and "legal cand" and "cand \<le> t"
  shows "scanInv legal t (cand + u) cand"
  using assms dvd_between [of u cand]
  by (auto simp: scanInv_def) (metis le_trans linorder_neqE_nat nat_less_le not_le)+

lemma divisorScan_spec:
  assumes bounds: "unat cap \<le> 65535" "0 < unat unitBpp" "unat unitBpp \<le> 65535"
  shows "\<lbrakk>unat unitBpp dvd unat candidate; 0 < unat candidate;
          unat cap < unat candidate + (n - 1) * unat unitBpp; 0 < n;
          scanInv (legalPacket frameBytes unitBpp cap) (unat bpp) (unat candidate) (unat below)\<rbrakk>
     \<Longrightarrow> \<exists>lo hi. divisorScan n frameBytes unitBpp cap bpp candidate below = Some (lo, hi) \<and>
           scanResult (legalPacket frameBytes unitBpp cap) (unat bpp) (unat lo) (unat hi)"
proof (induction n arbitrary: candidate below)
  case 0
  then show ?case by simp
next
  case (Suc n)
  let ?legal = "legalPacket frameBytes unitBpp cap"
  have unit_dvd: "\<And>c. ?legal c \<Longrightarrow> unat unitBpp dvd c"
    by (simp add: legalPacket_def)
  show ?case
  proof (cases "candidate > cap")
    case True
    then have "\<And>c. ?legal c \<Longrightarrow> c < unat candidate"
      by (auto simp: legalPacket_def word_less_nat_alt)
    with True Suc.prems(5) show ?thesis
      by (auto simp: scanInv_def scanResult_def)
  next
    case False
    then have cand: "unat candidate \<le> unat cap"
      by (simp add: word_le_nat_alt linorder_not_less)
    have sum: "unat (candidate + unitBpp) = unat candidate + unat unitBpp"
      using cand bounds by (intro word_add_small) auto
    have n: "0 < n"
      using Suc.prems(3) cand by (cases n) auto
    have legal_cand: "?legal (unat candidate) \<longleftrightarrow> frameBytes mod candidate = 0"
      using Suc.prems(1,2) cand by (auto simp: legalPacket_def mod_eq_0_iff_dvd_unat)
    have IH: "\<exists>lo hi. divisorScan n frameBytes unitBpp cap bpp (candidate + unitBpp) below' = Some (lo, hi) \<and>
                scanResult ?legal (unat bpp) (unat lo) (unat hi)"
      if "scanInv ?legal (unat bpp) (unat candidate + unat unitBpp) (unat below')" for below'
      using that Suc.prems(1-3) n by (intro Suc.IH) (cases n; auto simp: sum)+
    show ?thesis
    proof (cases "frameBytes mod candidate = 0")
      case nodiv: False
      then show ?thesis
        using False IH [OF scanInv_skip [OF Suc.prems(5) unit_dvd Suc.prems(1)]]
        by (simp add: legal_cand)
    next
      case True
      show ?thesis
      proof (cases "candidate \<le> bpp")
        case le: True
        then show ?thesis
          using False True IH [OF scanInv_take [OF Suc.prems(5) unit_dvd Suc.prems(1)]]
          by (simp add: legal_cand word_le_nat_alt)
      next
        case gt: False
        then have "scanResult ?legal (unat bpp) (unat below) (unat candidate)"
          using Suc.prems(2,5) True legal_cand
          by (auto simp: scanResult_def scanInv_def word_le_nat_alt not_le)
        with False True gt show ?thesis
          by simp
      qed
    qed
  qed
qed

lemma unat_ULONG: "unat (w :: ULONG) < 4294967296"
  using unsigned_less [of w, where ?'a = nat] by simp

lemma unit_word_bound: "unat (drop_bit 16 (w :: ULONG)) \<le> 65535"
proof -
  have "unat w < 4294967296"
    using unsigned_less [of w] by simp
  then show ?thesis
    by (simp add: drop_bit_eq_div unat_div)
qed

lemma low_word_bound: "unat ((w :: ULONG) AND 0xFFFF) \<le> 65535"
  using word_and_le1 [of w "0xFFFF :: ULONG"] by (simp add: word_le_nat_alt)

lemma capPacket_bounds:
  "capPacket unitBpp maxBpp speedMaxBpp \<le> maxBpp \<and> capPacket unitBpp maxBpp speedMaxBpp \<le> speedMaxBpp"
  using word_div_mult_le [of speedMaxBpp unitBpp] by (auto simp: capPacket_def)

text \<open>
  The largest legal size at or below the target when there is one, otherwise the smallest
  above it.
\<close>

definition bestPacket :: "(nat \<Rightarrow> bool) \<Rightarrow> nat \<Rightarrow> nat \<Rightarrow> bool" where
  "bestPacket legal t p \<longleftrightarrow>
     legal p \<and>
     (if p \<le> t then \<forall>c. legal c \<and> c \<le> t \<longrightarrow> c \<le> p
      else (\<forall>c. legal c \<longrightarrow> t < c) \<and> (\<forall>c. legal c \<longrightarrow> p \<le> c))"

lemma scanResult_best:
  assumes "scanResult legal t lo hi" and "\<not> legal 0"
  shows "lo \<noteq> 0 \<Longrightarrow> bestPacket legal t lo"
    and "lo = 0 \<Longrightarrow> hi \<noteq> 0 \<Longrightarrow> bestPacket legal t hi"
    and "lo = 0 \<Longrightarrow> hi = 0 \<Longrightarrow> \<not> legal c"
proof -
  assume "lo \<noteq> 0"
  then show "bestPacket legal t lo"
    using assms by (simp add: scanResult_def bestPacket_def)
next
  assume lo: "lo = 0" and hi: "hi \<noteq> 0"
  have above: "t < c" if "legal c" for c
  proof (rule ccontr)
    assume "\<not> t < c"
    with that lo assms(1) have "c \<le> 0"
      unfolding scanResult_def by (metis not_le)
    with that assms(2) show False
      by simp
  qed
  with assms(1) hi show "bestPacket legal t hi"
    by (simp add: scanResult_def bestPacket_def not_le)
next
  assume "lo = 0" and "hi = 0"
  with assms show "\<not> legal c"
    unfolding scanResult_def by (metis le_zero_eq)
qed

lemma scan_from_start:
  assumes "unat cap \<le> 65535" and "0 < unat unitBpp" and "unat unitBpp \<le> 65535"
  obtains lo hi where
    "divisorScan scanFuel frameBytes unitBpp cap bpp unitBpp 0 = Some (lo, hi)" and
    "scanResult (legalPacket frameBytes unitBpp cap) (unat bpp) (unat lo) (unat hi)"
proof -
  have "\<not> legalPacket frameBytes unitBpp cap c" if "c < unat unitBpp" for c
    using that by (auto simp: legalPacket_def dest: dvd_imp_le)
  then have inv: "scanInv (legalPacket frameBytes unitBpp cap) (unat bpp) (unat unitBpp) (unat (0::ULONG))"
    by (auto simp: scanInv_def)
  show ?thesis
    using divisorScan_spec [OF assms _ _ _ _ inv, of scanFuel] assms that by auto
qed

text \<open>
  C10: the packet size the Format 7 configuration picks is the best legal one.  It is a positive
  multiple of the camera's unit, within both the advertised maximum and the payload of the bus
  speed, it divides the frame exactly, and among all such sizes it is the largest at or below
  the rate-derived target, or the smallest above it when there is none below.  A failure with
  usable packet parameters means that no legal size exists.
\<close>

theorem choosePacket_optimal:
  fixes frameBytes packetPara speedMaxBpp Interval :: ULONG
  assumes "drop_bit 16 packetPara \<noteq> 0" and "packetPara AND 0xFFFF \<noteq> 0"
  defines "unitBpp \<equiv> drop_bit 16 packetPara"
  defines "cap \<equiv> capPacket unitBpp (packetPara AND 0xFFFF) speedMaxBpp"
  shows "case choosePacket frameBytes packetPara speedMaxBpp Interval of
      Inr bpp \<Rightarrow> bestPacket (legalPacket frameBytes unitBpp cap)
                   (unat (targetPacket frameBytes unitBpp cap Interval)) (unat bpp) \<and>
                 cap \<le> packetPara AND 0xFFFF \<and> cap \<le> speedMaxBpp
    | Inl e \<Rightarrow> e = STATUS_INVALID_PARAMETER \<and> (\<forall>c. \<not> legalPacket frameBytes unitBpp cap c)"
proof (cases "cap = 0")
  case True
  then show ?thesis
    using assms(1,2) unfolding choosePacket_def Let_def
    by (auto simp: unitBpp_def [symmetric] cap_def [symmetric] legalPacket_def)
next
  case False
  let ?t = "targetPacket frameBytes unitBpp cap Interval"
  have "cap \<le> packetPara AND 0xFFFF"
    unfolding cap_def using capPacket_bounds by blast
  then have cap: "unat cap \<le> 65535"
    using low_word_bound [of packetPara] by (simp add: word_le_nat_alt)
  have unit: "0 < unat unitBpp" "unat unitBpp \<le> 65535"
    using assms(1) unit_word_bound [of packetPara] by (simp_all add: unitBpp_def unat_gt_0)
  obtain lo hi where scan:
    "divisorScan scanFuel frameBytes unitBpp cap ?t unitBpp 0 = Some (lo, hi)" and
    res: "scanResult (legalPacket frameBytes unitBpp cap) (unat ?t) (unat lo) (unat hi)"
    by (rule scan_from_start [OF cap unit])
  have "choosePacket frameBytes packetPara speedMaxBpp Interval =
      (if lo \<noteq> 0 then Inr lo else if hi \<noteq> 0 then Inr hi else Inl STATUS_INVALID_PARAMETER)"
    using assms(1,2) False scan unfolding choosePacket_def Let_def
    by (simp add: unitBpp_def [symmetric] cap_def [symmetric])
  moreover have zero: "unat lo = 0 \<longleftrightarrow> lo = 0" "unat hi = 0 \<longleftrightarrow> hi = 0"
    by (simp_all add: unat_eq_0)
  moreover have "\<not> legalPacket frameBytes unitBpp cap 0"
    by (simp add: legalPacket_def)
  note best = scanResult_best [OF res this, unfolded zero]
  ultimately show ?thesis
    using best capPacket_bounds [of unitBpp "packetPara AND 0xFFFF" speedMaxBpp]
    by (simp add: cap_def)
qed

theorem choosePacket_optimal_witness:
  "drop_bit 16 (0x0004000C :: ULONG) \<noteq> 0 \<and> (0x0004000C :: ULONG) AND 0xFFFF \<noteq> 0 \<and>
   (case choosePacket 24 0x0004000C 4096 3750 of
      Inr bpp \<Rightarrow> bestPacket (legalPacket 24 4 12) 8 (unat bpp) \<and> 12 \<le> (12 :: ULONG) \<and> 12 \<le> (4096 :: ULONG)
    | Inl e \<Rightarrow> e = STATUS_INVALID_PARAMETER \<and> (\<forall>c. \<not> legalPacket 24 4 12 c))"
proof -
  have eval: "drop_bit 16 (0x0004000C :: ULONG) = 4" "(0x0004000C :: ULONG) AND 0xFFFF = 12"
    "capPacket 4 12 4096 = 12" "unat (targetPacket 24 4 12 3750) = 8"
    by code_simp+
  show ?thesis
    using choosePacket_optimal [of "0x0004000C" 24 4096 3750] unfolding eval by simp
qed

section \<open>The rate choice\<close>

lemma rateDelta_distance:
  "int (unat (rateDelta Interval rate)) = \<bar>uint (g_DcamRateInterval ! rate) - uint Interval\<bar>"
  by (auto simp: rateDelta_def word_less_def uint_sub_if' not_less word_le_def)

definition rateInv :: "(nat \<Rightarrow> bool) \<Rightarrow> (nat \<Rightarrow> ULONG) \<Rightarrow> nat \<Rightarrow> nat \<times> ULONG \<Rightarrow> bool" where
  "rateInv streams delta n = (\<lambda>(best, bestDelta).
     if best = DCAM_NUM_RATES then \<forall>r<n. \<not> streams r
     else best < n \<and> streams best \<and> bestDelta = delta best \<and>
          (\<forall>r<n. streams r \<longrightarrow> bestDelta \<le> delta r) \<and> (\<forall>r<best. streams r \<longrightarrow> bestDelta < delta r))"

lemma rateInv_step:
  assumes "rateInv (rateStreams f m rateMask P) (rateDelta Interval) n (best, bd)" and "n < 6"
  shows "rateInv (rateStreams f m rateMask P) (rateDelta Interval) (Suc n)
           (selectRateStep f m rateMask Interval P n (best, bd))"
proof (cases "rateStreams f m rateMask P n")
  case False
  with assms show ?thesis
    by (auto simp: selectRateStep_def rateInv_def less_Suc_eq split: if_splits)
next
  case True
  show ?thesis
  proof (cases "best = 6 \<or> rateDelta Interval n < bd")
    case new: True
    have "rateDelta Interval n < rateDelta Interval r" if "r < n" "rateStreams f m rateMask P r" for r
      using assms new that by (auto simp: rateInv_def split: if_splits)
    with True new assms(2) show ?thesis
      by (auto simp: selectRateStep_def rateInv_def less_Suc_eq intro: less_imp_le)
  next
    case old: False
    with True assms show ?thesis
      by (auto simp: selectRateStep_def rateInv_def less_Suc_eq)
  qed
qed

lemma selectRate_fold:
  "n \<le> DCAM_NUM_RATES \<Longrightarrow>
   rateInv (rateStreams f m rateMask P) (rateDelta Interval) n
     (fold (selectRateStep f m rateMask Interval P) [0..<n] (DCAM_NUM_RATES, 0))"
proof (induction n)
  case 0
  then show ?case by (simp add: rateInv_def)
next
  case (Suc n)
  then show ?case
    by (cases "fold (selectRateStep f m rateMask Interval P) [0..<n] (DCAM_NUM_RATES, 0)")
      (simp add: rateInv_step)
qed

text \<open>
  C28: the DCAM rate chosen for a standard mode is streamable (advertised by the camera, present
  in the packet table, its packet within the payload of the bus speed) and no streamable rate is
  closer to the negotiated interval; of several equally close ones it is the slowest.  No rate is
  returned exactly when none is streamable.
\<close>

theorem SelectRate_optimal:
  fixes format mode :: nat and rateMask Interval MaxPayload :: ULONG
  defines "streams \<equiv> rateStreams format mode rateMask MaxPayload"
    and "dist \<equiv> \<lambda>r. \<bar>uint (g_DcamRateInterval ! r) - uint Interval\<bar>"
    and "best \<equiv> PhotonicDcamSelectRate format mode rateMask Interval MaxPayload"
  shows "if best = DCAM_NUM_RATES then \<forall>r. r < DCAM_NUM_RATES \<longrightarrow> \<not> streams r
    else best < DCAM_NUM_RATES \<and> streams best \<and>
      (\<forall>r. r < DCAM_NUM_RATES \<and> streams r \<longrightarrow> dist best < dist r \<or> (dist best = dist r \<and> best \<le> r))"
proof -
  obtain bd where fold:
    "fold (selectRateStep format mode rateMask Interval MaxPayload) [0..<6] (DCAM_NUM_RATES, 0) = (best, bd)"
    unfolding best_def PhotonicDcamSelectRate_def by (metis prod.collapse)
  have inv: "rateInv streams (rateDelta Interval) 6 (best, bd)"
    using selectRate_fold [of 6 format mode rateMask MaxPayload Interval]
    by (simp add: fold streams_def)
  have le: "dist r \<le> dist r' \<longleftrightarrow> rateDelta Interval r \<le> rateDelta Interval r'"
    and lt: "dist r < dist r' \<longleftrightarrow> rateDelta Interval r < rateDelta Interval r'" for r r'
    unfolding dist_def rateDelta_distance [symmetric]
    by (simp_all only: word_le_nat_alt word_less_nat_alt of_nat_le_iff of_nat_less_iff)
  show ?thesis
  proof (cases "best = 6")
    case True
    with inv show ?thesis by (simp add: rateInv_def)
  next
    case False
    have "dist best < dist r \<or> (dist best = dist r \<and> best \<le> r)" if "r < 6" "streams r" for r
    proof (cases "r < best")
      case True
      with inv False that show ?thesis by (auto simp: rateInv_def lt)
    next
      case nlt: False
      with inv False that have "dist best \<le> dist r" by (auto simp: rateInv_def le)
      with nlt show ?thesis by auto
    qed
    with inv False show ?thesis by (simp add: rateInv_def)
  qed
qed

theorem SelectRate_optimal_witness:
  "PhotonicDcamSelectRate 0 5 0x7C000000 400000 2048 = 4 \<and>
   rateStreams 0 5 0x7C000000 2048 4 \<and>
   \<bar>uint (g_DcamRateInterval ! 4) - uint (400000 :: ULONG)\<bar> <
     \<bar>uint (g_DcamRateInterval ! 3) - uint (400000 :: ULONG)\<bar>"
proof -
  have best: "PhotonicDcamSelectRate 0 5 0x7C000000 400000 2048 = 4"
    and streams: "rateStreams 0 5 0x7C000000 2048 3"
    by code_simp+
  show ?thesis
    using SelectRate_optimal [where format = 0 and mode = 5 and rateMask = "0x7C000000"
        and Interval = 400000 and MaxPayload = 2048] best streams
    by (auto dest: spec [of _ 3])
qed

section \<open>The enumerated mode table\<close>

text \<open>
  A standard entry carries the geometry of its slot of the DCAM table and usable rate bounds; a
  Format 7 entry has a nonzero unit grid, default and maximum sizes on the grid within the
  16-bit register fields, and a frame no larger than the cap even at its maximum size.
\<close>

definition std_ok :: "video_mode \<Rightarrow> bool" where
  "std_ok e \<longleftrightarrow>
     Format e < 3 \<and> Mode e < 8 \<and> PixelFormat e \<noteq> PIX_INVALID \<and>
     (PixelFormat e, Width e, Height e) = g_DcamGeometry ! unat (Format e) ! unat (Mode e) \<and>
     DefaultWidth e = Width e \<and> DefaultHeight e = Height e \<and>
     0 < MinFrameInterval e \<and> MinFrameInterval e \<le> MaxFrameInterval e"

definition f7_ok :: "video_mode \<Rightarrow> bool" where
  "f7_ok e \<longleftrightarrow>
     UnitWidth e \<noteq> 0 \<and> UnitHeight e \<noteq> 0 \<and> DefaultWidth e \<noteq> 0 \<and> DefaultHeight e \<noteq> 0 \<and>
     DefaultWidth e \<le> Width e \<and> DefaultHeight e \<le> Height e \<and>
     Width e \<le> 0xFFFF \<and> Height e \<le> 0xFFFF \<and>
     unat (UnitWidth e) dvd unat (Width e) \<and> unat (UnitHeight e) dvd unat (Height e) \<and>
     unat (UnitWidth e) dvd unat (DefaultWidth e) \<and> unat (UnitHeight e) dvd unat (DefaultHeight e) \<and>
     PhotonicDcamCodingBpp (PixelFormat e) \<noteq> 0 \<and>
     unat (Width e) * unat (Height e) * unat (PhotonicDcamCodingBpp (PixelFormat e)) div 8 \<le> 0x10000000"

definition mode_ok :: "video_mode \<Rightarrow> bool" where
  "mode_ok e \<longleftrightarrow> (if IsFormat7 e then f7_ok e else std_ok e)"

lemma drop3_product:
  fixes w h bpp :: ULONG
  assumes "unat w \<le> 65535" and "unat h \<le> 65535" and "unat bpp \<le> 24"
  shows "unat (drop_bit 3 (ucast w * ucast h * ucast bpp :: ULONG64)) = unat w * unat h * unat bpp div 8"
proof -
  have wh: "unat w * unat h \<le> 65535 * 65535"
    using assms(1,2) by (rule mult_le_mono)
  have whb: "unat w * unat h * unat bpp \<le> 65535 * 65535 * 24"
    using wh assms(3) by (rule mult_le_mono)
  have "unat (ucast w :: ULONG64) * unat (ucast h :: ULONG64) < 2 ^ LENGTH(64)"
    unfolding unat_widen using wh by simp
  from this [unfolded unat_mult_lem]
  have 1: "unat (ucast w * ucast h :: ULONG64) = unat w * unat h"
    unfolding unat_widen .
  have "unat (ucast w * ucast h :: ULONG64) * unat (ucast bpp :: ULONG64) < 2 ^ LENGTH(64)"
    unfolding unat_widen 1 using whb by simp
  from this [unfolded unat_mult_lem]
  have 2: "unat (ucast w * ucast h * ucast bpp :: ULONG64) = unat w * unat h * unat bpp"
    unfolding unat_widen 1 .
  show ?thesis
    unfolding drop_bit_eq_div unat_div 2 by simp
qed

lemma CodingBpp_le: "unat (PhotonicDcamCodingBpp c) \<le> 24"
  by (simp add: PhotonicDcamCodingBpp_def)

lemma not_exceedsCap:
  assumes "\<not> exceedsCap w h (PhotonicDcamCodingBpp c)" and "unat w \<le> 65535" and "unat h \<le> 65535"
  shows "unat w * unat h * unat (PhotonicDcamCodingBpp c) div 8 \<le> 0x10000000"
  using assms(1) unfolding exceedsCap_def
  by (simp add: not_less word_le_nat_alt drop3_product [OF assms(2,3) CodingBpp_le])

lemma align_down:
  fixes x u :: ULONG
  shows "unat u dvd unat (x div u * u)" "x div u * u \<le> x"
proof -
  show le: "x div u * u \<le> x" by (rule word_div_mult_le)
  have "unat (x div u) * unat u \<le> unat x"
    by (simp add: unat_div)
  then have "unat (x div u * u) = unat (x div u) * unat u"
    using unat_ULONG [of x] by (subst unat_word_ariths) simp
  then show "unat u dvd unat (x div u * u)" by simp
qed

text \<open>What the geometry of an accepted Format 7 mode satisfies.\<close>

definition geometry_ok :: "f7_geometry \<Rightarrow> bool" where
  "geometry_ok g \<longleftrightarrow>
     gUnitWidth g \<noteq> 0 \<and> gUnitHeight g \<noteq> 0 \<and> gCurWidth g \<noteq> 0 \<and> gCurHeight g \<noteq> 0 \<and>
     gCurWidth g \<le> gMaxWidth g \<and> gCurHeight g \<le> gMaxHeight g \<and>
     gMaxWidth g \<le> 0xFFFF \<and> gMaxHeight g \<le> 0xFFFF \<and>
     unat (gUnitWidth g) dvd unat (gMaxWidth g) \<and> unat (gUnitHeight g) dvd unat (gMaxHeight g) \<and>
     unat (gUnitWidth g) dvd unat (gCurWidth g) \<and> unat (gUnitHeight g) dvd unat (gCurHeight g)"

lemma clampSize_le [simp]: "clampSize x mx \<le> mx"
  by (auto simp: clampSize_def not_less)

lemma clampSize_dvd:
  "unat u dvd unat mx \<Longrightarrow> unat u dvd unat x \<Longrightarrow> unat u dvd unat (clampSize x mx)"
  by (simp add: clampSize_def)

lemma f7Geometry_ok:
  assumes "f7Geometry r = Some g"
  shows "geometry_ok g"
proof -
  let ?mw = "drop_bit 16 (rMaxSize r)" and ?mh = "rMaxSize r AND 0xFFFF"
  obtain uw uh where u: "(uw, uh) =
      (if drop_bit 16 (rUnitSize r) = 0 \<or> rUnitSize r AND 0xFFFF = 0 then (?mw, ?mh)
       else (drop_bit 16 (rUnitSize r), rUnitSize r AND 0xFFFF))"
    by (metis prod.collapse)
  let ?aw = "?mw div uw * uw" and ?ah = "?mh div uh * uh"
  let ?cw = "clampSize (drop_bit 16 (rCurSize r) div uw * uw) ?aw"
  let ?ch = "clampSize ((rCurSize r AND 0xFFFF) div uh * uh) ?ah"
  obtain cw ch where c: "(cw, ch) = (if ?cw = 0 \<or> ?ch = 0 then (?aw, ?ah) else (?cw, ?ch))"
    by (metis prod.collapse)
  have g: "?mw \<noteq> 0" "?mh \<noteq> 0" "?aw \<noteq> 0" "?ah \<noteq> 0" "gMaxWidth g = ?aw" "gMaxHeight g = ?ah"
    "gCurWidth g = cw" "gCurHeight g = ch" "gUnitWidth g = uw" "gUnitHeight g = uh"
    using assms unfolding f7Geometry_def Let_def
    by (auto simp: u [symmetric] c [symmetric] split: if_splits)
  have small: "?mw \<le> 0xFFFF" "?mh \<le> 0xFFFF"
    using unit_word_bound [of "rMaxSize r"] low_word_bound [of "rMaxSize r"]
    by (simp_all add: word_le_nat_alt)
  have "?aw \<le> 0xFFFF" "?ah \<le> 0xFFFF"
    using align_down(2) small order_trans by blast+
  moreover have "uw \<noteq> 0" "uh \<noteq> 0"
    using u g(1,2) by (auto split: if_splits)
  moreover have "cw \<noteq> 0 \<and> ch \<noteq> 0 \<and> cw \<le> ?aw \<and> ch \<le> ?ah \<and> unat uw dvd unat cw \<and> unat uh dvd unat ch"
    using c g(3,4) by (auto intro: clampSize_dvd align_down(1) split: if_splits)
  ultimately show ?thesis
    using align_down(1) by (simp add: geometry_ok_def g)
qed

text \<open>Everything the enumeration maintains of the table: bounded, every entry well formed.\<close>

definition table_ok :: "video_mode list \<Rightarrow> bool" where
  "table_ok ms \<longleftrightarrow> length ms \<le> PHOTONIC_MAX_VIDEO_MODES \<and> list_all mode_ok ms"

lemma table_ok_Nil [simp]: "table_ok []"
  by (simp add: table_ok_def)

lemma table_ok_snoc:
  "table_ok ms \<Longrightarrow> length ms < PHOTONIC_MAX_VIDEO_MODES \<Longrightarrow> mode_ok e \<Longrightarrow> table_ok (ms @ [e])"
  by (simp add: table_ok_def)

lemma table_ok_same: "same_device d d' \<Longrightarrow> table_ok (Modes (fst d')) = table_ok (Modes (fst d))"
  by (simp add: same_device_def same_ext_fields)

lemma f7Entry_ok:
  assumes "geometry_ok g" and "PhotonicDcamCodingBpp (of_nat coding) \<noteq> 0"
    and "\<not> exceedsCap (gMaxWidth g) (gMaxHeight g) (PhotonicDcamCodingBpp (of_nat coding))"
  shows "mode_ok (f7Entry mode base g coding codingBpp)"
  using assms not_exceedsCap [OF assms(3)]
  by (simp add: mode_ok_def f7_ok_def f7Entry_def geometry_ok_def Let_def word_le_nat_alt)

lemma f7Codings_ok:
  assumes "geometry_ok g"
  shows "table_ok ms \<Longrightarrow> table_ok (fst (f7Codings mode base g codingMask cs ms))"
  using assms
  by (induction cs arbitrary: ms) (auto simp: Let_def not_le intro: table_ok_snoc f7Entry_ok)

lemma CsrPointerToOffset_same: "keeps same_device (Photonic1394CsrPointerToOffset p n)"
  by (rule keepsI) (simp add: Photonic1394CsrPointerToOffset_def Let_def)

lemma probe_same: "keeps same_device (probeF7Mode ev mode)"
  unfolding probeF7Mode_def readF7Block_def
  by (intro registers_keep CsrPointerToOffset_same)

lemma f7Modes_ok:
  "table_ok (Modes (fst d)) \<Longrightarrow> table_ok (Modes (fst (f7Modes ev modeMask modes d)))"
proof (induction modes arbitrary: d)
  case Nil
  then show ?case by simp
next
  case (Cons mode rest)
  show ?case
  proof (cases "inqBit modeMask mode")
    case False
    with Cons show ?thesis by simp
  next
    case True
    obtain r x b where p: "probeF7Mode ev mode d = (r, (x, b))"
      by (metis prod.collapse)
    have ok: "table_ok (Modes x)"
      using table_ok_same [OF keepsD [OF probe_same p]] Cons.prems by simp
    show ?thesis
    proof (cases r)
      case (Inl e)
      with True p ok show ?thesis by (simp add: Cons.IH)
    next
      case (Inr br)
      obtain base regs where br: "br = (base, regs)" by fastforce
      show ?thesis
      proof (cases "f7Geometry regs")
        case None
        with True p ok Inr br show ?thesis by (simp add: Cons.IH)
      next
        case (Some g)
        obtain ms full where c:
          "f7Codings mode base g (rCodingMask regs) [0..<32] (Modes x) = (ms, full)"
          by fastforce
        have "table_ok ms"
          using f7Codings_ok [OF f7Geometry_ok [OF Some] ok, of mode base "rCodingMask regs" "[0..<32]"]
          by (simp add: c)
        with True p Inr br Some c show ?thesis by (simp add: Cons.IH)
      qed
    qed
  qed
qed

lemma EnumerateFormat7_ok:
  assumes "table_ok (Modes (fst d))"
  shows "table_ok (Modes (fst (PhotonicDcamEnumerateFormat7 ev d)))"
proof -
  let ?w = "Photonic1394WriteRegister ev DCAM_REG_VIDEO_FORMAT (push_bit DCAM_SELECT_SHIFT (of_nat DCAM_F7_FORMAT))"
  obtain r1 d1 where w: "?w d = (r1, d1)" by (cases "?w d")
  obtain r2 d2 where r: "Photonic1394ReadRegister ev DCAM_REG_VIDEO_MODE_INQ_7 d1 = (r2, d2)"
    by (cases "Photonic1394ReadRegister ev DCAM_REG_VIDEO_MODE_INQ_7 d1")
  have "table_ok (Modes (fst d1))"
    using table_ok_same [OF keepsD [OF WriteRegister_same w]] assms by simp
  moreover from this have "table_ok (Modes (fst d2))"
    using table_ok_same [OF keepsD [OF ReadRegister_same r]] by simp
  ultimately show ?thesis
    using w r by (auto simp: PhotonicDcamEnumerateFormat7_def f7Modes_ok split: sum.splits)
qed

definition boundsInv :: "ULONG \<times> ULONG \<Rightarrow> bool" where
  "boundsInv = (\<lambda>(mn, mx). mn \<le> mx \<and> (mn = 0 \<longleftrightarrow> mx = 0))"

lemma rateBoundsStep_inv:
  assumes "boundsInv p" and "rate < DCAM_NUM_RATES"
  shows "boundsInv (rateBoundsStep rateMask rate p)"
proof -
  have "g_DcamRateInterval ! rate \<noteq> 0"
    using assms(2) by (auto simp: g_DcamRateInterval_def less_Suc_eq nth_Cons split: nat.splits)
  with assms(1) show ?thesis
    by (cases p) (auto simp: boundsInv_def rateBoundsStep_def Let_def)
qed

lemma rateBounds_fold: "n \<le> DCAM_NUM_RATES \<Longrightarrow> boundsInv (fold (rateBoundsStep rateMask) [0..<n] (0, 0))"
  by (induction n) (simp_all add: rateBoundsStep_inv, simp add: boundsInv_def)

lemma RateBounds_ok:
  assumes "PhotonicDcamRateBounds rateMask = (mn, mx)" and "mn \<noteq> 0"
  shows "0 < mn \<and> mn \<le> mx"
  using rateBounds_fold [of 6 rateMask] assms
  by (simp add: PhotonicDcamRateBounds_def boundsInv_def word_neq_0_conv)

lemma stdEntry_ok:
  assumes "format < 3" and "mode < 8" and "g_DcamGeometry ! format ! mode = geom"
    and "fst geom \<noteq> PIX_INVALID" and "0 < mn \<and> mn \<le> mx"
  shows "mode_ok (stdEntry format mode geom rateMask mn mx)"
proof -
  have "(of_nat format :: UCHAR) < 3" "(of_nat mode :: UCHAR) < 8"
    "unat (of_nat format :: UCHAR) = format" "unat (of_nat mode :: UCHAR) = mode"
    using assms(1,2) by (simp_all add: word_less_nat_alt unat_of_nat)
  with assms show ?thesis
    by (cases geom) (simp add: mode_ok_def std_ok_def stdEntry_def)
qed

lemma stdModes_ok:
  assumes "format < 3"
  shows "\<lbrakk>table_ok (Modes (fst d)); \<forall>m \<in> set modes. m < 8\<rbrakk> \<Longrightarrow>
    table_ok (Modes (fst (snd (stdModes ev format modeMask modes d))))"
proof (induction modes arbitrary: d)
  case Nil
  then show ?case by simp
next
  case (Cons mode rest)
  let ?geom = "g_DcamGeometry ! format ! mode"
  show ?case
  proof (cases "\<not> inqBit modeMask mode \<or> fst ?geom = PIX_INVALID")
    case True
    with Cons show ?thesis by (auto simp: Let_def)
  next
    case False
    let ?rd = "Photonic1394ReadRegister ev (DCAM_REG_FRAME_RATE_INQ + of_nat ((format * DCAM_NUM_MODES + mode) * 4))"
    obtain r x b where rd: "?rd d = (r, (x, b))" by (metis prod.collapse)
    have ok: "table_ok (Modes x)"
      using table_ok_same [OF keepsD [OF ReadRegister_same rd]] Cons.prems(1) by simp
    show ?thesis
    proof (cases r)
      case (Inl e)
      with False rd ok show ?thesis by (simp add: Let_def)
    next
      case (Inr rateMask)
      obtain mn mx where bounds: "PhotonicDcamRateBounds rateMask = (mn, mx)" by fastforce
      have "table_ok (Modes x @ [stdEntry format mode ?geom rateMask mn mx])"
        if "mn \<noteq> 0" "length (Modes x) < 48"
        using that ok Cons.prems(2) False RateBounds_ok [OF bounds] assms
        by (intro table_ok_snoc stdEntry_ok) auto
      with False rd ok Inr bounds Cons.prems(2) show ?thesis
        by (simp add: Let_def Cons.IH)
    qed
  qed
qed

lemma stdFormats_ok:
  "\<lbrakk>table_ok (Modes (fst d)); \<forall>f \<in> set formats. f < 3\<rbrakk> \<Longrightarrow>
   table_ok (Modes (fst (snd (stdFormats ev formatMask formats d))))"
proof (induction formats arbitrary: d)
  case Nil
  then show ?case by simp
next
  case (Cons format rest)
  show ?case
  proof (cases "inqBit formatMask format")
    case False
    with Cons show ?thesis by simp
  next
    case True
    let ?rd = "Photonic1394ReadRegister ev (DCAM_REG_VIDEO_MODE_INQ + of_nat (format * 4))"
    obtain r d1 where rd: "?rd d = (r, d1)" by (cases "?rd d")
    have ok: "table_ok (Modes (fst d1))"
      using table_ok_same [OF keepsD [OF ReadRegister_same rd]] Cons.prems(1) by simp
    show ?thesis
    proof (cases r)
      case (Inl e)
      with True rd ok show ?thesis by simp
    next
      case (Inr modeMask)
      obtain r2 d2 where m: "stdModes ev format modeMask [0..<DCAM_NUM_MODES] d1 = (r2, d2)"
        by (cases "stdModes ev format modeMask [0..<DCAM_NUM_MODES] d1")
      have "table_ok (Modes (fst d2))"
        using stdModes_ok [of format d1 "[0..<DCAM_NUM_MODES]" ev modeMask] ok Cons.prems(2)
        by (simp add: m)
      with True rd Inr m Cons show ?thesis
        by (auto split: sum.splits bool.splits)
    qed
  qed
qed

lemma ReadSelection_same: "keeps same_device (PhotonicDcamReadSelection ev)"
  unfolding PhotonicDcamReadSelection_def
  by (rule keepsI) (auto intro!: registers.keeps_andThen [THEN keeps_def [THEN iffD1], rule_format] registers_keep)

lemma NormalizeSelection_same: "same_device d (PhotonicDcamNormalizeSelection ev saved d)"
  unfolding PhotonicDcamNormalizeSelection_def Let_def
  by (auto split: prod.splits intro!: registers.keeps_andThen [THEN keeps_def [THEN iffD1], rule_format] registers_keep)

lemma enumeration_table:
  "case PhotonicDcamEnumerateModes ev d of
     (r, d') \<Rightarrow> table_ok (Modes (fst d')) \<and> (isl r \<or> Modes (fst d') \<noteq> [])"
proof -
  obtain x0 b0 where d: "d = (x0, b0)" by fastforce
  obtain sel d1 where 1: "PhotonicDcamReadSelection ev (x0\<lparr>Modes := []\<rparr>, b0) = (sel, d1)"
    by (cases "PhotonicDcamReadSelection ev (x0\<lparr>Modes := []\<rparr>, b0)")
  have ok1: "table_ok (Modes (fst d1))"
    using table_ok_same [OF keepsD [OF ReadSelection_same 1]] by simp
  let ?rd = "Photonic1394ReadRegister ev DCAM_REG_VIDEO_FORMAT_INQ"
  obtain r2 d2 where 2: "?rd d1 = (r2, d2)" by (cases "?rd d1")
  have ok2: "table_ok (Modes (fst d2))"
    using table_ok_same [OF keepsD [OF ReadRegister_same 2]] ok1 by simp
  show ?thesis
  proof (cases r2)
    case (Inl e)
    with ok2 show ?thesis by (simp add: d PhotonicDcamEnumerateModes_def 1 2)
  next
    case (Inr formatMask)
    obtain r3 d3 where 3: "stdFormats ev formatMask [0..<DCAM_NUM_FORMATS] d2 = (r3, d3)"
      by (cases "stdFormats ev formatMask [0..<DCAM_NUM_FORMATS] d2")
    have ok3: "table_ok (Modes (fst d3))"
      using stdFormats_ok [of d2 "[0..<DCAM_NUM_FORMATS]" ev formatMask] ok2 by (simp add: 3)
    have norm: "Modes (fst (PhotonicDcamNormalizeSelection ev saved d')) = Modes (fst d')" for saved d'
      using NormalizeSelection_same [of d' ev saved] by (simp add: same_device_def same_ext_fields)
    show ?thesis
      using ok3 EnumerateFormat7_ok [OF ok3, of ev] Inr
      by (auto simp: d PhotonicDcamEnumerateModes_def 1 2 3 Let_def norm split: sum.splits)
  qed
qed

text \<open>
  C11: whatever values the camera's inquiry registers hold, enumeration leaves a table of at most
  48 entries in which every standard entry carries the geometry of its DCAM slot with ordered,
  nonzero rate bounds, and every Format 7 entry has a nonzero unit grid, nonzero default size on
  the grid within its maximum, and a frame of at most 256 MB.  It succeeds only with a nonempty
  table.
\<close>

theorem enumerated_table_ok:
  "case PhotonicDcamEnumerateModes ev d of
     (r, d') \<Rightarrow> table_ok (Modes (fst d')) \<and> (isl r \<or> Modes (fst d') \<noteq> [])"
  by (rule enumeration_table)

text \<open>
  A concrete camera: every write is accepted and a read of bus address \<open>a\<close> answers
  \<open>regs a\<close>.
\<close>

definition cam_bus :: "(ULONG \<Rightarrow> ULONG) \<Rightarrow> unit env" where
  "cam_bus regs = \<lparr>envAlloc = (\<lambda>b. (True, b)), envLock = (\<lambda>b. (STATUS_SUCCESS, b)),
     envCall = (\<lambda>i b. (InTime STATUS_SUCCESS
        (case i of ASYNC_READ _ a _ _ _ _ \<Rightarrow> ResBytes (le_bytes (RtlUlongByteSwap (regs a)))
         | _ \<Rightarrow> ResNone), b))\<rparr>"

lemma cam_bus_transfer:
  assumes "HasPdo x" and "\<not> BusResetPending x"
  shows
    "PhotonicAsyncTransfer (cam_bus regs) a (XWrite (le_bytes w)) t (x, ()) = (Inr [], (x, ()))"
    "PhotonicAsyncTransfer (cam_bus regs) a (XRead 4) t (x, ()) =
       (Inr (le_bytes (RtlUlongByteSwap (regs (ucast a)))), (x, ()))"
  using assms
  by (simp_all add: PhotonicAsyncTransfer_def refreshIfPending_def submitRetry_def
      PhotonicSubmitIrbEx_def cam_bus_def xferIrb_def)

lemma cam_bus_register:
  assumes "HasPdo x" and "\<not> BusResetPending x"
  shows
    "Photonic1394WriteRegister (cam_bus regs) off w (x, ()) = (Inr (), (x, ()))"
    "Photonic1394ReadRegister (cam_bus regs) off (x, ()) =
       (Inr (regs (ucast (CsrBaseAddress x + ucast off))), (x, ()))"
  using assms
  by (simp_all add: Photonic1394WriteRegister_def writeQuadlet_def Photonic1394ReadRegister_def
      readQuadlet_def cam_bus_transfer)

text \<open>A camera with format 0, mode 5 (640x480 MONO8) at 7.5 and 30 frames per second.\<close>

definition mono_regs :: "ULONG \<Rightarrow> ULONG" where
  "mono_regs a =
     (if a = 0xF0F00100 then 0x80000000 else if a = 0xF0F00180 then 0x04000000
      else if a = 0xF0F00214 then 0x28000000 else 0)"

definition mono_mode :: video_mode where
  "mono_mode = stdEntry 0 5 (PIX_MONO8, 640, 480) 0x28000000 333333 1333333"

theorem enumerated_table_ok_witness:
  "PhotonicDcamEnumerateModes (cam_bus mono_regs) (ext0, ()) =
     (Inr (), (ext0\<lparr>Modes := [mono_mode]\<rparr>, ())) \<and> table_ok [mono_mode]"
proof -
  have base: "CsrBaseAddress ext0 = 0xFFFFF0F00000"
    by code_simp
  have bounds: "PhotonicDcamRateBounds 0x28000000 = (333333, 1333333)"
    by code_simp
  have ready: "HasPdo (ext0\<lparr>Modes := ms\<rparr>)" "\<not> BusResetPending (ext0\<lparr>Modes := ms\<rparr>)"
    "CsrBaseAddress (ext0\<lparr>Modes := ms\<rparr>) = 0xFFFFF0F00000" for ms
    by (simp_all add: base) (simp_all add: ext0_def)
  have upts: "[0..<8] = [0, 1, 2, 3, 4, 5, 6, 7]" "[0..<3] = [0, 1, 2]"
    by (simp_all add: upt_rec)
  have geom: "g_DcamGeometry ! 0 ! 5 = (PIX_MONO8, 640, 480)"
    by (simp add: g_DcamGeometry_def)
  have run: "PhotonicDcamEnumerateModes (cam_bus mono_regs) (ext0, ()) =
     (Inr (), (ext0\<lparr>Modes := [mono_mode]\<rparr>, ()))"
    by (simp add: PhotonicDcamEnumerateModes_def PhotonicDcamReadSelection_def
        PhotonicDcamNormalizeSelection_def cam_bus_register ready mono_regs_def upts inqBit_def
        drop_bit_eq_div bounds geom mono_mode_def Let_def andThen_def)
  then show ?thesis
    using enumerated_table_ok [of "cam_bus mono_regs" "(ext0, ())"] by simp
qed

end
