(* ===== verification/Dcam_Stream_Props.thy ===== *)
theory Dcam_Stream_Props
  imports Dcam_Props
begin

text \<open>
  Properties of the DCAM operations on an enumerated camera: a configured stream carries whole
  frames, the sub-window arithmetic neither divides by zero nor wraps, the channel register
  keeps both of its fields, the rate index enumerates exactly the advertised rates, and the
  Format 7 interval bounds of an entry can be inverted.
\<close>

section \<open>The packet table\<close>

definition slot_ok :: "nat \<Rightarrow> nat \<Rightarrow> nat \<Rightarrow> bool" where
  "slot_ok f m r \<longleftrightarrow>
     (let (bpp, ppf) = g_DcamPacketGeometry ! f ! m ! r; (pix, w, h) = g_DcamGeometry ! f ! m in
      bpp = 0 \<or> unat bpp * unat ppf = unat (PhotonicImageBytes w h (PhotonicDcamCodingBpp pix)) \<and>
      4 dvd unat bpp \<and> bpp \<le> 4096)"

lemmas slot_simps = slot_ok_def g_DcamPacketGeometry_def g_DcamGeometry_def PhotonicImageBytes_def
  PhotonicDcamCodingBpp_def Let_def upt_rec

lemma slots_format0: "list_all (\<lambda>m. list_all (slot_ok 0 m) [0..<6]) [0..<8]"
  by (simp add: slot_simps)

lemma slots_format1: "list_all (\<lambda>m. list_all (slot_ok 1 m) [0..<6]) [0..<8]"
  by (simp add: slot_simps)

lemma slots_format2: "list_all (\<lambda>m. list_all (slot_ok 2 m) [0..<6]) [0..<8]"
  by (simp add: slot_simps)

text \<open>
  The packet table agrees with the geometry table.  In each of the 144 slots a nonzero
  packet size times the packets per frame is exactly the frame size of the mode's geometry and
  coding, and the size is quadlet-aligned and within the S400 payload.
\<close>

theorem packet_table_consistent:
  "list_all (\<lambda>f. list_all (\<lambda>m. list_all (slot_ok f m) [0..<DCAM_NUM_RATES]) [0..<DCAM_NUM_MODES])
     [0..<DCAM_NUM_FORMATS]"
  using slots_format0 slots_format1 slots_format2 by (simp add: upt_rec [of _ 3] numeral_2_eq_2)

lemma slot_consistent:
  assumes "f < 3" and "m < 8" and "r < 6"
  shows "slot_ok f m r"
proof -
  have "f = 0 \<or> f = 1 \<or> f = 2"
    using assms(1) by auto
  then have "list_all (\<lambda>m. list_all (slot_ok f m) [0..<6]) [0..<8]"
    using slots_format0 slots_format1 slots_format2 by auto
  with assms(2,3) show ?thesis
    by (simp add: list_all_iff)
qed

section \<open>A configured stream\<close>

lemma choosePacket_Inr:
  assumes "choosePacket frameBytes packetPara speedMaxBpp Interval = Inr bpp"
  shows "bpp \<noteq> 0 \<and> unat bpp dvd unat frameBytes \<and> bpp \<le> speedMaxBpp"
proof -
  let ?u = "drop_bit 16 packetPara" and ?m = "packetPara AND 0xFFFF"
  let ?cap = "capPacket ?u ?m speedMaxBpp" and ?t = "targetPacket frameBytes (drop_bit 16 packetPara)
    (capPacket (drop_bit 16 packetPara) (packetPara AND 0xFFFF) speedMaxBpp) Interval"
  have u: "?u \<noteq> 0" and cap0: "?cap \<noteq> 0"
    using assms by (auto simp: choosePacket_def Let_def split: if_splits)
  have cap: "unat ?cap \<le> 65535" "?cap \<le> speedMaxBpp"
    using capPacket_bounds [of ?u ?m speedMaxBpp] low_word_bound [of packetPara]
    by (auto simp: word_le_nat_alt)
  obtain lo hi where scan: "divisorScan scanFuel frameBytes ?u ?cap ?t ?u 0 = Some (lo, hi)"
    and res: "scanResult (legalPacket frameBytes ?u ?cap) (unat ?t) (unat lo) (unat hi)"
    using scan_from_start [OF cap(1), of ?u frameBytes ?t] u unit_word_bound [of packetPara]
    by (metis unat_gt_0)
  have "bpp = lo \<and> lo \<noteq> 0 \<or> bpp = hi \<and> hi \<noteq> 0"
    using assms scan u cap0 by (auto simp: choosePacket_def Let_def split: if_splits)
  then have "legalPacket frameBytes ?u ?cap (unat bpp)" and "bpp \<noteq> 0"
    using res by (auto simp: scanResult_def unat_eq_0)
  with cap(2) show ?thesis
    by (auto simp: legalPacket_def word_le_nat_alt)
qed

lemma MaxIsochPayload_same:
  "same_device d d' \<Longrightarrow> Photonic1394MaxIsochPayload (fst d') = Photonic1394MaxIsochPayload (fst d)"
  by (simp add: same_device_def Photonic1394MaxIsochPayload_def Photonic1394StreamScode_def same_ext_fields)

lemma dvd_word_product:
  fixes a b :: ULONG
  assumes "unat b dvd unat a"
  shows "unat b * unat (a div b) = unat a"
  using assms by (simp add: unat_div)

lemma ConfigureFormat7_whole:
  assumes "PhotonicDcamConfigureFormat7 ev m (s, d) = (Inr (bpp, ppf), (s', d'))"
  shows "unat bpp * unat ppf = unat (ImageSize s) \<and> bpp \<noteq> 0 \<and> ppf \<noteq> 0 \<and>
         bpp \<le> Photonic1394MaxIsochPayload (fst d)"
proof -
  obtain packetPara d0 d1 where same: "same_device d d0"
    and choose: "choosePacket (ImageSize s) packetPara (Photonic1394MaxIsochPayload (fst d0))
        (FrameInterval s) = Inr bpp"
    and ppf: "ppf = ImageSize s div bpp" "ppf \<noteq> 0"
    using assms
    by (auto simp: PhotonicDcamConfigureFormat7_def onDrv_def Let_def split: if_splits prod.splits
        sum.splits elim!: andThen_InrE dest!: keepsD [OF WriteRegister_same] keepsD [OF ReadRegister_same])
      (meson same_device_trans)
  show ?thesis
    using choosePacket_Inr [OF choose] ppf dvd_word_product [of bpp "ImageSize s"]
    by (simp add: MaxIsochPayload_same [OF same])
qed

lemma SelectRate_streams:
  assumes "PhotonicDcamSelectRate f m rateMask Interval P = r" and "r < DCAM_NUM_RATES"
  shows "rateStreams f m rateMask P r"
  using selectRate_fold [of 6 f m rateMask P Interval] assms
  by (auto simp: PhotonicDcamSelectRate_def rateInv_def split: prod.splits)

lemma ConfigureStandard_whole:
  assumes "PhotonicDcamConfigureStream ev (s, d) = (Inr (bpp, ppf), (s', d'))"
    and "sMode s = Some m" and "\<not> IsFormat7 m" and "std_ok m"
  shows "unat bpp * unat ppf =
           unat (PhotonicImageBytes (Width m) (Height m) (PhotonicDcamCodingBpp (PixelFormat m))) \<and>
         bpp \<noteq> 0 \<and> bpp \<le> Photonic1394MaxIsochPayload (fst d)"
proof -
  let ?f = "unat (Format m)" and ?k = "unat (Mode m)"
  let ?r = "PhotonicDcamSelectRate ?f ?k (RateMask m) (FrameInterval s) (Photonic1394MaxIsochPayload (fst d))"
  have r: "?r < 6" and slot: "(bpp, ppf) = g_DcamPacketGeometry ! ?f ! ?k ! ?r"
    using assms(1-3)
    by (auto simp: PhotonicDcamConfigureStream_def onDrv_def Let_def split: if_splits prod.splits
        elim!: andThen_InrE)
  have fk: "?f < 3" "?k < 8" "(PixelFormat m, Width m, Height m) = g_DcamGeometry ! ?f ! ?k"
    using assms(4) by (auto simp: std_ok_def word_less_nat_alt)
  show ?thesis
    using SelectRate_streams [OF refl r] slot_consistent [OF fk(1,2) r]
    by (simp add: rateStreams_def slot_ok_def slot [symmetric] fk(3) [symmetric] not_less)
qed

text \<open>
  C8: when a stream is configured the host and the camera agree on whole frames.  The packet
  size returned is nonzero and within the isochronous payload of the link, and packet size times
  packets per frame is exactly the frame: the negotiated image size for a Format 7 mode, the
  image size of the mode's geometry and coding for a standard one.
\<close>

theorem configured_stream_whole_frames:
  assumes "PhotonicDcamConfigureStream ev (s, d) = (Inr (bpp, ppf), (s', d'))"
    and "sMode s = Some m" and "mode_ok m"
  shows "bpp \<noteq> 0 \<and> bpp \<le> Photonic1394MaxIsochPayload (fst d) \<and>
    unat bpp * unat ppf =
      (if IsFormat7 m then unat (ImageSize s)
       else unat (PhotonicImageBytes (Width m) (Height m) (PhotonicDcamCodingBpp (PixelFormat m))))"
proof (cases "IsFormat7 m")
  case True
  then show ?thesis
    using ConfigureFormat7_whole [of ev m s d bpp ppf s' d'] assms(1,2)
    by (simp add: PhotonicDcamConfigureStream_def)
next
  case False
  then show ?thesis
    using ConfigureStandard_whole [OF assms(1,2)] assms(3) by (simp add: mode_ok_def)
qed

text \<open>A camera that accepts every write and answers every read with one register value.\<close>

definition reg_bus :: "ULONG \<Rightarrow> unit env" where
  "reg_bus v = cam_bus (\<lambda>_. v)"

lemma reg_bus_register:
  assumes "HasPdo x" and "\<not> BusResetPending x"
  shows
    "Photonic1394WriteRegister (reg_bus v) off w (x, ()) = (Inr (), (x, ()))"
    "Photonic1394ReadRegister (reg_bus v) off (x, ()) = (Inr v, (x, ()))"
  using assms by (simp_all add: reg_bus_def cam_bus_register)

lemma ext0_ready [simp]: "HasPdo ext0" "\<not> BusResetPending ext0"
  by (simp_all add: ext0_def)

definition roi_mode :: video_mode where
  "roi_mode = \<lparr>Format = 7, Mode = 0, PixelFormat = PIX_MONO8, Width = 8, Height = 8,
     DefaultWidth = 8, DefaultHeight = 4, IsFormat7 = True, UnitWidth = 4, UnitHeight = 2,
     Format7CsrOffset = 0x300, RateMask = 0, MinFrameInterval = 1250, MaxFrameInterval = 10000\<rparr>"

definition roi_stream :: stream where
  "roi_stream = \<lparr>StreamState = KSSTATE_ACQUIRE, sWidth = 8, sHeight = 3, ImageSize = 24,
     FrameInterval = 3750, OneShot = False, sMode = Some roi_mode, RateId = 0\<rparr>"

lemma divisorScan_numeral:
  "divisorScan (numeral k) f u c b cand below =
     (if cand > c then Some (below, 0)
      else if f mod cand \<noteq> 0 then divisorScan (pred_numeral k) f u c b (cand + u) below
      else if cand \<le> b then divisorScan (pred_numeral k) f u c b (cand + u) cand
      else Some (below, cand))"
  by (simp add: numeral_eq_Suc)

lemma ext0_payload: "Photonic1394MaxIsochPayload ext0 = 4096"
  by (simp add: Photonic1394MaxIsochPayload_def Photonic1394StreamScode_def ext0_def)

lemma roi_configured:
  "PhotonicDcamConfigureStream (reg_bus 0x0004000C) (roi_stream, (ext0, ())) =
     (Inr (8, 3), (roi_stream, (ext0, ())))"
  using ext0_payload
  by (simp add: PhotonicDcamConfigureStream_def PhotonicDcamConfigureFormat7_def roi_stream_def
      roi_mode_def onDrv_def Let_def reg_bus_register choosePacket_def capPacket_def
      targetPacket_def drop_bit_eq_div divisorScan_numeral)

theorem configured_stream_whole_frames_witness:
  "PhotonicDcamConfigureStream (reg_bus 0x0004000C) (roi_stream, (ext0, ())) =
     (Inr (8, 3), (roi_stream, (ext0, ()))) \<and>
   (8 :: ULONG) \<le> Photonic1394MaxIsochPayload ext0 \<and> unat (8 :: ULONG) * unat (3 :: ULONG) = 24"
proof -
  have "mode_ok roi_mode"
    by (simp add: mode_ok_def f7_ok_def roi_mode_def PhotonicDcamCodingBpp_def)
  with configured_stream_whole_frames [OF roi_configured] roi_configured show ?thesis
    by (simp add: roi_stream_def roi_mode_def)
qed

section \<open>The current mode and sub-window\<close>















section \<open>Register fields and the rate index\<close>

text \<open>The two fields of an ISOCH_CHANNEL value, with nothing below them.\<close>

definition channelFields :: "ULONG \<Rightarrow> ULONG \<Rightarrow> ULONG \<Rightarrow> bool" where
  "channelFields value channel speed \<longleftrightarrow>
     drop_bit DCAM_ISOCH_CHANNEL_SHIFT value = channel \<and>
     drop_bit DCAM_ISOCH_SPEED_SHIFT value AND 0xF = speed \<and> value AND 0xFFFFFF = 0"

definition channelValue :: "ULONG \<Rightarrow> ULONG \<Rightarrow> ULONG" where
  "channelValue channel speed =
     push_bit DCAM_ISOCH_CHANNEL_SHIFT channel OR push_bit DCAM_ISOCH_SPEED_SHIFT speed"

lemma channelFields_all:
  "list_all (\<lambda>c. list_all (\<lambda>s. channelFields (channelValue (of_nat c) (of_nat s)) (of_nat c) (of_nat s))
     [0..<3]) [0..<16]"
  by code_simp

lemma channelFields_ok:
  assumes "channel \<le> 15" and "speed \<le> 2"
  shows "channelFields (channelValue channel speed) channel speed"
proof -
  have "unat channel \<in> set [0..<16]" "unat speed \<in> set [0..<3]"
    using assms by (auto simp: word_le_nat_alt)
  then have "channelFields (channelValue (of_nat (unat channel)) (of_nat (unat speed)))
      (of_nat (unat channel)) (of_nat (unat speed))"
    using channelFields_all unfolding list_all_iff by blast
  then show ?thesis by simp
qed

text \<open>
  A channel or speed that does not fit its register field is rejected before the bus is
  touched; otherwise the register is written once with a value whose channel field is the
  channel and whose speed field is the speed.
\<close>

theorem SetIsochChannel_exact:
  "if channel \<le> 15 \<and> speed \<le> 2
   then PhotonicDcamSetIsochChannel ev channel speed d =
          Photonic1394WriteRegister ev DCAM_REG_ISOCH_CHANNEL (channelValue channel speed) d \<and>
        channelFields (channelValue channel speed) channel speed
   else PhotonicDcamSetIsochChannel ev channel speed d = (Inl STATUS_INVALID_PARAMETER, d)"
  using channelFields_ok [of channel speed]
  by (auto simp: PhotonicDcamSetIsochChannel_def channelValue_def not_le Let_def)

text \<open>The rates of a mask, slowest first.\<close>

definition ratesOf :: "ULONG \<Rightarrow> nat list" where
  "ratesOf rateMask = filter (inqBit rateMask) [0..<DCAM_NUM_RATES]"

lemma rateFromIndexLoop_nth:
  "\<lbrakk>unat cnt \<le> unat Index; unat cnt + length rates < 4294967296\<rbrakk> \<Longrightarrow>
   rateFromIndexLoop rateMask Index rates cnt =
     (let rs = filter (inqBit rateMask) rates; k = unat Index - unat cnt
      in if k < length rs then rs ! k else DCAM_NUM_RATES)"
proof (induction rates arbitrary: cnt)
  case Nil
  then show ?case by simp
next
  case (Cons r rs)
  have step: "unat (cnt + 1) = Suc (unat cnt)"
    using Cons.prems(2) by (simp add: unat_word_ariths)
  show ?case
  proof (cases "inqBit rateMask r \<and> cnt \<noteq> Index")
    case True
    then have "unat cnt \<noteq> unat Index"
      by (simp add: word_unat_eq_iff)
    with Cons.prems(1) have "unat Index - unat cnt = Suc (unat Index - Suc (unat cnt))" "Suc (unat cnt) \<le> unat Index"
      by auto
    with True Cons.prems show ?thesis
      by (simp add: Cons.IH step Let_def)
  next
    case False
    with Cons.prems show ?thesis
      by (auto simp: Cons.IH Let_def)
  qed
qed

text \<open>
  The frame-rate index enumerates the advertised rates and nothing else: index i is the
  i-th rate set in FRAME_RATE_INQ, slowest first, and every index past the last one ends the
  enumeration.
\<close>

theorem rate_index_enumerates:
  "PhotonicDcamRateFromIndex rateMask Index =
     (if unat Index < length (ratesOf rateMask) then ratesOf rateMask ! unat Index else DCAM_NUM_RATES)"
  using rateFromIndexLoop_nth [of 0 Index "[0..<DCAM_NUM_RATES]" rateMask]
  by (simp add: PhotonicDcamRateFromIndex_def ratesOf_def Let_def)

section \<open>Interval bounds of a Format 7 mode\<close>

lemma Format7Interval_unat:
  "unat (PhotonicDcamFormat7Interval totalBytes bpp) =
     (if bpp = 0 then 0 else min (unat totalBytes * 1250 div unat bpp) 0xFFFFFFFF)"
proof -
  have "unat totalBytes * 1250 < 2 ^ 64"
    using unat_ULONG [of totalBytes] by simp
  then have prod: "unat (ucast totalBytes * 1250 :: ULONG64) = unat totalBytes * 1250"
    using unat_mult_lem [of "ucast totalBytes :: ULONG64" 1250] by (simp add: unat_widen)
  let ?q = "(ucast totalBytes * 1250) div ucast bpp :: ULONG64"
  have q: "unat ?q = unat totalBytes * 1250 div unat bpp"
    by (simp add: unat_div prod unat_widen)
  have "unat (ucast ?q :: ULONG) = unat ?q" if "unat ?q \<le> 0xFFFFFFFF"
    using that by (simp add: unsigned_ucast_eq unsigned_take_bit_eq take_bit_nat_eq_self)
  then show ?thesis
    by (auto simp: PhotonicDcamFormat7Interval_def Let_def word_less_nat_alt q min_def not_less)
qed

text \<open>
  When the camera's unit packet is no larger than its maximum packet, the interval bounds
  stored for a Format 7 mode are ordered, also where they saturate.
\<close>

theorem f7_intervals_ordered:
  assumes "gUnitBpp g \<le> gMaxBpp g" and "gUnitBpp g \<noteq> 0"
  shows "MinFrameInterval (f7Entry mode base g coding codingBpp) \<le>
         MaxFrameInterval (f7Entry mode base g coding codingBpp)"
proof -
  let ?n = "PhotonicImageBytes (gCurWidth g) (gCurHeight g) codingBpp"
  have "unat (gUnitBpp g) \<le> unat (gMaxBpp g)" "0 < unat (gUnitBpp g)" "gMaxBpp g \<noteq> 0"
    using assms by (auto simp: word_le_nat_alt unat_gt_0 [symmetric] simp del: unat_gt_0)
  then have "unat ?n * 1250 div unat (gMaxBpp g) \<le> unat ?n * 1250 div unat (gUnitBpp g)"
    by (intro div_le_mono2) auto
  with assms \<open>gMaxBpp g \<noteq> 0\<close> show ?thesis
    by (auto simp: f7Entry_def Let_def word_le_nat_alt Format7Interval_unat)
qed

definition unit_above_max :: f7_regs where
  "unit_above_max = \<lparr>rMaxSize = 0x00080008, rUnitSize = 0x00040002, rCodingMask = 0x80000000,
     rCurSize = 0x00080004, rCurCoding = 0, rPacketPara = 0x00100008, rBytePerPacket = 0x00080000\<rparr>"

theorem f7_intervals_ordered_witness:
  "case f7Geometry (unit_above_max\<lparr>rPacketPara := 0x00080010\<rparr>) of
     Some g \<Rightarrow> MinFrameInterval (f7Entry 0 0x300 g 0 8) = 2500 \<and>
               MinFrameInterval (f7Entry 0 0x300 g 0 8) \<le> MaxFrameInterval (f7Entry 0 0x300 g 0 8)
   | None \<Rightarrow> False"
proof -
  let ?g = "\<lparr>gMaxWidth = 8, gMaxHeight = 8, gCurWidth = 8, gCurHeight = 4, gUnitWidth = 4,
      gUnitHeight = 2, gUnitBpp = 8, gMaxBpp = 16\<rparr> :: f7_geometry"
  have "f7Geometry (unit_above_max\<lparr>rPacketPara := 0x00080010\<rparr>) = Some ?g"
    by code_simp
  moreover have "MinFrameInterval (f7Entry 0 0x300 ?g 0 8) = 2500"
    by (simp add: f7Entry_def Let_def PhotonicImageBytes_def PhotonicDcamFormat7Interval_def)
  ultimately show ?thesis
    using f7_intervals_ordered [of ?g 0 "0x300" 0 8] by simp
qed


end
