(* ===== verification/Capture_Pool.thy ===== *)
theory Capture_Pool
  imports Bus1394
begin

text \<open>
  photonic/capture.h and photonic/capture/pool.c: the data of the capture engine and its frame
  descriptor pool.  A descriptor is named by its index in Frames[]; the two lists that partition
  the pool are lists of indices.  The pool routines allocate and free the per-descriptor IRPs
  and partial MDLs, derive the chunk geometry of a session, and scan for quarantined frames.
\<close>

section \<open>The engine's data\<close>

abbreviation (input) PHOTONIC_CAPTURE_FRAME_COUNT :: nat where "PHOTONIC_CAPTURE_FRAME_COUNT \<equiv> 4"
abbreviation (input) PHOTONIC_CAPTURE_MAX_CHUNK_BYTES :: ULONG64
  where "PHOTONIC_CAPTURE_MAX_CHUNK_BYTES \<equiv> 0x100000"
abbreviation (input) PHOTONIC_CAPTURE_MAX_CHUNKS :: nat where "PHOTONIC_CAPTURE_MAX_CHUNKS \<equiv> 8"
abbreviation (input) PAGE_SIZE :: ULONG64 where "PAGE_SIZE \<equiv> 0x1000"

datatype frame_state =
    PhotonicFrameFree
  | PhotonicFrameAttaching
  | PhotonicFrameCompletedWhileAttaching
  | PhotonicFramePending
  | PhotonicFrameDetaching
  | PhotonicFrameDetachFailed

text \<open>
  A consumer buffer: its locked MDL, reduced to its identity and byte count.  A partial MDL is a
  window (offset, length) into it.
\<close>

record mdl =
  mdlBuffer :: nat
  mdlByteCount :: ULONG

record isoch_descriptor =
  isoMdl :: mdl
  isoOffset :: ULONG
  ulLength :: ULONG
  nMaxBytesPerFrame :: ULONG
  synchOnSy :: bool
  ulSynch :: ULONG
  hasCallback :: bool
  isoStatus :: NTSTATUS

text \<open>\<open>Irp\<close> and the entries of \<open>ChunkMdls\<close> say whether the object is allocated.\<close>

record capture_frame =
  Isoch :: "isoch_descriptor list"
  Cookie :: nat
  State :: frame_state
  Irp :: bool
  ChunkMdls :: "bool list"
  CompletionStatus :: NTSTATUS

record capture =
  PumpActive :: bool
  PumpAgain :: bool
  FrameBytes :: ULONG
  BytesPerPacket :: ULONG
  PacketsPerFrame :: ULONG
  ChunkBytes :: ULONG
  ChunkCount :: ULONG
  BandwidthHandle :: nat
  ResourceHandle :: nat
  Channel :: ULONG
  ChannelAllocated :: bool
  BandwidthAllocated :: bool
  ResourceAllocated :: bool
  Listening :: bool
  IsoEnabled :: bool
  EnableWanted :: bool
  ControlRetries :: ULONG
  FirstAttachDone :: bool
  CancelPending :: bool
  Frames :: "nat \<Rightarrow> capture_frame"
  FreeList :: "nat list"
  PendingList :: "nat list"
  Draining :: bool
  InFlightIrps :: int
  DrainDone :: bool

definition frameIndices :: "nat list" where
  "frameIndices = [0..<PHOTONIC_CAPTURE_FRAME_COUNT]"

lemma frameIndices_eq: "frameIndices = [0, 1, 2, 3]"
  by (simp add: frameIndices_def upt_rec)

lemma set_frameIndices [simp]: "set frameIndices = {0..<4}"
  by (auto simp: frameIndices_def)

definition updFrame :: "nat \<Rightarrow> (capture_frame \<Rightarrow> capture_frame) \<Rightarrow> capture \<Rightarrow> capture" where
  "updFrame d f c = c\<lparr>Frames := (Frames c)(d := f (Frames c d))\<rparr>"

section \<open>The descriptor pool\<close>

definition zeroFrame :: capture_frame where
  "zeroFrame = \<lparr>Isoch = [], Cookie = 0, State = PhotonicFrameFree, Irp = False,
     ChunkMdls = replicate PHOTONIC_CAPTURE_MAX_CHUNKS False, CompletionStatus = STATUS_SUCCESS\<rparr>"

text \<open>The zeroed engine block with its lists and events initialized and Draining set.\<close>

definition newCapture :: capture where
  "newCapture = \<lparr>PumpActive = False, PumpAgain = False, FrameBytes = 0, BytesPerPacket = 0,
     PacketsPerFrame = 0, ChunkBytes = 0, ChunkCount = 0, BandwidthHandle = 0, ResourceHandle = 0,
     Channel = 0, ChannelAllocated = False, BandwidthAllocated = False, ResourceAllocated = False,
     Listening = False, IsoEnabled = False, EnableWanted = False, ControlRetries = 0,
     FirstAttachDone = False, CancelPending = False, Frames = (\<lambda>_. zeroFrame), FreeList = [],
     PendingList = [], Draining = True, InFlightIrps = 0, DrainDone = False\<rparr>"

definition PhotonicCapturePoolFree :: "capture \<Rightarrow> capture" where
  "PhotonicCapturePoolFree c = fold (\<lambda>i. updFrame i (\<lambda>f. f\<lparr>Irp := False\<rparr>)) frameIndices c"

fun poolAllocate :: "'b env \<Rightarrow> nat list \<Rightarrow> capture \<Rightarrow> 'b \<Rightarrow> (NTSTATUS \<times> capture) \<times> 'b" where
  "poolAllocate ev [] c b = ((STATUS_SUCCESS, c), b)"
| "poolAllocate ev (i # is) c b =
     (let c1 = updFrame i (\<lambda>f. f\<lparr>Cookie := 0, State := PhotonicFrameFree,
                                 CompletionStatus := STATUS_SUCCESS\<rparr>) c
      in case envAlloc ev b of
           (False, b') \<Rightarrow> ((STATUS_INSUFFICIENT_RESOURCES, c1), b')
         | (True, b') \<Rightarrow>
             poolAllocate ev is ((updFrame i (\<lambda>f. f\<lparr>Irp := True\<rparr>) c1)\<lparr>FreeList := FreeList c1 @ [i]\<rparr>) b')"

definition PhotonicCapturePoolAllocate :: "'b env \<Rightarrow> capture \<Rightarrow> 'b \<Rightarrow> (NTSTATUS \<times> capture) \<times> 'b" where
  "PhotonicCapturePoolAllocate ev = poolAllocate ev frameIndices"

definition PhotonicCapturePoolFreeChunkMdls :: "capture \<Rightarrow> capture" where
  "PhotonicCapturePoolFreeChunkMdls c =
     fold (\<lambda>i. updFrame i (\<lambda>f. f\<lparr>ChunkMdls := replicate PHOTONIC_CAPTURE_MAX_CHUNKS False\<rparr>))
       frameIndices c"

section \<open>Chunk geometry\<close>

text \<open>
  The limit one buffer may have: the reported one less a page of headroom, or the fallback when
  the query failed.
\<close>

definition bufferLimit :: "ULONG64 \<Rightarrow> ULONG64" where
  "bufferLimit maxDma =
     (if maxDma = 0 then PHOTONIC_CAPTURE_MAX_CHUNK_BYTES
      else if maxDma > PAGE_SIZE then maxDma - PAGE_SIZE else maxDma)"

text \<open>(ChunkBytes, ChunkCount) of a session.\<close>

definition chunkGeometry :: "ULONG64 \<Rightarrow> ULONG \<Rightarrow> ULONG \<Rightarrow> NTSTATUS + (ULONG \<times> ULONG)" where
  "chunkGeometry maxDma frameBytes bytesPerPacket =
     (let maxBufferBytes = bufferLimit maxDma in
      if ucast frameBytes > maxBufferBytes then
        (let chunkBytes = ucast maxBufferBytes div bytesPerPacket * bytesPerPacket in
         if chunkBytes = 0 then Inl STATUS_INVALID_PARAMETER
         else let chunkCount = (frameBytes + chunkBytes - 1) div chunkBytes in
           if chunkCount > of_nat PHOTONIC_CAPTURE_MAX_CHUNKS then Inl STATUS_INVALID_PARAMETER
           else Inr (chunkBytes, chunkCount))
      else Inr (frameBytes, 1))"

text \<open>The allocation of the partial MDLs, one per descriptor and chunk.\<close>

fun allocChunks :: "'b env \<Rightarrow> nat \<Rightarrow> nat list \<Rightarrow> capture \<Rightarrow> 'b \<Rightarrow> (bool \<times> capture) \<times> 'b" where
  "allocChunks ev i [] c b = ((True, c), b)"
| "allocChunks ev i (chunk # cs) c b =
     (case envAlloc ev b of
        (False, b') \<Rightarrow> ((False, c), b')
      | (True, b') \<Rightarrow>
          allocChunks ev i cs (updFrame i (\<lambda>f. f\<lparr>ChunkMdls := (ChunkMdls f)[chunk := True]\<rparr>) c) b')"

fun allocFrames :: "'b env \<Rightarrow> nat \<Rightarrow> nat list \<Rightarrow> capture \<Rightarrow> 'b \<Rightarrow> (bool \<times> capture) \<times> 'b" where
  "allocFrames ev n [] c b = ((True, c), b)"
| "allocFrames ev n (i # is) c b =
     (case allocChunks ev i [0..<n] c b of
        ((False, c'), b') \<Rightarrow> ((False, c'), b')
      | ((True, c'), b') \<Rightarrow> allocFrames ev n is c' b')"

definition PhotonicCapturePoolSetupChunks ::
  "'b env \<Rightarrow> ULONG64 \<Rightarrow> capture \<Rightarrow> 'b \<Rightarrow> (NTSTATUS \<times> capture) \<times> 'b" where
  "PhotonicCapturePoolSetupChunks ev maxDma c b =
     (case chunkGeometry maxDma (FrameBytes c) (BytesPerPacket c) of
        Inl e \<Rightarrow> ((e, c), b)
      | Inr (chunkBytes, chunkCount) \<Rightarrow>
          let c1 = PhotonicCapturePoolFreeChunkMdls (c\<lparr>ChunkBytes := chunkBytes, ChunkCount := chunkCount\<rparr>)
          in if chunkCount > 1 then
               (case allocFrames ev (unat chunkCount) frameIndices c1 b of
                  ((True, c2), b') \<Rightarrow> ((STATUS_SUCCESS, c2), b')
                | ((False, c2), b') \<Rightarrow>
                    ((STATUS_INSUFFICIENT_RESOURCES, PhotonicCapturePoolFreeChunkMdls c2), b'))
             else ((STATUS_SUCCESS, c1), b))"

section \<open>Quarantine scans\<close>

definition PhotonicCaptureHasQuarantinedFrames :: "capture \<Rightarrow> bool" where
  "PhotonicCaptureHasQuarantinedFrames c \<longleftrightarrow>
     (\<exists>i \<in> set frameIndices. State (Frames c i) = PhotonicFrameDetachFailed)"

definition PhotonicCaptureCookieQuarantined :: "capture \<Rightarrow> nat \<Rightarrow> bool" where
  "PhotonicCaptureCookieQuarantined c cookie \<longleftrightarrow>
     (\<exists>i \<in> set frameIndices. State (Frames c i) = PhotonicFrameDetachFailed \<and> Cookie (Frames c i) = cookie)"

section \<open>Priming a descriptor\<close>

text \<open>
  PhotonicCapturePumpPrime: the ISOCH_DESCRIPTOR chain of a fresh frame.  The loop runs over the
  chunks with the running offset; a single-chunk frame uses the consumer's MDL itself, a chunk of
  several a partial MDL at the offset.
\<close>

fun primeChunks :: "capture \<Rightarrow> mdl \<Rightarrow> nat \<Rightarrow> nat \<Rightarrow> ULONG \<Rightarrow> isoch_descriptor list" where
  "primeChunks c m chunk 0 offset = []"
| "primeChunks c m chunk (Suc n) offset =
     (let length0 = FrameBytes c - offset;
          length1 = (if length0 > ChunkBytes c then ChunkBytes c else length0)
      in \<lparr>isoMdl = m, isoOffset = (if ChunkCount c > 1 then offset else 0), ulLength = length1,
          nMaxBytesPerFrame = BytesPerPacket c, synchOnSy = (chunk = 0),
          ulSynch = (if chunk = 0 then 1 else 0), hasCallback = (n = 0),
          isoStatus = STATUS_SUCCESS\<rparr>
         # primeChunks c m (Suc chunk) n (offset + length1))"

definition PhotonicCapturePumpPrime :: "nat \<Rightarrow> nat \<Rightarrow> mdl \<Rightarrow> capture \<Rightarrow> capture" where
  "PhotonicCapturePumpPrime d cookie m c =
     updFrame d (\<lambda>f. f\<lparr>Isoch := primeChunks c m 0 (unat (ChunkCount c)) 0, Cookie := cookie,
                       CompletionStatus := STATUS_SUCCESS\<rparr>) c"

end
