(* ===== verification/Capture_Resource.thy ===== *)
theory Capture_Resource
  imports Capture_Pool Dcam_Stream
begin

text \<open>
  photonic/capture/resource.c: the isochronous channel, bandwidth and resource handle of a
  session.  Each routine is a computation on the engine, the extension and the bus; the flags of
  the engine record what has been taken.
\<close>

type_synonym 'b eng = "capture \<times> 'b drv"

abbreviation (input) ISOCH_ANY_CHANNEL :: ULONG where "ISOCH_ANY_CHANNEL \<equiv> 0xFFFFFFFF"
abbreviation (input) RESOURCE_USED_IN_LISTENING :: ULONG where "RESOURCE_USED_IN_LISTENING \<equiv> 0x1"
abbreviation (input) RESOURCE_STRIP_ADDITIONAL_QUADLETS :: ULONG
  where "RESOURCE_STRIP_ADDITIONAL_QUADLETS \<equiv> 0x8"
abbreviation (input) RESOURCE_USE_PACKET_BASED :: ULONG where "RESOURCE_USE_PACKET_BASED \<equiv> 0x40"
abbreviation (input) HOST_INFO_SUPPORTS_ISOCH_STRIPPING :: ULONG
  where "HOST_INFO_SUPPORTS_ISOCH_STRIPPING \<equiv> 0x4"
abbreviation (input) HOST_INFO_SUPPORTS_RETURNING_ISO_HDR :: ULONG
  where "HOST_INFO_SUPPORTS_RETURNING_ISO_HDR \<equiv> 0x10"
abbreviation (input) HOST_INFO_STREAM_BASED :: ULONG where "HOST_INFO_STREAM_BASED \<equiv> 0x2"

section \<open>Allocation\<close>

definition PhotonicCaptureResourceAllocateChannel :: "'b env \<Rightarrow> 'b eng \<Rightarrow> NTSTATUS \<times> 'b eng" where
  "PhotonicCaptureResourceAllocateChannel ev = (\<lambda>(c, d).
     case submit ev (ISOCH_ALLOCATE_CHANNEL ISOCH_ANY_CHANNEL) d of ((status, r), d') \<Rightarrow>
       (status,
         (if NT_SUCCESS status
          then c\<lparr>Channel := (case r of ResChannel ch \<Rightarrow> ch | _ \<Rightarrow> 0), ChannelAllocated := True\<rparr>
          else c, d')))"

definition PhotonicCaptureResourceAllocateBandwidth ::
  "'b env \<Rightarrow> ULONG \<Rightarrow> 'b eng \<Rightarrow> NTSTATUS \<times> 'b eng" where
  "PhotonicCaptureResourceAllocateBandwidth ev SpeedFlags = (\<lambda>(c, d).
     case submit ev (ISOCH_ALLOCATE_BANDWIDTH (BytesPerPacket c) SpeedFlags) d of ((status, r), d') \<Rightarrow>
       (status,
         (if NT_SUCCESS status
          then c\<lparr>BandwidthHandle := (case r of ResHandle h \<Rightarrow> h | _ \<Rightarrow> 0), BandwidthAllocated := True\<rparr>
          else c, d')))"

definition resourceRequest :: "ULONG \<Rightarrow> ULONG \<Rightarrow> capture \<Rightarrow> resource_request" where
  "resourceRequest hostCaps SpeedFlags c =
     (let strip = hostCaps AND (HOST_INFO_SUPPORTS_ISOCH_STRIPPING OR HOST_INFO_SUPPORTS_RETURNING_ISO_HDR) \<noteq> 0;
          flags1 = (if strip then RESOURCE_USED_IN_LISTENING OR RESOURCE_STRIP_ADDITIONAL_QUADLETS
                    else RESOURCE_USED_IN_LISTENING);
          flags2 = (if hostCaps AND HOST_INFO_STREAM_BASED = 0
                    then flags1 OR RESOURCE_USE_PACKET_BASED else flags1)
      in \<lparr>rqSpeed = SpeedFlags, rqFlags = flags2, rqChannel = Channel c,
          rqMaxBytesPerFrame = BytesPerPacket c,
          rqNumberOfBuffers = (of_nat PHOTONIC_CAPTURE_FRAME_COUNT + 1) * ChunkCount c,
          rqMaxBufferSize = ChunkBytes c, rqQuadletsToStrip = (if strip then 1 else 0)\<rparr>)"

definition PhotonicCaptureResourceAllocateHandle ::
  "'b env \<Rightarrow> ULONG \<Rightarrow> 'b eng \<Rightarrow> NTSTATUS \<times> 'b eng" where
  "PhotonicCaptureResourceAllocateHandle ev SpeedFlags = (\<lambda>(c, d).
     case submit ev (ISOCH_ALLOCATE_RESOURCES (resourceRequest (HostCapabilities (fst d)) SpeedFlags c)) d
     of ((status, r), d') \<Rightarrow>
       (status,
         (if NT_SUCCESS status
          then c\<lparr>ResourceHandle := (case r of ResHandle h \<Rightarrow> h | _ \<Rightarrow> 0), ResourceAllocated := True\<rparr>
          else c, d')))"

section \<open>Release\<close>

text \<open>The status of the stop is not looked at; Listening is cleared in any case.\<close>

definition PhotonicCaptureResourceIsochStop :: "'b env \<Rightarrow> 'b eng \<Rightarrow> 'b eng" where
  "PhotonicCaptureResourceIsochStop ev = (\<lambda>(c, d).
     case submit ev (ISOCH_STOP (ResourceHandle c)) d of (_, d') \<Rightarrow> (c\<lparr>Listening := False\<rparr>, d'))"

text \<open>(the flag may be cleared, the status of the free).\<close>

definition PhotonicCaptureResourceFreeOne :: "'b env \<Rightarrow> irb \<Rightarrow> 'b drv \<Rightarrow> (bool \<times> NTSTATUS) \<times> 'b drv" where
  "PhotonicCaptureResourceFreeOne ev i = (\<lambda>(x, b).
     case PhotonicSubmitIrbTracked ev x i b of ((status, submitted), b') \<Rightarrow> ((submitted, status), (x, b')))"

definition freeHandle :: "'b env \<Rightarrow> 'b eng \<Rightarrow> bool \<times> 'b eng" where
  "freeHandle ev = (\<lambda>(c, d).
     if ResourceAllocated c then
       (case PhotonicCaptureResourceFreeOne ev (ISOCH_FREE_RESOURCES (ResourceHandle c)) d of
          ((True, status), d') \<Rightarrow> (NT_SUCCESS status, (c\<lparr>ResourceAllocated := False\<rparr>, d'))
        | ((False, _), d') \<Rightarrow> (False, (c, d')))
     else (False, (c, d)))"

definition freeBandwidth :: "'b env \<Rightarrow> 'b eng \<Rightarrow> 'b eng" where
  "freeBandwidth ev = (\<lambda>(c, d).
     if BandwidthAllocated c then
       (case PhotonicCaptureResourceFreeOne ev (ISOCH_FREE_BANDWIDTH (BandwidthHandle c)) d of
          ((True, _), d') \<Rightarrow> (c\<lparr>BandwidthAllocated := False\<rparr>, d')
        | ((False, _), d') \<Rightarrow> (c, d'))
     else (c, d))"

definition freeChannel :: "'b env \<Rightarrow> 'b eng \<Rightarrow> 'b eng" where
  "freeChannel ev = (\<lambda>(c, d).
     if ChannelAllocated c then
       (case PhotonicCaptureResourceFreeOne ev (ISOCH_FREE_CHANNEL (Channel c)) d of
          ((True, _), d') \<Rightarrow> (c\<lparr>ChannelAllocated := False\<rparr>, d')
        | ((False, _), d') \<Rightarrow> (c, d'))
     else (c, d))"

definition PhotonicCaptureResourceReleaseIsoch :: "'b env \<Rightarrow> 'b eng \<Rightarrow> bool \<times> 'b eng" where
  "PhotonicCaptureResourceReleaseIsoch ev e =
     (let e1 = (if Listening (fst e) then PhotonicCaptureResourceIsochStop ev e else e) in
      case freeHandle ev e1 of (flushed, e2) \<Rightarrow> (flushed, freeChannel ev (freeBandwidth ev e2)))"

definition PhotonicCaptureNeedsReleaseRetry :: "capture \<Rightarrow> bool" where
  "PhotonicCaptureNeedsReleaseRetry c \<longleftrightarrow>
     ResourceAllocated c \<or> BandwidthAllocated c \<or> ChannelAllocated c \<or>
     PhotonicCaptureHasQuarantinedFrames c"

section \<open>Bringing a session up\<close>

text \<open>
  The part of PhotonicCaptureStart between the release retry and the opening of the engine: the
  camera's packetisation, the chunk geometry, then channel, camera channel register, bandwidth
  and handle, stopping at the first failure with what was taken still recorded.
\<close>

definition sessionChunks :: "'b env \<Rightarrow> 'b eng \<Rightarrow> NTSTATUS \<times> 'b eng" where
  "sessionChunks ev = (\<lambda>(c, (x, b)).
     case PhotonicCapturePoolSetupChunks ev (MaxDmaBufferSize x) c b of
       ((status, c'), b') \<Rightarrow> (status, (c', (x, b'))))"

definition setCameraChannel :: "'b env \<Rightarrow> 'b eng \<Rightarrow> NTSTATUS \<times> 'b eng" where
  "setCameraChannel ev = (\<lambda>(c, d).
     case PhotonicDcamSetIsochChannel ev (Channel c) (ucast (Photonic1394StreamScode (fst d))) d of
       (r, d') \<Rightarrow> (statusOf r, (c, d')))"

definition thenStep :: "('s \<Rightarrow> NTSTATUS \<times> 's) \<Rightarrow> ('s \<Rightarrow> NTSTATUS \<times> 's) \<Rightarrow> 's \<Rightarrow> NTSTATUS \<times> 's" where
  "thenStep m n s = (case m s of (status, s') \<Rightarrow> if NT_SUCCESS status then n s' else (status, s'))"

definition sessionResources :: "'b env \<Rightarrow> 'b eng \<Rightarrow> NTSTATUS \<times> 'b eng" where
  "sessionResources ev e =
     (let speedFlags = push_bit (unat (Photonic1394StreamScode (fst (snd e)))) 1 in
      thenStep (sessionChunks ev)
        (thenStep (PhotonicCaptureResourceAllocateChannel ev)
          (thenStep (setCameraChannel ev)
            (thenStep (PhotonicCaptureResourceAllocateBandwidth ev speedFlags)
              (PhotonicCaptureResourceAllocateHandle ev speedFlags)))) e)"

definition bringUpSession :: "'b env \<Rightarrow> stream \<times> 'b eng \<Rightarrow> NTSTATUS \<times> (stream \<times> 'b eng)" where
  "bringUpSession ev = (\<lambda>(s, (c, d)).
     case PhotonicDcamConfigureStream ev (s, d) of
       (Inl status, (s', d')) \<Rightarrow> (status, (s', (c, d')))
     | (Inr (bytesPerPacket, packetsPerFrame), (s', d')) \<Rightarrow>
         if bytesPerPacket = 0 \<or> packetsPerFrame = 0 then (STATUS_INVALID_DEVICE_STATE, (s', (c, d')))
         else (case sessionResources ev
                 (c\<lparr>BytesPerPacket := bytesPerPacket, PacketsPerFrame := packetsPerFrame,
                    FrameBytes := bytesPerPacket * packetsPerFrame\<rparr>, d') of
                 (status, e') \<Rightarrow> (status, (s', e'))))"

end
