(* ===== verification/Capture_Resource_Props.thy ===== *)
theory Capture_Resource_Props
  imports Capture_Resource Capture_Pool_Props Dcam_Stream_Props
begin

text \<open>
  The isochronous resources of a session: a release frees each held resource at most once and
  keeps the record of exactly what has not been freed; a session that came up holds all three
  resources with a legal channel and chunk geometry.
\<close>

section \<open>A bus that records its requests\<close>

definition logged :: "'b env \<Rightarrow> ('b \<times> irb list) env" where
  "logged ev = \<lparr>
     envAlloc = (\<lambda>(b, l). case envAlloc ev b of (r, b') \<Rightarrow> (r, (b', l))),
     envLock = (\<lambda>(b, l). case envLock ev b of (r, b') \<Rightarrow> (r, (b', l))),
     envCall = (\<lambda>i (b, l). case envCall ev i b of (r, b') \<Rightarrow> (r, (b', l @ [i])))\<rparr>"

lemma logged_simps [simp]:
  "envAlloc (logged ev) (b, l) = (fst (envAlloc ev b), (snd (envAlloc ev b), l))"
  "envLock (logged ev) (b, l) = (fst (envLock ev b), (snd (envLock ev b), l))"
  "envCall (logged ev) i (b, l) = (fst (envCall ev i b), (snd (envCall ev i b), l @ [i]))"
  by (simp_all add: logged_def split: prod.splits)

lemma logged_submit:
  "snd (snd (PhotonicSubmitIrbEx (logged ev) x i (b, l))) =
     (if subSubmitted (fst (PhotonicSubmitIrbEx (logged ev) x i (b, l))) then l @ [i] else l)"
  by (auto simp: PhotonicSubmitIrbEx_def split: prod.splits bool.splits)

lemma logged_free:
  obtains b' st where "PhotonicCaptureResourceFreeOne (logged ev) i (x, (b, l)) =
      ((False, st), (x, (b', l)))" and "\<not> NT_SUCCESS st"
  | b' st where "PhotonicCaptureResourceFreeOne (logged ev) i (x, (b, l)) =
      ((True, st), (x, (b', l @ [i])))"
proof -
  obtain r b' l' where r: "PhotonicSubmitIrbEx (logged ev) x i (b, l) = (r, (b', l'))"
    by (metis prod.collapse)
  then have l': "l' = (if subSubmitted r then l @ [i] else l)"
    using logged_submit [of ev x i b l] by simp
  show ?thesis
    using that not_submitted_fails [OF r]
    by (cases "subSubmitted r") (auto simp: PhotonicCaptureResourceFreeOne_def PhotonicSubmitIrbTracked_def r l')
qed

definition isFreeHandle :: "irb \<Rightarrow> bool" where
  "isFreeHandle i = (case i of ISOCH_FREE_RESOURCES _ \<Rightarrow> True | _ \<Rightarrow> False)"

definition isFreeBandwidth :: "irb \<Rightarrow> bool" where
  "isFreeBandwidth i = (case i of ISOCH_FREE_BANDWIDTH _ \<Rightarrow> True | _ \<Rightarrow> False)"

definition isFreeChannel :: "irb \<Rightarrow> bool" where
  "isFreeChannel i = (case i of ISOCH_FREE_CHANNEL _ \<Rightarrow> True | _ \<Rightarrow> False)"

lemmas isFree_simps = isFreeHandle_def isFreeBandwidth_def isFreeChannel_def

definition tally :: "(irb \<Rightarrow> bool) \<Rightarrow> bool \<Rightarrow> irb list \<Rightarrow> nat" where
  "tally P held l = length (filter P l) + (if held then 1 else 0)"

text \<open>Free requests at the bus driver plus resources still recorded as held, for each kind.\<close>

definition releaseTally :: "capture \<Rightarrow> irb list \<Rightarrow> nat \<times> nat \<times> nat" where
  "releaseTally c l = (tally isFreeHandle (ResourceAllocated c) l,
     tally isFreeBandwidth (BandwidthAllocated c) l, tally isFreeChannel (ChannelAllocated c) l)"

lemma stop_logged:
  "\<exists>b' l'. PhotonicCaptureResourceIsochStop (logged ev) (c, (x, (b, l))) =
     (c\<lparr>Listening := False\<rparr>, (x, (b', l'))) \<and> (l' = l \<or> l' = l @ [ISOCH_STOP (ResourceHandle c)])"
proof -
  obtain r b' l' where r: "PhotonicSubmitIrbEx (logged ev) x (ISOCH_STOP (ResourceHandle c)) (b, l) = (r, (b', l'))"
    by (metis prod.collapse)
  then show ?thesis
    using logged_submit [of ev x "ISOCH_STOP (ResourceHandle c)" b l]
    by (auto simp: PhotonicCaptureResourceIsochStop_def submit_def PhotonicSubmitIrb_def)
qed

lemma freeHandle_logged:
  "case freeHandle (logged ev) (c, (x, (b, l))) of (fl, (c', (x', (b', l')))) \<Rightarrow>
     x' = x \<and> BandwidthAllocated c' = BandwidthAllocated c \<and> ChannelAllocated c' = ChannelAllocated c \<and> Listening c' = Listening c \<and>
     tally isFreeHandle (ResourceAllocated c') l' = tally isFreeHandle (ResourceAllocated c) l \<and>
     filter isFreeBandwidth l' = filter isFreeBandwidth l \<and> filter isFreeChannel l' = filter isFreeChannel l \<and>
     (fl \<longrightarrow> ResourceAllocated c \<and> \<not> ResourceAllocated c')"
  by (rule logged_free [where ev = ev and i = "ISOCH_FREE_RESOURCES (ResourceHandle c)" and x = x and b = b and l = l])
    (auto simp: freeHandle_def tally_def isFree_simps)

lemma freeBandwidth_logged:
  "case freeBandwidth (logged ev) (c, (x, (b, l))) of (c', (x', (b', l'))) \<Rightarrow>
     x' = x \<and> ResourceAllocated c' = ResourceAllocated c \<and> ChannelAllocated c' = ChannelAllocated c \<and> Listening c' = Listening c \<and>
     tally isFreeBandwidth (BandwidthAllocated c') l' = tally isFreeBandwidth (BandwidthAllocated c) l \<and>
     filter isFreeHandle l' = filter isFreeHandle l \<and> filter isFreeChannel l' = filter isFreeChannel l"
  by (rule logged_free [where ev = ev and i = "ISOCH_FREE_BANDWIDTH (BandwidthHandle c)" and x = x and b = b and l = l])
    (auto simp: freeBandwidth_def tally_def isFree_simps)

lemma freeChannel_logged:
  "case freeChannel (logged ev) (c, (x, (b, l))) of (c', (x', (b', l'))) \<Rightarrow>
     x' = x \<and> ResourceAllocated c' = ResourceAllocated c \<and> BandwidthAllocated c' = BandwidthAllocated c \<and> Listening c' = Listening c \<and>
     tally isFreeChannel (ChannelAllocated c') l' = tally isFreeChannel (ChannelAllocated c) l \<and>
     filter isFreeHandle l' = filter isFreeHandle l \<and> filter isFreeBandwidth l' = filter isFreeBandwidth l"
  by (rule logged_free [where ev = ev and i = "ISOCH_FREE_CHANNEL (Channel c)" and x = x and b = b and l = l])
    (auto simp: freeChannel_def tally_def isFree_simps)

text \<open>
  A release keeps exact account of the bus resources.  For each of handle, bandwidth and
  channel, the number of free requests the bus driver has seen plus one if the engine still
  records the resource as held is the same before and after: nothing is freed twice, nothing is
  dropped unfreed, and a free that never reached the bus driver leaves its flag set for a retry.
  The release reports the mappings flushed only when it freed the handle it held.
\<close>

theorem release_accounts_exactly:
  "case PhotonicCaptureResourceReleaseIsoch (logged ev) (c, (x, (b, l))) of
     (flushed, (c', (x', (b', l')))) \<Rightarrow>
       releaseTally c' l' = releaseTally c l \<and> x' = x \<and> \<not> Listening c' \<and>
       (if flushed then ResourceAllocated c \<and> \<not> ResourceAllocated c' else True)"
proof -
  define e1 where "e1 = (if Listening c then PhotonicCaptureResourceIsochStop (logged ev) (c, (x, (b, l)))
      else (c, (x, (b, l))))"
  let ?c1 = "c\<lparr>Listening := False\<rparr>"
  obtain b1 l1 where e1: "e1 = (?c1, (x, (b1, l1)))"
    and l1: "l1 = l \<or> l1 = l @ [ISOCH_STOP (ResourceHandle c)]"
    using stop_logged [of ev c x b l] by (cases "Listening c") (auto simp: e1_def)
  obtain fl c2 x2 b2 l2 where e2: "freeHandle (logged ev) (?c1, (x, (b1, l1))) = (fl, (c2, (x2, (b2, l2))))"
    by (metis prod.collapse)
  obtain c3 x3 b3 l3 where e3: "freeBandwidth (logged ev) (c2, (x2, (b2, l2))) = (c3, (x3, (b3, l3)))"
    by (metis prod.collapse)
  obtain c4 x4 b4 l4 where e4: "freeChannel (logged ev) (c3, (x3, (b3, l3))) = (c4, (x4, (b4, l4)))"
    by (metis prod.collapse)
  have run: "PhotonicCaptureResourceReleaseIsoch (logged ev) (c, (x, (b, l))) = (fl, (c4, (x4, (b4, l4))))"
    by (simp add: PhotonicCaptureResourceReleaseIsoch_def Let_def e1_def [symmetric] e1 e2 e3 e4)
  note A2 = freeHandle_logged [where ev = ev and c = "?c1" and x = x and b = b1 and l = l1, unfolded e2 prod.case]
  note A3 = freeBandwidth_logged [where ev = ev and c = c2 and x = x2 and b = b2 and l = l2, unfolded e3 prod.case]
  note A4 = freeChannel_logged [where ev = ev and c = c3 and x = x3 and b = b3 and l = l3, unfolded e4 prod.case]
  have stop: "filter isFreeHandle l1 = filter isFreeHandle l"
    "filter isFreeBandwidth l1 = filter isFreeBandwidth l" "filter isFreeChannel l1 = filter isFreeChannel l"
    using l1 by (auto simp: isFree_simps)
  have "tally isFreeHandle (ResourceAllocated c4) l4 = tally isFreeHandle (ResourceAllocated c) l"
    using A2 A3 A4 stop by (simp add: tally_def)
  moreover have "tally isFreeBandwidth (BandwidthAllocated c4) l4 = tally isFreeBandwidth (BandwidthAllocated c) l"
    using A2 A3 A4 stop by (simp add: tally_def)
  moreover have "tally isFreeChannel (ChannelAllocated c4) l4 = tally isFreeChannel (ChannelAllocated c) l"
    using A2 A3 A4 stop by (simp add: tally_def)
  moreover have "x4 = x" "\<not> Listening c4" "fl \<longrightarrow> ResourceAllocated c \<and> \<not> ResourceAllocated c4"
    using A2 A3 A4 by simp_all
  ultimately show ?thesis
    by (simp add: run releaseTally_def)
qed

section \<open>A session that came up\<close>

lemma onDrv_same:
  assumes "keeps same_device m" and "onDrv m (s, d) = (r, (s', d'))"
  shows "same_device d d'"
  using assms(2) keepsD [OF assms(1)] by (auto simp: onDrv_def split: prod.splits)

lemma packet_step_same:
  fixes n :: ULONG
  shows "keeps same_device (\<lambda>d1. case h d1 of
      Inl e \<Rightarrow> (Inl e, d1)
    | Inr bpp \<Rightarrow> (let ppf = n div bpp in
         if ppf = 0 then (Inl STATUS_INVALID_PARAMETER, d1)
         else andThen (Photonic1394WriteRegister ev off (w bpp)) (\<lambda>_. ret (bpp, ppf)) d1))"
proof (rule keepsI)
  fix d1 :: "'a drv"
  have "keeps same_device (andThen (Photonic1394WriteRegister ev off v) (\<lambda>_. ret p))" for v and p :: "ULONG \<times> ULONG"
    by (intro registers_keep)
  then have "same_device d1 (snd (andThen (Photonic1394WriteRegister ev off v) (\<lambda>_. ret p) d1))" for v and p :: "ULONG \<times> ULONG"
    unfolding keeps_def by blast
  then show "same_device d1 (snd (case h d1 of
      Inl e \<Rightarrow> (Inl e, d1)
    | Inr bpp \<Rightarrow> (let ppf = n div bpp in
         if ppf = 0 then (Inl STATUS_INVALID_PARAMETER, d1)
         else andThen (Photonic1394WriteRegister ev off (w bpp)) (\<lambda>_. ret (bpp, ppf)) d1)))"
    by (auto simp: Let_def split: sum.splits)
qed

lemma ConfigureFormat7_same:
  assumes "PhotonicDcamConfigureFormat7 ev m (s, d) = (r, (s', d'))"
  shows "same_device d d'"
proof (cases "ImageSize s = 0")
  case True
  with assms show ?thesis by (simp add: PhotonicDcamConfigureFormat7_def Let_def)
next
  case False
  note run = assms [unfolded PhotonicDcamConfigureFormat7_def Let_def prod.case if_not_P [OF False]]
  show ?thesis
    by (rule onDrv_same [OF _ run]) (intro registers_keep packet_step_same [unfolded Let_def])
qed

lemma ConfigureStream_same:
  assumes "PhotonicDcamConfigureStream ev (s, d) = (r, (s', d'))"
  shows "same_device d d'"
proof (cases "sMode s")
  case None
  with assms show ?thesis by (simp add: PhotonicDcamConfigureStream_def)
next
  case (Some m)
  let ?rate = "PhotonicDcamSelectRate (unat (Format m)) (unat (Mode m)) (RateMask m) (FrameInterval s)
    (Photonic1394MaxIsochPayload (fst d))"
  let ?prog = "andThen (Photonic1394WriteRegister ev DCAM_REG_VIDEO_FORMAT (push_bit DCAM_SELECT_SHIFT (ucast (Format m)))) (\<lambda>_.
            andThen (Photonic1394WriteRegister ev DCAM_REG_VIDEO_MODE (push_bit DCAM_SELECT_SHIFT (ucast (Mode m)))) (\<lambda>_.
            andThen (Photonic1394WriteRegister ev DCAM_REG_FRAME_RATE (push_bit DCAM_SELECT_SHIFT (of_nat ?rate))) (\<lambda>_.
            ret (g_DcamPacketGeometry ! unat (Format m) ! unat (Mode m) ! ?rate))))"
  have keep: "keeps same_device ?prog"
    by (intro registers_keep)
  show ?thesis
    using assms Some ConfigureFormat7_same [of ev m s d r s' d']
      onDrv_same [OF keep, of "s\<lparr>RateId := of_nat ?rate\<rparr>" d r s' d']
    by (auto simp: PhotonicDcamConfigureStream_def Let_def split: if_splits)
qed

lemma thenStep_ok:
  assumes "thenStep m n s = (st, s')" and "NT_SUCCESS st"
  obtains st1 s1 where "m s = (st1, s1)" and "NT_SUCCESS st1" and "n s1 = (st, s')"
  using assms by (auto simp: thenStep_def split: prod.splits if_splits)

lemma allocChunks_fields:
  "allocChunks ev i cs c b = ((ok, c'), b') \<Longrightarrow> c' = c\<lparr>Frames := Frames c'\<rparr>"
proof (induction cs arbitrary: c b)
  case (Cons k cs)
  then show ?case
    by (cases "envAlloc ev b") (force simp: updFrame_def split: bool.splits)
qed simp

lemma allocFrames_fields:
  "allocFrames ev n is c b = ((ok, c'), b') \<Longrightarrow> c' = c\<lparr>Frames := Frames c'\<rparr>"
proof (induction "is" arbitrary: c b)
  case (Cons i "is")
  obtain ok1 c1 b1 where chunks: "allocChunks ev i [0..<n] c b = ((ok1, c1), b1)"
    by (metis prod.collapse)
  have c1: "c1 = c\<lparr>Frames := Frames c1\<rparr>"
    by (rule allocChunks_fields [OF chunks])
  show ?case
  proof (cases ok1)
    case True
    then have "c' = c1\<lparr>Frames := Frames c'\<rparr>"
      using Cons.prems chunks by (intro Cons.IH [of c1 b1]) simp
    then show ?thesis
      by (metis c1 capture.update_convs(20) capture.surjective)
  next
    case False
    with Cons.prems chunks c1 show ?thesis by simp
  qed
qed simp

lemma SetupChunks_fields:
  assumes "PhotonicCapturePoolSetupChunks ev maxDma c b = ((st, c'), b')" and "NT_SUCCESS st"
  shows "chunkGeometry maxDma (FrameBytes c) (BytesPerPacket c) = Inr (ChunkBytes c', ChunkCount c') \<and>
    c' = c\<lparr>ChunkBytes := ChunkBytes c', ChunkCount := ChunkCount c', Frames := Frames c'\<rparr>"
proof (cases "chunkGeometry maxDma (FrameBytes c) (BytesPerPacket c)")
  case (Inl e)
  have "\<not> NT_SUCCESS e"
    using Inl by (auto simp: chunkGeometry_def Let_def split: if_splits)
  with Inl assms show ?thesis
    by (simp add: PhotonicCapturePoolSetupChunks_def)
next
  case (Inr p)
  obtain cb cc where p: "p = (cb, cc)" by fastforce
  let ?c1 = "PhotonicCapturePoolFreeChunkMdls (c\<lparr>ChunkBytes := cb, ChunkCount := cc\<rparr>)"
  show ?thesis
  proof (cases "cc > 1")
    case False
    with Inr p assms show ?thesis
      by (auto simp: PhotonicCapturePoolSetupChunks_def Let_def FreeChunkMdls_eq)
  next
    case True
    obtain ok c2 b2 where frames: "allocFrames ev (unat cc) frameIndices ?c1 b = ((ok, c2), b2)"
      by (metis prod.collapse)
    have "c2 = ?c1\<lparr>Frames := Frames c2\<rparr>"
      by (rule allocFrames_fields [OF frames])
    then have c2: "c2 = c\<lparr>ChunkBytes := cb, ChunkCount := cc, Frames := Frames c2\<rparr>"
      by (simp add: FreeChunkMdls_eq)
    have "ChunkBytes c2 = cb \<and> ChunkCount c2 = cc"
      by (subst (1 2) c2) simp
    with True Inr p assms frames c2 show ?thesis
      by (auto simp: PhotonicCapturePoolSetupChunks_def Let_def split: bool.splits)
  qed
qed

lemma onDrv_fails:
  assumes "failsOnly m" and "onDrv m (s, d) = (Inl e, (s', d'))"
  shows "\<not> NT_SUCCESS e"
  using assms(2) failsOnlyD [OF assms(1)] by (auto simp: onDrv_def split: prod.splits)

lemma choosePacket_fails: "choosePacket f p sp i = Inl e \<Longrightarrow> \<not> NT_SUCCESS e"
  by (auto simp: choosePacket_def Let_def split: if_splits option.splits prod.splits)

lemma packet_step_fails:
  fixes n :: ULONG
  shows "failsOnly (\<lambda>d1. case choosePacket f p (sp d1) i of
      Inl e \<Rightarrow> (Inl e, d1)
    | Inr bpp \<Rightarrow> (let ppf = n div bpp in
         if ppf = 0 then (Inl STATUS_INVALID_PARAMETER, d1)
         else andThen (Photonic1394WriteRegister ev off (w bpp)) (\<lambda>_. ret (bpp, ppf)) d1))"
proof -
  have "failsOnly (andThen (Photonic1394WriteRegister ev off v) (\<lambda>_. ret p))"
    for v and p :: "ULONG \<times> ULONG"
    by (intro registers_fail)
  from failsOnlyD [OF this] show ?thesis
    by (auto simp: failsOnly_def Let_def choosePacket_fails split: sum.splits if_splits)
qed

lemma ConfigureStream_fails:
  assumes "PhotonicDcamConfigureStream ev (s, d) = (Inl e, (s', d'))"
  shows "\<not> NT_SUCCESS e"
proof (cases "sMode s")
  case None
  with assms show ?thesis by (auto simp: PhotonicDcamConfigureStream_def)
next
  case (Some m)
  show ?thesis
  proof (cases "IsFormat7 m")
    case True
    with assms Some have f7: "PhotonicDcamConfigureFormat7 ev m (s, d) = (Inl e, (s', d'))"
      by (simp add: PhotonicDcamConfigureStream_def)
    show ?thesis
    proof (cases "ImageSize s = 0")
      case True
      with f7 show ?thesis by (auto simp: PhotonicDcamConfigureFormat7_def Let_def)
    next
      case False
      note run = f7 [unfolded PhotonicDcamConfigureFormat7_def Let_def prod.case if_not_P [OF False]]
      show ?thesis
        by (rule onDrv_fails [OF _ run]) (intro registers_fail packet_step_fails [unfolded Let_def])
    qed
  next
    case False
    let ?rate = "PhotonicDcamSelectRate (unat (Format m)) (unat (Mode m)) (RateMask m) (FrameInterval s)
      (Photonic1394MaxIsochPayload (fst d))"
    have prog: "failsOnly (andThen (Photonic1394WriteRegister ev DCAM_REG_VIDEO_FORMAT (push_bit DCAM_SELECT_SHIFT (ucast (Format m)))) (\<lambda>_.
            andThen (Photonic1394WriteRegister ev DCAM_REG_VIDEO_MODE (push_bit DCAM_SELECT_SHIFT (ucast (Mode m)))) (\<lambda>_.
            andThen (Photonic1394WriteRegister ev DCAM_REG_FRAME_RATE (push_bit DCAM_SELECT_SHIFT (of_nat ?rate))) (\<lambda>_.
            ret (g_DcamPacketGeometry ! unat (Format m) ! unat (Mode m) ! ?rate)))))"
      by (intro registers_fail)
    show ?thesis
      using assms Some False onDrv_fails [OF prog, of "s\<lparr>RateId := of_nat ?rate\<rparr>" d e s' d']
      by (auto simp: PhotonicDcamConfigureStream_def Let_def split: if_splits)
  qed
qed

lemma sessionChunks_ok:
  assumes "sessionChunks ev (c, d) = (st, (c', d'))" and "NT_SUCCESS st"
  shows "chunkGeometry (MaxDmaBufferSize (fst d)) (FrameBytes c) (BytesPerPacket c) =
      Inr (ChunkBytes c', ChunkCount c') \<and>
    c' = c\<lparr>ChunkBytes := ChunkBytes c', ChunkCount := ChunkCount c', Frames := Frames c'\<rparr>"
proof -
  obtain x b where d: "d = (x, b)" by fastforce
  obtain b' where "PhotonicCapturePoolSetupChunks ev (MaxDmaBufferSize x) c b = ((st, c'), b')"
    using assms(1) by (auto simp: sessionChunks_def d split: prod.splits)
  from SetupChunks_fields [OF this assms(2)] show ?thesis
    by (simp add: d)
qed

lemma SetIsochChannel_success:
  assumes "PhotonicDcamSetIsochChannel ev ch sp d = (r, d')" and "NT_SUCCESS (statusOf r)"
  shows "ch \<le> 15"
  using assms by (auto simp: PhotonicDcamSetIsochChannel_def Let_def not_less split: if_splits)

text \<open>
  C31: a session that came up is complete.  When the bring-up succeeds, channel, bandwidth and
  resource handle are all held, the channel fits the camera's register, the frame size is packet
  size times packet count, the chunk geometry is the one computed from the host's limit, and the
  engine is still draining with its pool and in-flight count untouched.
\<close>

theorem bring_up_complete:
  assumes "bringUpSession ev (s, (c, d)) = (st, (s', (c', d')))" and "NT_SUCCESS st"
  shows "ResourceAllocated c' \<and> BandwidthAllocated c' \<and> ChannelAllocated c' \<and> Channel c' \<le> 15 \<and>
    FrameBytes c' = BytesPerPacket c' * PacketsPerFrame c' \<and>
    chunkGeometry (MaxDmaBufferSize (fst d)) (FrameBytes c') (BytesPerPacket c') =
      Inr (ChunkBytes c', ChunkCount c') \<and>
    Draining c' = Draining c \<and> InFlightIrps c' = InFlightIrps c \<and>
    FreeList c' = FreeList c \<and> PendingList c' = PendingList c"
proof -
  obtain bpp ppf d0 where conf: "PhotonicDcamConfigureStream ev (s, d) = (Inr (bpp, ppf), (s', d0))"
    and run: "sessionResources ev (c\<lparr>BytesPerPacket := bpp, PacketsPerFrame := ppf,
        FrameBytes := bpp * ppf\<rparr>, d0) = (st, (c', d'))"
  proof -
    obtain r s1 d1 where conf: "PhotonicDcamConfigureStream ev (s, d) = (r, (s1, d1))"
      by (metis prod.collapse)
    have fails: "\<not> NT_SUCCESS e" if "r = Inl e" for e
      using ConfigureStream_fails conf that by blast
    show thesis
      using assms conf that fails
      by (cases r) (auto simp: bringUpSession_def split: prod.splits if_splits)
  qed
  let ?c0 = "c\<lparr>BytesPerPacket := bpp, PacketsPerFrame := ppf, FrameBytes := bpp * ppf\<rparr>"
  define flags :: ULONG where "flags = push_bit (unat (Photonic1394StreamScode (fst d0))) 1"
  have "thenStep (sessionChunks ev) (thenStep (PhotonicCaptureResourceAllocateChannel ev)
      (thenStep (setCameraChannel ev) (thenStep (PhotonicCaptureResourceAllocateBandwidth ev flags)
        (PhotonicCaptureResourceAllocateHandle ev flags)))) (?c0, d0) = (st, (c', d'))"
    using run by (simp add: sessionResources_def Let_def flags_def)
  then obtain st1 c1 d1 where chunks: "sessionChunks ev (?c0, d0) = (st1, (c1, d1))"
    and ok1: "NT_SUCCESS st1"
    and rest: "thenStep (PhotonicCaptureResourceAllocateChannel ev) (thenStep (setCameraChannel ev)
            (thenStep (PhotonicCaptureResourceAllocateBandwidth ev flags)
              (PhotonicCaptureResourceAllocateHandle ev flags))) (c1, d1) = (st, (c', d'))"
    using assms(2) by (rule thenStep_ok) auto
  have maxdma: "MaxDmaBufferSize (fst d0) = MaxDmaBufferSize (fst d)"
    using ConfigureStream_same [OF conf] by (simp add: same_device_def same_ext_fields)
  have geo: "chunkGeometry (MaxDmaBufferSize (fst d)) (bpp * ppf) bpp = Inr (ChunkBytes c1, ChunkCount c1)"
    and c1: "c1 = ?c0\<lparr>ChunkBytes := ChunkBytes c1, ChunkCount := ChunkCount c1, Frames := Frames c1\<rparr>"
    using sessionChunks_ok [OF chunks ok1] by (simp_all add: maxdma)
  have c1f: "FrameBytes c1 = bpp * ppf \<and> BytesPerPacket c1 = bpp \<and> PacketsPerFrame c1 = ppf \<and>
      Draining c1 = Draining c \<and> InFlightIrps c1 = InFlightIrps c \<and> FreeList c1 = FreeList c \<and>
      PendingList c1 = PendingList c"
    by (subst (1 2 3 4 5 6 7) c1) simp
  show ?thesis
    using rest assms(2) c1f geo
    by (auto elim!: thenStep_ok dest!: SetIsochChannel_success
        simp: PhotonicCaptureResourceAllocateChannel_def setCameraChannel_def
          PhotonicCaptureResourceAllocateBandwidth_def PhotonicCaptureResourceAllocateHandle_def
        split: prod.splits)
qed

lemma reg_bus_submit:
  "PhotonicSubmitIrb (reg_bus v) ext0 (ISOCH_ALLOCATE_CHANNEL n) () = ((STATUS_SUCCESS, ResNone), ())"
  "PhotonicSubmitIrb (reg_bus v) ext0 (ISOCH_ALLOCATE_BANDWIDTH n k) () = ((STATUS_SUCCESS, ResNone), ())"
  "PhotonicSubmitIrb (reg_bus v) ext0 (ISOCH_ALLOCATE_RESOURCES rq) () = ((STATUS_SUCCESS, ResNone), ())"
  by (simp_all add: PhotonicSubmitIrb_def PhotonicSubmitIrbEx_def reg_bus_def cam_bus_def)

definition roi_session :: capture where
  "roi_session = (PhotonicCapturePoolFreeChunkMdls (newCapture\<lparr>BytesPerPacket := 8, PacketsPerFrame := 3,
     FrameBytes := 24, ChunkBytes := 24, ChunkCount := 1\<rparr>))\<lparr>ChannelAllocated := True,
     BandwidthAllocated := True, ResourceAllocated := True\<rparr>"

theorem bring_up_complete_witness:
  "bringUpSession (reg_bus 0x0004000C) (roi_stream, (newCapture, (ext0, ()))) =
     (STATUS_SUCCESS, (roi_stream, (roi_session, (ext0, ())))) \<and>
   ResourceAllocated roi_session \<and>
   chunkGeometry (MaxDmaBufferSize ext0) (FrameBytes roi_session) (BytesPerPacket roi_session) =
     Inr (ChunkBytes roi_session, ChunkCount roi_session)"
proof -
  have dma: "MaxDmaBufferSize ext0 = 0" "Photonic1394StreamScode ext0 = 2"
    by (simp_all add: ext0_def Photonic1394StreamScode_def)
  have run: "bringUpSession (reg_bus 0x0004000C) (roi_stream, (newCapture, (ext0, ()))) =
     (STATUS_SUCCESS, (roi_stream, (roi_session, (ext0, ()))))"
    by (simp add: bringUpSession_def roi_configured sessionResources_def thenStep_def sessionChunks_def
        PhotonicCapturePoolSetupChunks_def chunkGeometry_def bufferLimit_def dma Let_def
        PhotonicCaptureResourceAllocateChannel_def setCameraChannel_def submit_def reg_bus_submit
        PhotonicDcamSetIsochChannel_def reg_bus_register PhotonicCaptureResourceAllocateBandwidth_def
        PhotonicCaptureResourceAllocateHandle_def roi_session_def FreeChunkMdls_eq newCapture_def)
  show ?thesis
    using bring_up_complete [OF run NT_SUCCESS_codes(1)] run unfolding fst_conv by blast
qed

end
