(* ===== verification/Capture_Pump.thy ===== *)
theory Capture_Pump
  imports Capture_Resource
begin

text \<open>
  photonic/capture/pump.c: the data plane of the capture engine.  Every lock section of the pump
  and of the three completion routines is one function on the engine, which also says what the
  routine does next: the calls it still has to make are acts, executed one at a time by the
  machine of \<open>Capture_Machine\<close>, so that other processors can run between any two of them.
\<close>

section \<open>Acts\<close>

text \<open>
  The atomic actions of the data plane: submitting an attach or detach IRP, the two completion
  routines, handing a frame to the front-end, the pump with its lap, accounting an IRP, the
  events, the control work request, and the steps of the front-end's own handlers with the
  data-path gate they leave last.
\<close>

datatype front_step = ReceiveRead | ParkRead | CancelRead | RequeueRing | StartRing

datatype act =
    BusAttach nat
  | BusDetach nat
  | AttachComplete nat NTSTATUS
  | DetachComplete nat NTSTATUS
  | Deliver nat ULONG NTSTATUS
  | PumpElect
  | PumpClear
  | LapClaim nat
  | LapAcquire nat nat
  | LapEmpty nat
  | LapReject nat nat nat
  | LapPublish nat nat nat
  | PumpFinish
  | IrpDone
  | DrainTest
  | SetDrainDone
  | SetFirstAttach
  | RequestWork
  | QueueWork
  | SetCancel
  | Front front_step nat
  | LeaveDataPath
  | SetDataPathIdle

section \<open>In-flight IRPs\<close>

text \<open>
  PhotonicCapturePumpIrpDone is three accesses: the interlocked decrement, the test of Draining
  when the count reached zero, and the event.  Another processor can run between any two.
\<close>

definition irpDone :: "capture \<Rightarrow> act list \<times> capture" where
  "irpDone c =
     (let n = InFlightIrps c - 1 in
      ((if n = 0 then [DrainTest] else []), c\<lparr>InFlightIrps := n\<rparr>))"

definition drainTest :: "capture \<Rightarrow> act list \<times> capture" where
  "drainTest c = ((if Draining c then [SetDrainDone] else []), c)"

section \<open>Completion routines\<close>

definition chunkStatus :: "capture \<Rightarrow> nat \<Rightarrow> NTSTATUS" where
  "chunkStatus c d = isoStatus (Isoch (Frames c d) ! (unat (ChunkCount c) - 1))"

definition frameOutcome :: "NTSTATUS \<Rightarrow> NTSTATUS" where
  "frameOutcome s = (if NT_SUCCESS s then STATUS_SUCCESS else s)"

definition withState :: "nat \<Rightarrow> frame_state \<Rightarrow> capture \<Rightarrow> capture" where
  "withState d st = updFrame d (\<lambda>f. f\<lparr>State := st\<rparr>)"

text \<open>The descriptor returns to the tail or the head of the free list.\<close>

definition recycleTail :: "nat \<Rightarrow> capture \<Rightarrow> capture" where
  "recycleTail d c = (updFrame d (\<lambda>f. f\<lparr>State := PhotonicFrameFree, Cookie := 0\<rparr>) c)
     \<lparr>FreeList := FreeList c @ [d]\<rparr>"

definition returnHead :: "nat \<Rightarrow> capture \<Rightarrow> capture" where
  "returnHead d c = (withState d PhotonicFrameFree c)\<lparr>FreeList := d # FreeList c\<rparr>"

definition unlinkPending :: "nat \<Rightarrow> capture \<Rightarrow> capture" where
  "unlinkPending d c = c\<lparr>PendingList := remove1 d (PendingList c)\<rparr>"

definition PhotonicCapturePumpDetachComplete :: "nat \<Rightarrow> NTSTATUS \<Rightarrow> capture \<Rightarrow> act list \<times> capture" where
  "PhotonicCapturePumpDetachComplete d status c =
     (let cookie = Cookie (Frames c d);
          completion = CompletionStatus (Frames c d);
          bytes = (if NT_SUCCESS completion then FrameBytes c else 0)
      in if \<not> NT_SUCCESS status then ([IrpDone], withState d PhotonicFrameDetachFailed c)
         else ([Deliver cookie bytes completion, PumpElect, IrpDone], recycleTail d c))"

text \<open>
  The frame callback.  The bus driver has written the frame's status into the last chunk's
  descriptor; the callback claims a pending descriptor or defers to the attach completion.
\<close>

definition claimDetach :: "nat \<Rightarrow> NTSTATUS \<Rightarrow> capture \<Rightarrow> capture" where
  "claimDetach d completion c =
     (updFrame d (\<lambda>f. f\<lparr>State := PhotonicFrameDetaching, CompletionStatus := completion\<rparr>)
        (unlinkPending d c))"

definition PhotonicCapturePumpIsochCallback :: "nat \<Rightarrow> capture \<Rightarrow> act list \<times> capture" where
  "PhotonicCapturePumpIsochCallback d c =
     (case State (Frames c d) of
        PhotonicFramePending \<Rightarrow>
          ([BusDetach d],
           (claimDetach d (frameOutcome (chunkStatus c d)) c)\<lparr>InFlightIrps := InFlightIrps c + 1\<rparr>)
      | PhotonicFrameAttaching \<Rightarrow> ([], withState d PhotonicFrameCompletedWhileAttaching c)
      | _ \<Rightarrow> ([], c))"

definition PhotonicCapturePumpAttachComplete :: "nat \<Rightarrow> NTSTATUS \<Rightarrow> capture \<Rightarrow> act list \<times> capture" where
  "PhotonicCapturePumpAttachComplete d status c =
     (let cookie = Cookie (Frames c d) in
      if \<not> NT_SUCCESS status then
        ([Deliver cookie 0 status, IrpDone], recycleTail d (unlinkPending d c))
      else if State (Frames c d) = PhotonicFrameCompletedWhileAttaching then
        ([BusDetach d], claimDetach d (frameOutcome (chunkStatus c d)) c)
      else if Draining c then ([IrpDone], withState d PhotonicFramePending c)
      else (SetFirstAttach # (if \<not> Listening c then [RequestWork] else []) @ [IrpDone],
            withState d PhotonicFramePending c))"

section \<open>The pump\<close>

definition pumpElect :: "capture \<Rightarrow> act list \<times> capture" where
  "pumpElect c =
     (if PumpActive c then ([], c\<lparr>PumpAgain := True\<rparr>) else ([PumpClear], c\<lparr>PumpActive := True\<rparr>))"

definition pumpClear :: "capture \<Rightarrow> act list \<times> capture" where
  "pumpClear c = ([LapClaim 0], c\<lparr>PumpAgain := False\<rparr>)"

definition pumpFinish :: "capture \<Rightarrow> act list \<times> capture" where
  "pumpFinish c =
     (if PumpAgain c then ([PumpClear], c) else ([], c\<lparr>PumpActive := False\<rparr>))"

text \<open>
  One iteration of PhotonicCapturePumpLap: claim a free descriptor, pull a buffer, prime the
  descriptor, publish it and attach.
\<close>

definition lapClaim :: "nat \<Rightarrow> capture \<Rightarrow> act list \<times> capture" where
  "lapClaim i c =
     (if i \<ge> PHOTONIC_CAPTURE_FRAME_COUNT then ([PumpFinish], c)
      else case FreeList c of
        [] \<Rightarrow> ([PumpFinish], c)
      | d # rest \<Rightarrow>
          if Draining c then ([PumpFinish], c)
          else ([LapAcquire i d], c\<lparr>FreeList := rest\<rparr>))"

definition lapAcquired :: "nat \<Rightarrow> nat \<Rightarrow> (nat \<times> mdl option) option \<Rightarrow> capture \<Rightarrow> act list \<times> capture" where
  "lapAcquired i d buffer c =
     (case buffer of
        None \<Rightarrow> ([LapEmpty d], c)
      | Some (cookie, None) \<Rightarrow> ([LapReject i d cookie], c)
      | Some (cookie, Some m) \<Rightarrow>
          if mdlByteCount m < FrameBytes c then ([LapReject i d cookie], c)
          else ([LapPublish i d cookie], PhotonicCapturePumpPrime d cookie m c))"

definition lapEmpty :: "nat \<Rightarrow> capture \<Rightarrow> act list \<times> capture" where
  "lapEmpty d c = ([PumpFinish], returnHead d c)"

definition lapReject :: "nat \<Rightarrow> nat \<Rightarrow> nat \<Rightarrow> capture \<Rightarrow> act list \<times> capture" where
  "lapReject i d cookie c =
     ([Deliver cookie 0 STATUS_INVALID_PARAMETER, LapClaim (i + 1)], returnHead d c)"

definition lapPublish :: "nat \<Rightarrow> nat \<Rightarrow> nat \<Rightarrow> capture \<Rightarrow> act list \<times> capture" where
  "lapPublish i d cookie c =
     (if Draining c then ([Deliver cookie 0 STATUS_CANCELLED, PumpFinish], returnHead d c)
      else ([BusAttach d, LapClaim (i + 1)],
            (withState d PhotonicFrameAttaching c)\<lparr>PendingList := PendingList c @ [d],
               InFlightIrps := InFlightIrps c + 1\<rparr>))"

end
