(* ===== verification/Capture_Control.thy ===== *)
theory Capture_Control
  imports Capture_Pump
begin

text \<open>
  The control plane of the capture engine: photonic/capture/capture.c, teardown.c, work.c, and the
  data-path gate of photonic/stream/read.c.  Every control transition runs at PASSIVE_LEVEL with
  InterfaceMutex held, so there is one control program at a time; its steps are the constructors
  below, and the lock sections they take on the engine are functions of this theory.
\<close>

section \<open>Control acts\<close>

text \<open>The quiesce: PhotonicCaptureTeardownQuiesce.\<close>

datatype quiesce_act =
    QBegin | QStop | QClaim | QClear | QTest | QSleep | QEmpty | QPump | QClearFirst

text \<open>The release: PhotonicCaptureTeardownReleaseSessionResources.\<close>

datatype release_act = RelIsoch | RelFrame nat | RelChunks

text \<open>PhotonicCaptureEnsureListen.\<close>

datatype listen_act = LCheck | LWait | LRecheck | LIssue | LSet

text \<open>PhotonicCaptureStart; the argument is ExpectBuffers.\<close>

datatype start_act =
  StartCheck bool | StartRetried bool | StartBringUp bool | StartOpen bool | StartEnable bool

text \<open>
  PhotonicCaptureStop and PhotonicCaptureTeardownShutdown; \<open>ArmShot\<close> is the register write of the
  SW_TRIGGER request.
\<close>

datatype stop_act =
  PublishState KSSTATE | DisableCamera | StopCheck | WaitPumpIdle | StopRetry | DrainReads | ArmShot

text \<open>PhotonicCaptureWorkService, run by the control work item.\<close>

datatype work_act = WorkService | WorkResume | WorkEnable | WorkRetry | WorkDone

text \<open>PhotonicStreamClose around the stop.\<close>

datatype close_act = CloseBegin | CloseWait | CloseDestroy | CloseEnd

datatype cact =
    Quiesce quiesce_act
  | Release release_act
  | Listen listen_act
  | Start start_act
  | Stop stop_act
  | Work work_act
  | Close close_act
  | Return NTSTATUS

section \<open>Lock sections of the teardown\<close>

definition quiesceBegin :: "capture \<Rightarrow> cact list \<times> capture" where
  "quiesceBegin c = (if Draining c then ([], c) else ([Quiesce QStop], c\<lparr>Draining := True\<rparr>))"

definition firstPending :: "capture \<Rightarrow> nat option" where
  "firstPending c = find (\<lambda>d. State (Frames c d) = PhotonicFramePending) (PendingList c)"

text \<open>One pass of the claim loop.\<close>

definition quiesceClaim :: "capture \<Rightarrow> act list \<times> cact list \<times> capture" where
  "quiesceClaim c =
     (case firstPending c of
        Some d \<Rightarrow> ([BusDetach d], [Quiesce QClaim],
                   (claimDetach d STATUS_CANCELLED c)\<lparr>InFlightIrps := InFlightIrps c + 1\<rparr>)
      | None \<Rightarrow> ([], [Quiesce QClear], c))"

definition quiesceEmpty :: "capture \<Rightarrow> cact list" where
  "quiesceEmpty c = (if PendingList c = [] then [Quiesce QPump] else [Quiesce QClaim])"

text \<open>A quarantined read is delivered once its mapping is flushed.\<close>

definition releaseFrame :: "nat \<Rightarrow> capture \<Rightarrow> act list \<times> capture" where
  "releaseFrame i c =
     (if State (Frames c i) = PhotonicFrameDetachFailed
      then ([Deliver (Cookie (Frames c i)) 0 STATUS_CANCELLED], recycleTail i c)
      else ([], c))"

definition releaseFrames :: "cact list" where
  "releaseFrames = map (\<lambda>i. Release (RelFrame i)) frameIndices @ [Release RelChunks]"

section \<open>Programs\<close>

definition shutdownProgram :: "cact list" where
  "shutdownProgram =
     [Stop (PublishState KSSTATE_STOP), Stop DisableCamera, Quiesce QBegin, Release RelIsoch,
      Stop DrainReads]"

definition stopProgram :: "cact list" where
  "stopProgram = [Stop (PublishState KSSTATE_STOP), Stop StopCheck]"

definition stopCheck :: "capture \<Rightarrow> cact list" where
  "stopCheck c =
     (if Draining c then [Stop WaitPumpIdle, Stop StopRetry, Stop DrainReads] else shutdownProgram)"

definition runProgram :: "cact list" where
  "runProgram = [Stop (PublishState KSSTATE_RUN), Return STATUS_SUCCESS]"

definition listenBlocked :: "capture \<Rightarrow> bool" where
  "listenBlocked c \<longleftrightarrow> Draining c \<or> Listening c \<or> PendingList c = []"

text \<open>The checks of PhotonicCaptureStart before the bring-up.\<close>

definition startCheck :: "bool \<Rightarrow> extension \<Rightarrow> stream \<Rightarrow> capture \<Rightarrow> cact list" where
  "startCheck expect x s c =
     (if Removed x then [Return STATUS_DEVICE_REMOVED]
      else if \<not> Draining c then runProgram
      else if sMode s = None then [Return STATUS_INVALID_DEVICE_STATE]
      else if PhotonicCaptureNeedsReleaseRetry c then [Release RelIsoch, Start (StartRetried expect)]
      else [Start (StartBringUp expect)])"

definition startRetried :: "bool \<Rightarrow> capture \<Rightarrow> cact list" where
  "startRetried expect c =
     (if PhotonicCaptureHasQuarantinedFrames c then [Return STATUS_DEVICE_NOT_READY]
      else [Start (StartBringUp expect)])"

text \<open>The engine opens for submits.\<close>

definition startOpen :: "capture \<Rightarrow> capture" where
  "startOpen c = c\<lparr>FirstAttachDone := False, ControlRetries := 0, CancelPending := False, Draining := False\<rparr>"

section \<open>The camera's transmission\<close>

definition PhotonicCaptureTeardownDisableCamera :: "'b env \<Rightarrow> stream \<Rightarrow> 'b eng \<Rightarrow> 'b eng" where
  "PhotonicCaptureTeardownDisableCamera ev s = (\<lambda>(c, d).
     let c1 = c\<lparr>EnableWanted := False\<rparr>;
         d1 = (if IsoEnabled c \<and> \<not> Removed (fst d) then snd (PhotonicDcamSetIsochEnable ev False d) else d);
         c2 = c1\<lparr>IsoEnabled := False\<rparr>;
         d2 = (if OneShot s \<and> \<not> Removed (fst d1) then snd (PhotonicDcamOneShot ev False d1) else d1)
     in (c2, d2))"

text \<open>The end of PhotonicCaptureStart: enable, defer the enable, or stop again.\<close>

definition startEnable :: "'b env \<Rightarrow> bool \<Rightarrow> stream \<Rightarrow> 'b eng \<Rightarrow> cact list \<times> 'b eng" where
  "startEnable ev expect s = (\<lambda>(c, d).
     if OneShot s then (runProgram, (c, d))
     else if expect \<and> \<not> Listening c then (runProgram, (c\<lparr>EnableWanted := True\<rparr>, d))
     else case PhotonicDcamSetIsochEnable ev True d of
         (Inl status, d') \<Rightarrow> (stopProgram @ [Return status], (c, d'))
       | (Inr _, d') \<Rightarrow> (runProgram, (c\<lparr>IsoEnabled := True\<rparr>, d')))"

section \<open>The control work item\<close>

abbreviation (input) PHOTONIC_CAPTURE_CONTROL_RETRY_MAX :: ULONG
  where "PHOTONIC_CAPTURE_CONTROL_RETRY_MAX \<equiv> 8"

definition workTail :: "cact list" where
  "workTail = [Listen LCheck, Work WorkEnable, Work WorkRetry]"

definition workService :: "capture \<Rightarrow> cact list \<times> capture" where
  "workService c =
     ((if CancelPending c \<and> \<not> Draining c then [Quiesce QBegin, Work WorkResume] else []) @ workTail,
      c\<lparr>CancelPending := False\<rparr>)"

definition workResume :: "extension \<Rightarrow> capture \<Rightarrow> act list \<times> cact list \<times> capture" where
  "workResume x c =
     (if Removed x \<or> PhotonicCaptureHasQuarantinedFrames c then ([], shutdownProgram, c)
      else ([PumpElect], [], c\<lparr>Draining := False\<rparr>))"

definition workEnable :: "'b env \<Rightarrow> 'b eng \<Rightarrow> 'b eng" where
  "workEnable ev = (\<lambda>(c, d).
     if EnableWanted c \<and> Listening c \<and> \<not> Removed (fst d) then
       (case PhotonicDcamSetIsochEnable ev True d of
          (Inl _, d') \<Rightarrow> (c, d')
        | (Inr _, d') \<Rightarrow> (c\<lparr>EnableWanted := False, IsoEnabled := True\<rparr>, d'))
     else (c, d))"

definition workRetry :: "extension \<Rightarrow> capture \<Rightarrow> act list \<times> capture" where
  "workRetry x c =
     (let retryListen = \<not> listenBlocked c; retryEnable = EnableWanted c \<and> Listening c in
      if (retryListen \<or> retryEnable) \<and> \<not> Removed x then
        (if ControlRetries c < PHOTONIC_CAPTURE_CONTROL_RETRY_MAX
         then ([RequestWork], c\<lparr>ControlRetries := ControlRetries c + 1\<rparr>)
         else ([], c))
      else ([], c\<lparr>ControlRetries := 0\<rparr>))"

section \<open>The data-path gate\<close>

record gate =
  Rundown :: bool
  DataPathRefs :: int
  DataPathIdle :: bool

definition PhotonicStreamEnterDataPath :: "gate \<Rightarrow> bool \<times> gate" where
  "PhotonicStreamEnterDataPath g =
     (if Rundown g then (False, g) else (True, g\<lparr>DataPathRefs := DataPathRefs g + 1\<rparr>))"

definition PhotonicStreamLeaveDataPath :: "gate \<Rightarrow> act list \<times> gate" where
  "PhotonicStreamLeaveDataPath g =
     (let refs = DataPathRefs g - 1 in
      ((if refs = 0 \<and> Rundown g then [SetDataPathIdle] else []), g\<lparr>DataPathRefs := refs\<rparr>))"

definition closeBegin :: "gate \<Rightarrow> bool \<times> gate" where
  "closeBegin g = (DataPathRefs g \<noteq> 0, g\<lparr>Rundown := True\<rparr>)"

text \<open>PhotonicCaptureDestroy: (the engine was freed, the engine).\<close>

definition PhotonicCaptureDestroy :: "capture \<Rightarrow> bool \<times> capture" where
  "PhotonicCaptureDestroy c =
     (if PhotonicCaptureHasQuarantinedFrames c then (False, c)
      else (True, PhotonicCapturePoolFreeChunkMdls (PhotonicCapturePoolFree c)))"

text \<open>PhotonicCaptureCreate: the engine, or the failed allocation with everything undone.\<close>

definition PhotonicCaptureCreate :: "'b env \<Rightarrow> 'b \<Rightarrow> (NTSTATUS \<times> capture option) \<times> 'b" where
  "PhotonicCaptureCreate ev b =
     (case envAlloc ev b of
        (False, b1) \<Rightarrow> ((STATUS_INSUFFICIENT_RESOURCES, None), b1)
      | (True, b1) \<Rightarrow> (case PhotonicCapturePoolAllocate ev newCapture b1 of
            ((status, c), b2) \<Rightarrow>
              if NT_SUCCESS status then ((STATUS_SUCCESS, Some c), b2) else ((status, None), b2)))"

end
