(* ===== verification/Capture_Machine.thy ===== *)
theory Capture_Machine
  imports Capture_Control
begin

text \<open>
  The capture engine running: its processors, its one control program, the bus driver and the
  front-end.  A thread is the list of acts a processor still has to perform; one step performs
  the head of one thread, or one step of the control program, or lets the bus driver complete an
  IRP or a frame.  Any interleaving is possible.  The front-end is a record of the callbacks the
  engine is created with; the bus driver's synchronous requests are the parameter \<open>'b env\<close> of
  \<open>Bus1394\<close>, its asynchronous side is the events below.
\<close>

section \<open>The front-end's operations\<close>

text \<open>
  The acquire and delivery callbacks, one iteration of the drain loop, and the front-end's own
  handler steps, which name the acts their thread continues with.  \<open>feRing\<close> is whether the mapped
  ring of the IOCTL interface feeds the engine, None for the stream interface, which has no ring.
\<close>

record 'f front =
  feAcquire :: "stream \<Rightarrow> 'f \<Rightarrow> (nat \<times> mdl option) option \<times> 'f"
  feDeliver :: "stream \<Rightarrow> nat \<Rightarrow> ULONG \<Rightarrow> NTSTATUS \<Rightarrow> 'f \<Rightarrow> 'f"
  feDrain :: "stream \<Rightarrow> 'f \<Rightarrow> 'f option"
  feRing :: "'f \<Rightarrow> bool option"
  feStep :: "front_step \<Rightarrow> nat \<Rightarrow> extension \<Rightarrow> stream \<Rightarrow> 'f \<Rightarrow> act list \<times> 'f"

section \<open>Worlds\<close>

datatype engine_life = EngineLive | EngineFreed | EngineLeaked

text \<open>
  \<open>wAttach\<close> and \<open>wDetach\<close> are the attach and detach IRPs at the bus driver; \<open>wArmed\<close> the
  descriptors whose buffer the bus driver has mapped for DMA; \<open>wRunning\<close> whether its isochronous
  context may be running.  \<open>wQueued\<close> is ControlWorkQueued, \<open>wWorkItems\<close> counts queued work items
  and \<open>wWorkers\<close> the started ones waiting for InterfaceMutex.
\<close>

record ('b, 'f) world =
  wEng :: capture
  wDrv :: "'b drv"
  wStream :: stream
  wFe :: 'f
  wGate :: gate
  wOpen :: bool
  wLife :: engine_life
  wCtlData :: "act list"
  wCtl :: "cact list"
  wThreads :: "act list list"
  wAttach :: "nat list"
  wDetach :: "nat list"
  wArmed :: "nat set"
  wRunning :: bool
  wQueued :: bool
  wWorkItems :: nat
  wWorkers :: nat
  wWorkLocks :: int
  wReturned :: "NTSTATUS list"

definition onEng :: "(capture \<Rightarrow> act list \<times> capture) \<Rightarrow> ('b, 'f) world \<Rightarrow> act list \<times> ('b, 'f) world" where
  "onEng f w = (case f (wEng w) of (as, c) \<Rightarrow> (as, w\<lparr>wEng := c\<rparr>))"

definition setEng :: "'b eng \<Rightarrow> ('b, 'f) world \<Rightarrow> ('b, 'f) world" where
  "setEng e w = w\<lparr>wEng := fst e, wDrv := snd e\<rparr>"

section \<open>Performing an act\<close>

text \<open>PhotonicCaptureRequestWork: the exchange, then the remove lock and the queueing.\<close>

definition requestWork :: "('b, 'f) world \<Rightarrow> act list \<times> ('b, 'f) world" where
  "requestWork w = (if wQueued w then ([], w) else ([QueueWork], w\<lparr>wQueued := True\<rparr>))"

definition queueWork :: "'b env \<Rightarrow> ('b, 'f) world \<Rightarrow> ('b, 'f) world" where
  "queueWork ev w =
     (case wDrv w of (x, b) \<Rightarrow> (case envLock ev b of (lock, b') \<Rightarrow>
        if NT_SUCCESS lock
        then w\<lparr>wDrv := (x, b'), wWorkItems := wWorkItems w + 1, wWorkLocks := wWorkLocks w + 1\<rparr>
        else w\<lparr>wDrv := (x, b'), wQueued := False\<rparr>))"

fun exec :: "'b env \<Rightarrow> 'f front \<Rightarrow> act \<Rightarrow> ('b, 'f) world \<Rightarrow> act list \<times> ('b, 'f) world" where
  "exec ev fe (BusAttach d) w = ([], w\<lparr>wAttach := wAttach w @ [d]\<rparr>)"
| "exec ev fe (BusDetach d) w = ([], w\<lparr>wDetach := wDetach w @ [d]\<rparr>)"
| "exec ev fe (AttachComplete d st) w = onEng (PhotonicCapturePumpAttachComplete d st) w"
| "exec ev fe (DetachComplete d st) w = onEng (PhotonicCapturePumpDetachComplete d st) w"
| "exec ev fe (Deliver k b st) w = ([], w\<lparr>wFe := feDeliver fe (wStream w) k b st (wFe w)\<rparr>)"
| "exec ev fe PumpElect w = onEng pumpElect w"
| "exec ev fe PumpClear w = onEng pumpClear w"
| "exec ev fe (LapClaim i) w = onEng (lapClaim i) w"
| "exec ev fe (LapAcquire i d) w =
     (case feAcquire fe (wStream w) (wFe w) of (r, f) \<Rightarrow> onEng (lapAcquired i d r) (w\<lparr>wFe := f\<rparr>))"
| "exec ev fe (LapEmpty d) w = onEng (lapEmpty d) w"
| "exec ev fe (LapReject i d k) w = onEng (lapReject i d k) w"
| "exec ev fe (LapPublish i d k) w = onEng (lapPublish i d k) w"
| "exec ev fe PumpFinish w = onEng pumpFinish w"
| "exec ev fe IrpDone w = onEng irpDone w"
| "exec ev fe DrainTest w = onEng drainTest w"
| "exec ev fe SetDrainDone w = onEng (\<lambda>c. ([], c\<lparr>DrainDone := True\<rparr>)) w"
| "exec ev fe SetFirstAttach w = onEng (\<lambda>c. ([], c\<lparr>FirstAttachDone := True\<rparr>)) w"
| "exec ev fe RequestWork w = requestWork w"
| "exec ev fe QueueWork w = ([], queueWork ev w)"
| "exec ev fe SetCancel w = onEng (\<lambda>c. ([], c\<lparr>CancelPending := True\<rparr>)) w"
| "exec ev fe (Front s srb) w =
     (case feStep fe s srb (fst (wDrv w)) (wStream w) (wFe w) of (as, f) \<Rightarrow> (as, w\<lparr>wFe := f\<rparr>))"
| "exec ev fe LeaveDataPath w =
     (case PhotonicStreamLeaveDataPath (wGate w) of (as, g) \<Rightarrow> (as, w\<lparr>wGate := g\<rparr>))"
| "exec ev fe SetDataPathIdle w = ([], w\<lparr>wGate := (wGate w)\<lparr>DataPathIdle := True\<rparr>\<rparr>)"

section \<open>The control program\<close>

text \<open>Whether the bus driver accepts the stop of the isochronous context.\<close>

definition stopAccepted :: "'b env \<Rightarrow> 'b eng \<Rightarrow> bool" where
  "stopAccepted ev e = NT_SUCCESS (fst (fst (submit ev (ISOCH_STOP (ResourceHandle (fst e))) (snd e))))"

definition eng :: "('b, 'f) world \<Rightarrow> 'b eng" where
  "eng w = (wEng w, wDrv w)"

text \<open>(acts, control acts, world), or None while a wait is not over.\<close>

type_synonym ('b, 'f) reaction = "(act list \<times> cact list \<times> ('b, 'f) world) option"

definition stopContext :: "'b env \<Rightarrow> ('b, 'f) world \<Rightarrow> ('b, 'f) world" where
  "stopContext ev w =
     (setEng (PhotonicCaptureResourceIsochStop ev (eng w)) w)
       \<lparr>wRunning := wRunning w \<and> \<not> stopAccepted ev (eng w)\<rparr>"

fun quiesceStep :: "'b env \<Rightarrow> quiesce_act \<Rightarrow> bool \<Rightarrow> ('b, 'f) world \<Rightarrow> ('b, 'f) reaction" where
  "quiesceStep ev QBegin t w = (case quiesceBegin (wEng w) of (cs, c) \<Rightarrow> Some ([], cs, w\<lparr>wEng := c\<rparr>))"
| "quiesceStep ev QStop t w =
     Some ([], [Quiesce QClaim], if ResourceAllocated (wEng w) then stopContext ev w else w)"
| "quiesceStep ev QClaim t w = (case quiesceClaim (wEng w) of (as, cs, c) \<Rightarrow> Some (as, cs, w\<lparr>wEng := c\<rparr>))"
| "quiesceStep ev QClear t w = Some ([], [Quiesce QTest], w\<lparr>wEng := (wEng w)\<lparr>DrainDone := False\<rparr>\<rparr>)"
| "quiesceStep ev QTest t w = Some ([], [Quiesce (if InFlightIrps (wEng w) = 0 then QEmpty else QSleep)], w)"
| "quiesceStep ev QSleep t w = (if DrainDone (wEng w) \<or> t then Some ([], [Quiesce QTest], w) else None)"
| "quiesceStep ev QEmpty t w = Some ([], quiesceEmpty (wEng w), w)"
| "quiesceStep ev QPump t w = (if PumpActive (wEng w) then None else Some ([], [Quiesce QClearFirst], w))"
| "quiesceStep ev QClearFirst t w = Some ([], [], w\<lparr>wEng := (wEng w)\<lparr>FirstAttachDone := False\<rparr>\<rparr>)"

text \<open>
  The release.  A free of the handle the bus driver confirmed has flushed every mapping; a stop
  inside the release counts as one too.
\<close>

definition releaseIsoch :: "'b env \<Rightarrow> ('b, 'f) world \<Rightarrow> cact list \<times> ('b, 'f) world" where
  "releaseIsoch ev w =
     (case PhotonicCaptureResourceReleaseIsoch ev (eng w) of (flushed, e) \<Rightarrow>
        ((if \<not> flushed \<and> PhotonicCaptureHasQuarantinedFrames (fst e) then [] else releaseFrames),
         (setEng e w)\<lparr>wArmed := (if flushed then {} else wArmed w)\<rparr>))"

fun releaseStep :: "'b env \<Rightarrow> release_act \<Rightarrow> ('b, 'f) world \<Rightarrow> ('b, 'f) reaction" where
  "releaseStep ev RelIsoch w = (case releaseIsoch ev w of (cs, w') \<Rightarrow> Some ([], cs, w'))"
| "releaseStep ev (RelFrame i) w = (case onEng (releaseFrame i) w of (as, w') \<Rightarrow> Some (as, [], w'))"
| "releaseStep ev RelChunks w = Some ([], [], w\<lparr>wEng := PhotonicCapturePoolFreeChunkMdls (wEng w)\<rparr>)"

text \<open>A context may be running from the moment a listen has been submitted.\<close>

fun listenStep :: "'b env \<Rightarrow> listen_act \<Rightarrow> bool \<Rightarrow> ('b, 'f) world \<Rightarrow> ('b, 'f) reaction" where
  "listenStep ev LCheck t w = Some ([], if listenBlocked (wEng w) then [] else [Listen LWait], w)"
| "listenStep ev LWait t w =
     (if FirstAttachDone (wEng w) then Some ([], [Listen LRecheck], w)
      else if t then Some ([], [], w) else None)"
| "listenStep ev LRecheck t w = Some ([], if listenBlocked (wEng w) then [] else [Listen LIssue], w)"
| "listenStep ev LIssue t w =
     (case submit ev (ISOCH_LISTEN (ResourceHandle (wEng w))) (wDrv w) of ((status, _), d) \<Rightarrow>
        Some ([], if NT_SUCCESS status then [Listen LSet] else [], w\<lparr>wDrv := d, wRunning := True\<rparr>))"
| "listenStep ev LSet t w = Some ([], [], w\<lparr>wEng := (wEng w)\<lparr>Listening := True\<rparr>\<rparr>)"

fun startStep :: "'b env \<Rightarrow> start_act \<Rightarrow> ('b, 'f) world \<Rightarrow> ('b, 'f) reaction" where
  "startStep ev (StartCheck ex) w = Some ([], startCheck ex (fst (wDrv w)) (wStream w) (wEng w), w)"
| "startStep ev (StartRetried ex) w = Some ([], startRetried ex (wEng w), w)"
| "startStep ev (StartBringUp ex) w =
     (case bringUpSession ev (wStream w, eng w) of (status, (s, e)) \<Rightarrow>
        Some ([], if NT_SUCCESS status then [Start (StartOpen ex)] else [Release RelIsoch, Return status],
              (setEng e w)\<lparr>wStream := s\<rparr>))"
| "startStep ev (StartOpen ex) w =
     Some ([PumpElect], [Listen LCheck, Start (StartEnable ex)], w\<lparr>wEng := startOpen (wEng w)\<rparr>)"
| "startStep ev (StartEnable ex) w =
     (case startEnable ev ex (wStream w) (eng w) of (cs, e) \<Rightarrow> Some ([], cs, setEng e w))"

fun stopStep :: "'b env \<Rightarrow> 'f front \<Rightarrow> stop_act \<Rightarrow> ('b, 'f) world \<Rightarrow> ('b, 'f) reaction" where
  "stopStep ev fe (PublishState st) w = Some ([], [], w\<lparr>wStream := (wStream w)\<lparr>StreamState := st\<rparr>\<rparr>)"
| "stopStep ev fe DisableCamera w =
     Some ([], [], setEng (PhotonicCaptureTeardownDisableCamera ev (wStream w) (eng w)) w)"
| "stopStep ev fe StopCheck w = Some ([], stopCheck (wEng w), w)"
| "stopStep ev fe WaitPumpIdle w = (if PumpActive (wEng w) then None else Some ([], [], w))"
| "stopStep ev fe StopRetry w =
     Some ([], if PhotonicCaptureNeedsReleaseRetry (wEng w) then [Release RelIsoch] else [], w)"
| "stopStep ev fe DrainReads w =
     (case feDrain fe (wStream w) (wFe w) of
        None \<Rightarrow> Some ([], [], w)
      | Some f \<Rightarrow> Some ([], [Stop DrainReads], w\<lparr>wFe := f\<rparr>))"
| "stopStep ev fe ArmShot w =
     (case PhotonicDcamOneShot ev True (wDrv w) of (r, d) \<Rightarrow>
        Some ([], [Return (statusOf r)], w\<lparr>wDrv := d\<rparr>))"

fun workStep :: "'b env \<Rightarrow> work_act \<Rightarrow> ('b, 'f) world \<Rightarrow> ('b, 'f) reaction" where
  "workStep ev WorkService w =
     (if wOpen w then (case workService (wEng w) of (cs, c) \<Rightarrow> Some ([], cs, w\<lparr>wEng := c\<rparr>))
      else Some ([], [], w))"
| "workStep ev WorkResume w =
     (case workResume (fst (wDrv w)) (wEng w) of (as, cs, c) \<Rightarrow> Some (as, cs, w\<lparr>wEng := c\<rparr>))"
| "workStep ev WorkEnable w = Some ([], [], setEng (workEnable ev (eng w)) w)"
| "workStep ev WorkRetry w =
     (case workRetry (fst (wDrv w)) (wEng w) of (as, c) \<Rightarrow> Some (as, [], w\<lparr>wEng := c\<rparr>))"
| "workStep ev WorkDone w = Some ([], [], w\<lparr>wWorkLocks := wWorkLocks w - 1\<rparr>)"

fun closeStep :: "close_act \<Rightarrow> ('b, 'f) world \<Rightarrow> ('b, 'f) reaction" where
  "closeStep CloseBegin w =
     (case closeBegin (wGate w) of (busy, g) \<Rightarrow>
        Some ([], (if busy then [Close CloseWait] else []) @ stopProgram @
                  [Close CloseDestroy, Stop DrainReads, Close CloseEnd],
              w\<lparr>wStream := (wStream w)\<lparr>StreamState := KSSTATE_STOP\<rparr>, wGate := g\<rparr>))"
| "closeStep CloseWait w = (if DataPathIdle (wGate w) then Some ([], [], w) else None)"
| "closeStep CloseDestroy w =
     (case PhotonicCaptureDestroy (wEng w) of (freed, c) \<Rightarrow>
        Some ([], [], w\<lparr>wEng := c, wLife := (if freed then EngineFreed else EngineLeaked)\<rparr>))"
| "closeStep CloseEnd w = Some ([], [], w\<lparr>wOpen := False\<rparr>)"

fun ctlStep :: "'b env \<Rightarrow> 'f front \<Rightarrow> cact \<Rightarrow> bool \<Rightarrow> ('b, 'f) world \<Rightarrow> ('b, 'f) reaction" where
  "ctlStep ev fe (Quiesce a) t w = quiesceStep ev a t w"
| "ctlStep ev fe (Release a) t w = releaseStep ev a w"
| "ctlStep ev fe (Listen a) t w = listenStep ev a t w"
| "ctlStep ev fe (Start a) t w = startStep ev a w"
| "ctlStep ev fe (Stop a) t w = stopStep ev fe a w"
| "ctlStep ev fe (Work a) t w = workStep ev a w"
| "ctlStep ev fe (Close a) t w = closeStep a w"
| "ctlStep ev fe (Return status) t w = Some ([], [], w\<lparr>wReturned := wReturned w @ [status]\<rparr>)"

section \<open>Steps\<close>

text \<open>
  The scheduler's choices: the next act of a thread or of the control context (with a timeout
  that may have expired); the bus driver mapping an attaching buffer, completing an IRP with a
  status, or completing a frame; a data or cancel request entering the gate; the control
  requests, each taking the mutex; the work item; the surprise removal of the device.  The last two
  are the requests of the IOCTL interface: a start that commits the mapped ring, and the trigger.
\<close>

datatype event =
    EvThread nat
  | EvCtl bool
  | EvArm nat
  | EvAttachDone nat NTSTATUS
  | EvDetachDone nat NTSTATUS
  | EvFrame nat NTSTATUS
  | EvRead nat
  | EvCancel nat
  | EvStart bool
  | EvStop
  | EvClose
  | EvWorker
  | EvService
  | EvRemove
  | EvStartRing bool bool
  | EvTrigger

definition startControl :: "cact list \<Rightarrow> ('b, 'f) world \<Rightarrow> ('b, 'f) world option" where
  "startControl cs w =
     (if wCtl w = [] \<and> wCtlData w = [] then Some (w\<lparr>wCtl := cs\<rparr>) else None)"

text \<open>The acts a control request performs before its program.\<close>

definition withData :: "act list \<Rightarrow> ('b, 'f) world option \<Rightarrow> ('b, 'f) world option" where
  "withData as r = map_option (\<lambda>w. w\<lparr>wCtlData := as\<rparr>) r"

definition spawn :: "act list \<Rightarrow> ('b, 'f) world \<Rightarrow> ('b, 'f) world" where
  "spawn as w = w\<lparr>wThreads := wThreads w @ [as]\<rparr>"

text \<open>The bus driver writes the frame's status into the last chunk's descriptor.\<close>

definition recordFrame :: "nat \<Rightarrow> NTSTATUS \<Rightarrow> capture \<Rightarrow> capture" where
  "recordFrame d st c =
     updFrame d (\<lambda>f. f\<lparr>Isoch := (Isoch f)[unat (ChunkCount c) - 1 :=
        (Isoch f ! (unat (ChunkCount c) - 1))\<lparr>isoStatus := st\<rparr>]\<rparr>) c"

text \<open>
  PhotonicStreamReceiveDataPacket and PhotonicCancelPacket: a request the gate refuses does not
  touch the stream; an entered one leaves the gate last.
\<close>

definition enterDataPath :: "act \<Rightarrow> ('b, 'f) world \<Rightarrow> ('b, 'f) world option" where
  "enterDataPath a w =
     (case PhotonicStreamEnterDataPath (wGate w) of
        (False, _) \<Rightarrow> None
      | (True, g) \<Rightarrow> Some (spawn [a, LeaveDataPath] (w\<lparr>wGate := g\<rparr>)))"

fun step :: "'b env \<Rightarrow> 'f front \<Rightarrow> event \<Rightarrow> ('b, 'f) world \<Rightarrow> ('b, 'f) world option" where
  "step ev fe (EvThread i) w =
     (if i < length (wThreads w) then
        (case wThreads w ! i of
           [] \<Rightarrow> None
         | a # as \<Rightarrow> (case exec ev fe a w of (new, w') \<Rightarrow>
             Some (w'\<lparr>wThreads := (wThreads w)[i := new @ as]\<rparr>)))
      else None)"
| "step ev fe (EvCtl t) w =
     (case wCtlData w of
        a # as \<Rightarrow> (case exec ev fe a w of (new, w') \<Rightarrow> Some (w'\<lparr>wCtlData := new @ as\<rparr>))
      | [] \<Rightarrow> (case wCtl w of
            [] \<Rightarrow> None
          | c # cs \<Rightarrow> (case ctlStep ev fe c t w of
                None \<Rightarrow> None
              | Some (as, new, w') \<Rightarrow> Some (w'\<lparr>wCtlData := as, wCtl := new @ cs\<rparr>))))"
| "step ev fe (EvArm d) w =
     (if d \<in> set (wAttach w) then Some (w\<lparr>wArmed := insert d (wArmed w)\<rparr>) else None)"
| "step ev fe (EvAttachDone d st) w =
     (if d \<in> set (wAttach w) \<and> (NT_SUCCESS st \<longleftrightarrow> d \<in> wArmed w)
      then Some (spawn [AttachComplete d st] (w\<lparr>wAttach := remove1 d (wAttach w)\<rparr>)) else None)"
| "step ev fe (EvDetachDone d st) w =
     (if d \<in> set (wDetach w)
      then Some (spawn [DetachComplete d st]
             (w\<lparr>wDetach := remove1 d (wDetach w),
                wArmed := (if NT_SUCCESS st then wArmed w - {d} else wArmed w)\<rparr>)) else None)"
| "step ev fe (EvFrame d st) w =
     (if wRunning w \<and> d \<in> wArmed w
      then (case PhotonicCapturePumpIsochCallback d (recordFrame d st (wEng w)) of (as, c) \<Rightarrow>
              Some (spawn as (w\<lparr>wEng := c\<rparr>)))
      else None)"
| "step ev fe (EvRead srb) w = enterDataPath (Front ReceiveRead srb) w"
| "step ev fe (EvCancel srb) w = enterDataPath (Front CancelRead srb) w"
| "step ev fe (EvStart ex) w = (if wOpen w then startControl [Start (StartCheck ex)] w else None)"
| "step ev fe EvStop w = (if wOpen w then startControl stopProgram w else None)"
| "step ev fe EvClose w = (if wOpen w then startControl [Close CloseBegin] w else None)"
| "step ev fe EvWorker w =
     (if wWorkItems w > 0
      then Some (w\<lparr>wWorkItems := wWorkItems w - 1, wWorkers := wWorkers w + 1, wQueued := False\<rparr>)
      else None)"
| "step ev fe EvService w =
     (if wWorkers w > 0
      then startControl [Work WorkService, Work WorkDone] (w\<lparr>wWorkers := wWorkers w - 1\<rparr>) else None)"
| "step ev fe (EvStartRing one ex) w =
     (case feRing fe (wFe w) of
        None \<Rightarrow> None
      | Some pump \<Rightarrow>
          if wOpen w \<and> \<not> Removed (fst (wDrv w)) \<and>
             (Draining (wEng w) \<or> OneShot (wStream w) = one \<and> pump = ex)
          then withData [Front StartRing (of_bool ex)]
                 (startControl [Start (StartCheck ex)] (w\<lparr>wStream := (wStream w)\<lparr>OneShot := one\<rparr>\<rparr>))
          else None)"
| "step ev fe EvTrigger w =
     (if feRing fe (wFe w) \<noteq> None \<and> wOpen w \<and> \<not> Removed (fst (wDrv w))
      then withData (if StreamState (wStream w) = KSSTATE_RUN then [Front RequeueRing 0] else [])
             (startControl [Listen LCheck, Stop ArmShot] w)
      else None)"
| "step ev fe EvRemove w = Some (w\<lparr>wDrv := ((fst (wDrv w))\<lparr>Removed := True\<rparr>, snd (wDrv w))\<rparr>)"

fun runs :: "'b env \<Rightarrow> 'f front \<Rightarrow> event list \<Rightarrow> ('b, 'f) world \<Rightarrow> ('b, 'f) world option" where
  "runs ev fe [] w = Some w"
| "runs ev fe (e # es) w = (case step ev fe e w of None \<Rightarrow> None | Some w' \<Rightarrow> runs ev fe es w')"

text \<open>A freshly opened stream: PhotonicCaptureCreate has run, nothing is in progress.\<close>

definition opened :: "capture \<Rightarrow> 'b drv \<Rightarrow> stream \<Rightarrow> 'f \<Rightarrow> ('b, 'f) world" where
  "opened c d s f = \<lparr>wEng = c, wDrv = d, wStream = s, wFe = f,
     wGate = \<lparr>Rundown = False, DataPathRefs = 0, DataPathIdle = False\<rparr>, wOpen = True,
     wLife = EngineLive, wCtlData = [], wCtl = [], wThreads = [], wAttach = [], wDetach = [],
     wArmed = {}, wRunning = False, wQueued = False, wWorkItems = 0, wWorkers = 0,
     wWorkLocks = 0, wReturned = []\<rparr>"

inductive reachable :: "'b env \<Rightarrow> 'f front \<Rightarrow> ('b, 'f) world \<Rightarrow> ('b, 'f) world \<Rightarrow> bool"
  for ev fe w0 where
  reachable_refl: "reachable ev fe w0 w0"
| reachable_step: "reachable ev fe w0 w \<Longrightarrow> step ev fe e w = Some w' \<Longrightarrow> reachable ev fe w0 w'"

lemma reachable_runs: "runs ev fe es w = Some w' \<Longrightarrow> reachable ev fe w0 w \<Longrightarrow> reachable ev fe w0 w'"
  by (induction es arbitrary: w) (auto split: option.splits intro: reachable_step)

end
