(* ===== verification/Capture_Account.thy ===== *)
theory Capture_Account
  imports Capture_Machine
begin

text \<open>
  The accounting invariants of the data plane.  Acts carry weights: the in-flight IRPs they
  stand for, the pump election they hold, the descriptor they own and the reads they carry.  The
  weights of all acts in progress, together with what is at the bus driver and what the engine
  records, add up; every lock section of the pump preserves the sums.
\<close>

section \<open>Weights\<close>

fun irpTok :: "act \<Rightarrow> nat" where
  "irpTok (BusAttach d) = 1"
| "irpTok (BusDetach d) = 1"
| "irpTok (AttachComplete d st) = 1"
| "irpTok (DetachComplete d st) = 1"
| "irpTok IrpDone = 1"
| "irpTok _ = 0"

fun pumpTok :: "act \<Rightarrow> nat" where
  "pumpTok PumpClear = 1"
| "pumpTok (LapClaim i) = 1"
| "pumpTok (LapAcquire i d) = 1"
| "pumpTok (LapEmpty d) = 1"
| "pumpTok (LapReject i d k) = 1"
| "pumpTok (LapPublish i d k) = 1"
| "pumpTok PumpFinish = 1"
| "pumpTok _ = 0"

text \<open>The descriptor an act owns: claimed by the lap, on its way to or from an attach or a detach.\<close>

fun lapTok :: "nat \<Rightarrow> act \<Rightarrow> nat" where
  "lapTok x (LapAcquire i d) = of_bool (x = d)"
| "lapTok x (LapEmpty d) = of_bool (x = d)"
| "lapTok x (LapReject i d k) = of_bool (x = d)"
| "lapTok x (LapPublish i d k) = of_bool (x = d)"
| "lapTok x _ = 0"

fun attTok :: "nat \<Rightarrow> act \<Rightarrow> nat" where
  "attTok x (BusAttach d) = of_bool (x = d)"
| "attTok x (AttachComplete d st) = of_bool (x = d)"
| "attTok x _ = 0"

fun detTok :: "nat \<Rightarrow> act \<Rightarrow> nat" where
  "detTok x (BusDetach d) = of_bool (x = d)"
| "detTok x (DetachComplete d st) = of_bool (x = d)"
| "detTok x _ = 0"

text \<open>The reads an act carries; what a front-end's own step carries is the front-end's to say.\<close>

fun readTok :: "(front_step \<Rightarrow> nat \<Rightarrow> nat multiset) \<Rightarrow> act \<Rightarrow> nat multiset" where
  "readTok held (LapReject i d k) = {#k#}"
| "readTok held (LapPublish i d k) = {#k#}"
| "readTok held (Deliver k b st) = {#k#}"
| "readTok held (Front p k) = held p k"
| "readTok held _ = {#}"

definition weigh :: "(act \<Rightarrow> 'w::comm_monoid_add) \<Rightarrow> act multiset \<Rightarrow> 'w" where
  "weigh f M = (\<Sum>a\<in>#M. f a)"

lemma weigh_simps [simp]:
  "weigh f {#} = 0" "weigh f (add_mset a M) = f a + weigh f M" "weigh f (M + N) = weigh f M + weigh f N"
  by (simp_all add: weigh_def)

lemma weigh_member: "a \<in># M \<Longrightarrow> (f a :: nat) \<le> weigh f M"
  by (auto dest!: multi_member_split)

section \<open>The invariants\<close>

definition inState :: "frame_state set \<Rightarrow> capture \<Rightarrow> nat \<Rightarrow> nat" where
  "inState S c d = of_bool (d < PHOTONIC_CAPTURE_FRAME_COUNT \<and> State (Frames c d) \<in> S)"

text \<open>InFlightIrps counts exactly the IRPs between their count-up and their count-down.\<close>

definition irpsCounted :: "capture \<Rightarrow> act multiset \<Rightarrow> nat multiset \<Rightarrow> nat multiset \<Rightarrow> bool" where
  "irpsCounted c M A D \<longleftrightarrow> InFlightIrps c = int (weigh irpTok M + size A + size D)"

text \<open>PumpActive says whether one processor runs the pump; there is never a second.\<close>

definition pumpElected :: "capture \<Rightarrow> act multiset \<Rightarrow> bool" where
  "pumpElected c M \<longleftrightarrow> weigh pumpTok M = of_bool (PumpActive c)"

text \<open>Every descriptor is in exactly the place its State says.\<close>

definition framesPlaced :: "capture \<Rightarrow> act multiset \<Rightarrow> nat multiset \<Rightarrow> nat multiset \<Rightarrow> bool" where
  "framesPlaced c M A D \<longleftrightarrow> (\<forall>d.
     count (mset (FreeList c)) d + weigh (lapTok d) M = inState {PhotonicFrameFree} c d \<and>
     count (mset (PendingList c)) d =
       inState {PhotonicFrameAttaching, PhotonicFrameCompletedWhileAttaching, PhotonicFramePending} c d \<and>
     count A d + weigh (attTok d) M =
       inState {PhotonicFrameAttaching, PhotonicFrameCompletedWhileAttaching} c d \<and>
     count D d + weigh (detTok d) M = inState {PhotonicFrameDetaching} c d)"

text \<open>A primed descriptor carries the read its lap acquired.\<close>

definition lapsPrimed :: "capture \<Rightarrow> act multiset \<Rightarrow> bool" where
  "lapsPrimed c M \<longleftrightarrow> (\<forall>i d k. LapPublish i d k \<in># M \<longrightarrow> Cookie (Frames c d) = k)"

text \<open>A mapped buffer belongs to a descriptor that is not free, and completions tell the truth.\<close>

definition dmaTracked :: "capture \<Rightarrow> act multiset \<Rightarrow> nat set \<Rightarrow> bool" where
  "dmaTracked c M R \<longleftrightarrow>
     (\<forall>d\<in>R. d < PHOTONIC_CAPTURE_FRAME_COUNT \<and> State (Frames c d) \<noteq> PhotonicFrameFree) \<and>
     (\<forall>d st. AttachComplete d st \<in># M \<longrightarrow> (NT_SUCCESS st \<longleftrightarrow> d \<in> R)) \<and>
     (\<forall>d st. DetachComplete d st \<in># M \<longrightarrow> NT_SUCCESS st \<longrightarrow> d \<notin> R)"

definition dataInv :: "capture \<Rightarrow> act multiset \<Rightarrow> nat multiset \<Rightarrow> nat multiset \<Rightarrow> nat set \<Rightarrow> bool" where
  "dataInv c M A D R \<longleftrightarrow>
     irpsCounted c M A D \<and> pumpElected c M \<and> framesPlaced c M A D \<and> lapsPrimed c M \<and> dmaTracked c M R"

section \<open>What the primitive updates change\<close>

lemma updFrame_view [simp]:
  "Frames (updFrame d f c) x = (if x = d then f (Frames c d) else Frames c x)"
  "FreeList (updFrame d f c) = FreeList c" "PendingList (updFrame d f c) = PendingList c"
  "InFlightIrps (updFrame d f c) = InFlightIrps c" "PumpActive (updFrame d f c) = PumpActive c"
  "Draining (updFrame d f c) = Draining c" "PumpAgain (updFrame d f c) = PumpAgain c"
  "Listening (updFrame d f c) = Listening c"
  by (simp_all add: updFrame_def)

lemma withState_simps [simp]:
  "State (Frames (withState d st c) x) = (if x = d then st else State (Frames c x))"
  "Cookie (Frames (withState d st c) x) = Cookie (Frames c x)"
  "FreeList (withState d st c) = FreeList c" "PendingList (withState d st c) = PendingList c"
  "InFlightIrps (withState d st c) = InFlightIrps c" "PumpActive (withState d st c) = PumpActive c"
  "Draining (withState d st c) = Draining c" "Listening (withState d st c) = Listening c"
  by (simp_all add: withState_def)

lemma recycleTail_simps [simp]:
  "State (Frames (recycleTail d c) x) = (if x = d then PhotonicFrameFree else State (Frames c x))"
  "Cookie (Frames (recycleTail d c) x) = (if x = d then 0 else Cookie (Frames c x))"
  "FreeList (recycleTail d c) = FreeList c @ [d]" "PendingList (recycleTail d c) = PendingList c"
  "InFlightIrps (recycleTail d c) = InFlightIrps c" "PumpActive (recycleTail d c) = PumpActive c"
  "Draining (recycleTail d c) = Draining c" "Listening (recycleTail d c) = Listening c"
  by (simp_all add: recycleTail_def)

lemma returnHead_simps [simp]:
  "State (Frames (returnHead d c) x) = (if x = d then PhotonicFrameFree else State (Frames c x))"
  "Cookie (Frames (returnHead d c) x) = Cookie (Frames c x)"
  "FreeList (returnHead d c) = d # FreeList c" "PendingList (returnHead d c) = PendingList c"
  "InFlightIrps (returnHead d c) = InFlightIrps c" "PumpActive (returnHead d c) = PumpActive c"
  "Draining (returnHead d c) = Draining c" "Listening (returnHead d c) = Listening c"
  by (simp_all add: returnHead_def)

lemma unlinkPending_simps [simp]:
  "Frames (unlinkPending d c) = Frames c" "FreeList (unlinkPending d c) = FreeList c"
  "PendingList (unlinkPending d c) = remove1 d (PendingList c)"
  "InFlightIrps (unlinkPending d c) = InFlightIrps c" "PumpActive (unlinkPending d c) = PumpActive c"
  "Draining (unlinkPending d c) = Draining c" "Listening (unlinkPending d c) = Listening c"
  by (simp_all add: unlinkPending_def)

lemma claimDetach_simps [simp]:
  "State (Frames (claimDetach d st c) x) = (if x = d then PhotonicFrameDetaching else State (Frames c x))"
  "Cookie (Frames (claimDetach d st c) x) = Cookie (Frames c x)"
  "FreeList (claimDetach d st c) = FreeList c" "PendingList (claimDetach d st c) = remove1 d (PendingList c)"
  "InFlightIrps (claimDetach d st c) = InFlightIrps c" "PumpActive (claimDetach d st c) = PumpActive c"
  "Draining (claimDetach d st c) = Draining c" "Listening (claimDetach d st c) = Listening c"
  by (simp_all add: claimDetach_def)

lemma Prime_simps [simp]:
  "State (Frames (PhotonicCapturePumpPrime d k m c) x) = State (Frames c x)"
  "Cookie (Frames (PhotonicCapturePumpPrime d k m c) x) = (if x = d then k else Cookie (Frames c x))"
  "FreeList (PhotonicCapturePumpPrime d k m c) = FreeList c"
  "PendingList (PhotonicCapturePumpPrime d k m c) = PendingList c"
  "InFlightIrps (PhotonicCapturePumpPrime d k m c) = InFlightIrps c"
  "PumpActive (PhotonicCapturePumpPrime d k m c) = PumpActive c"
  "Draining (PhotonicCapturePumpPrime d k m c) = Draining c"
  "Listening (PhotonicCapturePumpPrime d k m c) = Listening c"
  by (simp_all add: PhotonicCapturePumpPrime_def)

lemma removed_once [simp]: "count (mset xs) d = Suc 0 \<Longrightarrow> d \<notin> set (remove1 d xs)"
  by (metis One_nat_def count_diff count_mset_0_iff count_single diff_Suc_1 mset_remove1)

section \<open>Moving one descriptor\<close>

definition placeAt ::
  "nat \<Rightarrow> capture \<Rightarrow> act multiset \<Rightarrow> nat multiset \<Rightarrow> nat multiset \<Rightarrow> bool" where
  "placeAt d c M A D \<longleftrightarrow>
     count (mset (FreeList c)) d + weigh (lapTok d) M = inState {PhotonicFrameFree} c d \<and>
     count (mset (PendingList c)) d =
       inState {PhotonicFrameAttaching, PhotonicFrameCompletedWhileAttaching, PhotonicFramePending} c d \<and>
     count A d + weigh (attTok d) M =
       inState {PhotonicFrameAttaching, PhotonicFrameCompletedWhileAttaching} c d \<and>
     count D d + weigh (detTok d) M = inState {PhotonicFrameDetaching} c d"

lemma framesPlaced_iff: "framesPlaced c M A D \<longleftrightarrow> (\<forall>d. placeAt d c M A D)"
  by (simp add: framesPlaced_def placeAt_def)

lemma placeAt_cong:
  assumes "placeAt x c M A D" and "State (Frames c' x) = State (Frames c x)"
    and "count (mset (FreeList c')) x + weigh (lapTok x) M' = count (mset (FreeList c)) x + weigh (lapTok x) M"
    and "count (mset (PendingList c')) x = count (mset (PendingList c)) x"
    and "count A' x + weigh (attTok x) M' = count A x + weigh (attTok x) M"
    and "count D' x + weigh (detTok x) M' = count D x + weigh (detTok x) M"
  shows "placeAt x c' M' A' D'"
  using assms by (simp add: placeAt_def inState_def)

lemma framesPlaced_move:
  assumes "framesPlaced c M A D"
    and "placeAt d c M A D \<Longrightarrow> placeAt d c' M' A' D'"
    and "\<And>x. x \<noteq> d \<Longrightarrow> State (Frames c' x) = State (Frames c x)"
    and "\<And>x. x \<noteq> d \<Longrightarrow> count (mset (FreeList c')) x + weigh (lapTok x) M' = count (mset (FreeList c)) x + weigh (lapTok x) M"
    and "\<And>x. x \<noteq> d \<Longrightarrow> count (mset (PendingList c')) x = count (mset (PendingList c)) x"
    and "\<And>x. x \<noteq> d \<Longrightarrow> count A' x + weigh (attTok x) M' = count A x + weigh (attTok x) M"
    and "\<And>x. x \<noteq> d \<Longrightarrow> count D' x + weigh (detTok x) M' = count D x + weigh (detTok x) M"
  shows "framesPlaced c' M' A' D'"
  unfolding framesPlaced_iff
proof
  fix x
  show "placeAt x c' M' A' D'"
  proof (cases "x = d")
    case True
    then show ?thesis
      using assms(1,2) by (simp add: framesPlaced_iff)
  next
    case False
    have "placeAt x c M A D"
      using assms(1) by (simp add: framesPlaced_iff)
    then show ?thesis
      by (rule placeAt_cong [OF _ assms(3) assms(4) assms(5) assms(6) assms(7)]) (simp_all add: False)
  qed
qed

text \<open>The states in which an owned descriptor can be.\<close>

lemma owned_lap:
  "placeAt d c (add_mset a M) A D \<Longrightarrow> lapTok d a \<noteq> 0 \<Longrightarrow>
   d < PHOTONIC_CAPTURE_FRAME_COUNT \<and> State (Frames c d) = PhotonicFrameFree"
  by (simp add: placeAt_def inState_def of_bool_def split: if_splits)

lemma owned_att:
  "placeAt d c (add_mset a M) A D \<Longrightarrow> attTok d a \<noteq> 0 \<Longrightarrow>
   d < PHOTONIC_CAPTURE_FRAME_COUNT \<and>
   State (Frames c d) \<in> {PhotonicFrameAttaching, PhotonicFrameCompletedWhileAttaching}"
  by (simp add: placeAt_def inState_def of_bool_def split: if_splits)

lemma owned_det:
  "placeAt d c (add_mset a M) A D \<Longrightarrow> detTok d a \<noteq> 0 \<Longrightarrow>
   d < PHOTONIC_CAPTURE_FRAME_COUNT \<and> State (Frames c d) = PhotonicFrameDetaching"
  by (simp add: placeAt_def inState_def of_bool_def split: if_splits)

lemma placed_AttachComplete:
  assumes "framesPlaced c (add_mset (AttachComplete d st) M) A D"
    and "PhotonicCapturePumpAttachComplete d st c = (as, c')"
  shows "framesPlaced c' (mset as + M) A D"
proof (rule framesPlaced_move [OF assms(1), of d])
  assume p: "placeAt d c (add_mset (AttachComplete d st) M) A D"
  show "placeAt d c' (mset as + M) A D"
    using p owned_att [OF p] assms(2)
    by (auto simp: PhotonicCapturePumpAttachComplete_def Let_def placeAt_def inState_def split: if_splits)
qed (use assms(2) in \<open>auto simp: PhotonicCapturePumpAttachComplete_def Let_def split: if_splits\<close>)

lemma placed_DetachComplete:
  assumes "framesPlaced c (add_mset (DetachComplete d st) M) A D"
    and "PhotonicCapturePumpDetachComplete d st c = (as, c')"
  shows "framesPlaced c' (mset as + M) A D"
proof (rule framesPlaced_move [OF assms(1), of d])
  assume p: "placeAt d c (add_mset (DetachComplete d st) M) A D"
  show "placeAt d c' (mset as + M) A D"
    using p owned_det [OF p] assms(2)
    by (auto simp: PhotonicCapturePumpDetachComplete_def Let_def placeAt_def inState_def split: if_splits)
qed (use assms(2) in \<open>auto simp: PhotonicCapturePumpDetachComplete_def Let_def split: if_splits\<close>)

text \<open>The frame callback finds its descriptor in whatever state it is.\<close>

lemma placed_Callback:
  assumes "framesPlaced c M A D" and "PhotonicCapturePumpIsochCallback d c = (as, c')"
    and "d < PHOTONIC_CAPTURE_FRAME_COUNT"
  shows "framesPlaced c' (mset as + M) A D"
proof (rule framesPlaced_move [OF assms(1), of d])
  assume p: "placeAt d c M A D"
  show "placeAt d c' (mset as + M) A D"
    using p assms(2,3)
    by (cases "State (Frames c d)")
      (auto simp: PhotonicCapturePumpIsochCallback_def placeAt_def inState_def)
qed (use assms(2) in \<open>auto simp: PhotonicCapturePumpIsochCallback_def split: frame_state.splits\<close>)

lemma framesPlaced_cong:
  assumes "framesPlaced c M A D" and "\<And>x. State (Frames c' x) = State (Frames c x)"
    and "\<And>x. count (mset (FreeList c')) x + weigh (lapTok x) M' = count (mset (FreeList c)) x + weigh (lapTok x) M"
    and "\<And>x. count (mset (PendingList c')) x = count (mset (PendingList c)) x"
    and "\<And>x. count A' x + weigh (attTok x) M' = count A x + weigh (attTok x) M"
    and "\<And>x. count D' x + weigh (detTok x) M' = count D x + weigh (detTok x) M"
  shows "framesPlaced c' M' A' D'"
  using assms(1) unfolding framesPlaced_iff
  by (auto intro: placeAt_cong [OF _ assms(2-6)])

lemma lapClaim_cases:
  assumes "lapClaim i c = (as, c')"
  shows "as = [PumpFinish] \<and> c' = c \<or>
    (\<exists>d rest. FreeList c = d # rest \<and> \<not> Draining c \<and> as = [LapAcquire i d] \<and> c' = c\<lparr>FreeList := rest\<rparr>)"
  using assms by (simp add: lapClaim_def split: if_splits list.splits)

lemma lapAcquired_cases:
  assumes "lapAcquired i d r c = (as, c')"
  shows "r = None \<and> as = [LapEmpty d] \<and> c' = c \<or>
    (\<exists>k m. r = Some (k, m) \<and> as = [LapReject i d k] \<and> c' = c) \<or>
    (\<exists>k m. r = Some (k, Some m) \<and> as = [LapPublish i d k] \<and> FrameBytes c \<le> mdlByteCount m \<and>
       c' = PhotonicCapturePumpPrime d k m c)"
  using assms by (auto simp: lapAcquired_def split: if_splits option.splits prod.splits)

lemma placed_lapClaim:
  assumes "framesPlaced c (add_mset (LapClaim i) M) A D" and "lapClaim i c = (as, c')"
  shows "framesPlaced c' (mset as + M) A D"
  using lapClaim_cases [OF assms(2)]
proof (elim disjE exE)
  assume "as = [PumpFinish] \<and> c' = c"
  then show ?thesis
    by (intro framesPlaced_cong [OF assms(1)]) simp_all
next
  fix d rest
  assume "FreeList c = d # rest \<and> \<not> Draining c \<and> as = [LapAcquire i d] \<and> c' = c\<lparr>FreeList := rest\<rparr>"
  then show ?thesis
    by (intro framesPlaced_cong [OF assms(1)]) simp_all
qed

lemma placed_lapAcquired:
  assumes "framesPlaced c (add_mset (LapAcquire i d) M) A D" and "lapAcquired i d r c = (as, c')"
  shows "framesPlaced c' (mset as + M) A D"
  using lapAcquired_cases [OF assms(2)]
  by (elim disjE exE conjE; intro framesPlaced_cong [OF assms(1)]) simp_all

lemma placed_lapEmpty:
  assumes "framesPlaced c (add_mset (LapEmpty d) M) A D" and "lapEmpty d c = (as, c')"
  shows "framesPlaced c' (mset as + M) A D"
proof (rule framesPlaced_move [OF assms(1), of d])
  assume p: "placeAt d c (add_mset (LapEmpty d) M) A D"
  show "placeAt d c' (mset as + M) A D"
    using p owned_lap [OF p] assms(2) by (auto simp: lapEmpty_def placeAt_def inState_def)
qed (use assms(2) in \<open>auto simp: lapEmpty_def\<close>)

lemma placed_lapReject:
  assumes "framesPlaced c (add_mset (LapReject i d k) M) A D" and "lapReject i d k c = (as, c')"
  shows "framesPlaced c' (mset as + M) A D"
proof (rule framesPlaced_move [OF assms(1), of d])
  assume p: "placeAt d c (add_mset (LapReject i d k) M) A D"
  show "placeAt d c' (mset as + M) A D"
    using p owned_lap [OF p] assms(2) by (auto simp: lapReject_def placeAt_def inState_def)
qed (use assms(2) in \<open>auto simp: lapReject_def\<close>)

lemma placed_lapPublish:
  assumes "framesPlaced c (add_mset (LapPublish i d k) M) A D" and "lapPublish i d k c = (as, c')"
  shows "framesPlaced c' (mset as + M) A D"
proof (rule framesPlaced_move [OF assms(1), of d])
  assume p: "placeAt d c (add_mset (LapPublish i d k) M) A D"
  show "placeAt d c' (mset as + M) A D"
    using p owned_lap [OF p] assms(2)
    by (auto simp: lapPublish_def placeAt_def inState_def split: if_splits)
qed (use assms(2) in \<open>auto simp: lapPublish_def split: if_splits\<close>)

section \<open>The other invariants, section by section\<close>

lemma lap_owner:
  assumes "framesPlaced c M A D" and "a \<in># M" and "lapTok d a \<noteq> 0"
  shows "d < PHOTONIC_CAPTURE_FRAME_COUNT \<and> State (Frames c d) = PhotonicFrameFree"
proof -
  obtain N where "M = add_mset a N"
    using assms(2) by (metis multi_member_split)
  then show ?thesis
    using assms owned_lap [of d c a N A D] by (simp add: framesPlaced_iff)
qed

lemma lap_unique:
  assumes "framesPlaced c (add_mset a M) A D" and "lapTok d a \<noteq> 0" and "b \<in># M"
  shows "lapTok d b = 0"
proof -
  have "placeAt d c (add_mset a M) A D"
    using assms(1) by (simp add: framesPlaced_iff)
  then have "weigh (lapTok d) M = 0"
    using assms(2) by (simp add: placeAt_def inState_def of_bool_def split: if_splits)
  then show ?thesis
    using weigh_member [OF assms(3), of "lapTok d"] by simp
qed

lemma owner_state:
  assumes "framesPlaced c (add_mset a M) A D"
  shows "lapTok d a \<noteq> 0 \<Longrightarrow> State (Frames c d) = PhotonicFrameFree"
    and "attTok d a \<noteq> 0 \<Longrightarrow>
      State (Frames c d) \<in> {PhotonicFrameAttaching, PhotonicFrameCompletedWhileAttaching}"
    and "detTok d a \<noteq> 0 \<Longrightarrow> State (Frames c d) = PhotonicFrameDetaching"
  using assms owned_lap [of d c a M A D] owned_att [of d c a M A D] owned_det [of d c a M A D]
  by (simp_all add: framesPlaced_iff)

text \<open>A lap holding a read is the only owner of its descriptor, so no other section touches it.\<close>

lemma primed_keep:
  assumes "lapsPrimed c M" and "framesPlaced c M A D"
    and "\<And>d. State (Frames c d) = PhotonicFrameFree \<Longrightarrow> Cookie (Frames c' d) = Cookie (Frames c d)"
    and "\<And>a. a \<in># M' \<Longrightarrow> a \<in># M \<or> (\<forall>i d k. a \<noteq> LapPublish i d k)"
  shows "lapsPrimed c' M'"
  unfolding lapsPrimed_def
proof (intro allI impI)
  fix i d k
  assume "LapPublish i d k \<in># M'"
  then have m: "LapPublish i d k \<in># M"
    using assms(4) by blast
  then have "State (Frames c d) = PhotonicFrameFree"
    using lap_owner [OF assms(2), of "LapPublish i d k" d] by simp
  then show "Cookie (Frames c' d) = k"
    using assms(1,3) m by (simp add: lapsPrimed_def)
qed

lemma primed_lapAcquired:
  assumes "lapsPrimed c (add_mset (LapAcquire i d) M)" and "framesPlaced c (add_mset (LapAcquire i d) M) A D"
    and "lapAcquired i d r c = (as, c')"
  shows "lapsPrimed c' (mset as + M)"
proof -
  have other: "x \<noteq> d" if "LapPublish j x k \<in># M" for j x k
    using lap_unique [OF assms(2) _ that, of d] by auto
  have "Cookie (Frames c' x) = Cookie (Frames c x)" if "x \<noteq> d" for x
    using lapAcquired_cases [OF assms(3)] that by auto
  then show ?thesis
    using assms(1) other lapAcquired_cases [OF assms(3)]
    by (auto simp: lapsPrimed_def)
qed

text \<open>DMA tracking survives a section that frees only unmapped descriptors.\<close>

lemma dma_keep:
  assumes "dmaTracked c M R"
    and "\<And>d. State (Frames c d) \<noteq> PhotonicFrameFree \<Longrightarrow> d \<in> R \<Longrightarrow> State (Frames c' d) \<noteq> PhotonicFrameFree"
    and "\<And>a. a \<in># M' \<Longrightarrow> a \<in># M \<or> (\<forall>d st. a \<noteq> AttachComplete d st \<and> a \<noteq> DetachComplete d st)"
  shows "dmaTracked c' M' R"
  using assms(1,2) assms(3) [of "AttachComplete _ _"] assms(3) [of "DetachComplete _ _"]
  unfolding dmaTracked_def by blast

end
