(* ===== verification/Capture_Front.thy ===== *)
theory Capture_Front
  imports Capture_Account
begin

text \<open>
  The contract between the engine and its front-end, as a locale: what the acquire and delivery
  callbacks, the drain and the front-end's own steps promise about the reads they hold.  A read is
  a cookie: the SRB of a read of the stream interface, the ring index of the IOCTL interface.
  \<open>held\<close> are the reads a step that has not run yet carries, \<open>ok\<close> the collections of reads the
  front-end can be given.  Inside the locale, the accounting invariants are carried over every act
  a thread can perform.
\<close>

section \<open>The contract\<close>

fun frontAct :: "act \<Rightarrow> bool" where
  "frontAct PumpElect = True"
| "frontAct RequestWork = True"
| "frontAct SetCancel = True"
| "frontAct (Front s k) = True"
| "frontAct _ = False"

locale front_end =
  fixes fe :: "'f front"
    and reads :: "'f \<Rightarrow> nat multiset"
    and inv :: "'f \<Rightarrow> bool"
    and held :: "front_step \<Rightarrow> nat \<Rightarrow> nat multiset"
    and ok :: "nat multiset \<Rightarrow> bool"
  assumes acquire_some: "inv f \<Longrightarrow> feAcquire fe s f = (Some (k, m), f') \<Longrightarrow>
      inv f' \<and> reads f = reads f' + {#k#}"
    and acquire_none: "inv f \<Longrightarrow> feAcquire fe s f = (None, f') \<Longrightarrow> inv f' \<and> reads f = reads f'"
    and ok_mono: "ok M \<Longrightarrow> N \<subseteq># M \<Longrightarrow> ok N"
    and deliver: "inv f \<Longrightarrow> ok (add_mset k (reads f)) \<Longrightarrow> inv (feDeliver fe s k b st f) \<and> reads (feDeliver fe s k b st f) = reads f + {#k#}"
    and drain: "inv f \<Longrightarrow> feDrain fe s f = Some f' \<Longrightarrow> inv f' \<and> reads f' = reads f"
    and step_acts: "feStep fe p k x s f = (as, f') \<Longrightarrow> list_all frontAct as"
    and step_reads: "inv f \<Longrightarrow> feStep fe p k x s f = (as, f') \<Longrightarrow>
      inv f' \<and> reads f' + weigh (readTok held) (mset as) = reads f + held p k"
    and ring_held: "held RequeueRing k = {#}" "held StartRing k = {#}"

lemma front_weightless:
  "list_all frontAct as \<Longrightarrow> weigh irpTok (mset as) = 0 \<and> weigh pumpTok (mset as) = 0 \<and>
     weigh (lapTok d) (mset as) = 0 \<and> weigh (attTok d) (mset as) = 0 \<and> weigh (detTok d) (mset as) = 0"
  by (induction as) (auto elim!: frontAct.elims)

lemma front_members:
  "list_all frontAct as \<Longrightarrow> LapPublish i d k \<notin> set as \<and> AttachComplete d st \<notin> set as \<and>
     DetachComplete d st \<notin> set as \<and> LeaveDataPath \<notin> set as"
  by (auto simp: list_all_iff)

lemmas exec_sections = onEng_def requestWork_def queueWork_def irpDone_def drainTest_def pumpElect_def
  pumpClear_def pumpFinish_def PhotonicStreamLeaveDataPath_def Let_def

text \<open>The reads held by descriptors that are not free.\<close>

definition frameRead :: "capture \<Rightarrow> nat \<Rightarrow> nat multiset" where
  "frameRead c d = (if State (Frames c d) = PhotonicFrameFree then {#} else {#Cookie (Frames c d)#})"

definition frameReads :: "capture \<Rightarrow> nat multiset" where
  "frameReads c = (\<Sum>d\<in>{0..<PHOTONIC_CAPTURE_FRAME_COUNT}. frameRead c d)"

lemma frameReads_move:
  assumes "d < PHOTONIC_CAPTURE_FRAME_COUNT" and "\<And>x. x \<noteq> d \<Longrightarrow> frameRead c' x = frameRead c x"
  shows "frameReads c' + frameRead c d = frameReads c + frameRead c' d"
proof -
  let ?S = "{0..<PHOTONIC_CAPTURE_FRAME_COUNT} - {d}"
  have split: "frameReads e = frameRead e d + (\<Sum>x\<in>?S. frameRead e x)" for e
    unfolding frameReads_def using assms(1) by (intro sum.remove) auto
  have "(\<Sum>x\<in>?S. frameRead c' x) = (\<Sum>x\<in>?S. frameRead c x)"
    using assms(2) by (intro sum.cong) auto
  then show ?thesis
    by (simp add: split [of c] split [of c'])
qed

lemma frameReads_cong: "(\<And>x. frameRead c' x = frameRead c x) \<Longrightarrow> frameReads c' = frameReads c"
  by (simp add: frameReads_def)

context front_end
begin

section \<open>Every act keeps the accounts\<close>

lemma exec_irps:
  assumes "exec ev fe a w = (as, w')"
    and "irpsCounted (wEng w) (add_mset a M) (mset (wAttach w)) (mset (wDetach w))"
  shows "irpsCounted (wEng w') (mset as + M) (mset (wAttach w')) (mset (wDetach w'))"
  using assms
  by (cases a)
    (auto simp: irpsCounted_def exec_sections PhotonicCapturePumpAttachComplete_def
      PhotonicCapturePumpDetachComplete_def lapEmpty_def lapReject_def lapPublish_def
      dest!: lapClaim_cases lapAcquired_cases step_acts front_weightless
      split: prod.splits if_splits)

lemma exec_pump:
  assumes "exec ev fe a w = (as, w')" and "pumpElected (wEng w) (add_mset a M)"
  shows "pumpElected (wEng w') (mset as + M)"
  using assms
  by (cases a)
    (auto simp: pumpElected_def of_bool_def exec_sections PhotonicCapturePumpAttachComplete_def
      PhotonicCapturePumpDetachComplete_def lapEmpty_def lapReject_def lapPublish_def
      dest!: lapClaim_cases lapAcquired_cases step_acts front_weightless
      split: prod.splits if_splits)

lemma quiet_placed:
  assumes "framesPlaced c (add_mset a M) A D"
    and "\<And>x. lapTok x a = 0 \<and> attTok x a = 0 \<and> detTok x a = 0"
    and "\<And>x. weigh (lapTok x) (mset as) = 0 \<and> weigh (attTok x) (mset as) = 0 \<and> weigh (detTok x) (mset as) = 0"
    and "Frames c' = Frames c" "FreeList c' = FreeList c" "PendingList c' = PendingList c"
  shows "framesPlaced c' (mset as + M) A D"
  using assms by (intro framesPlaced_cong [OF assms(1)]) simp_all

lemma exec_placed:
  assumes "exec ev fe a w = (as, w')"
    and "framesPlaced (wEng w) (add_mset a M) (mset (wAttach w)) (mset (wDetach w))"
  shows "framesPlaced (wEng w') (mset as + M) (mset (wAttach w')) (mset (wDetach w'))"
proof (cases a)
  case (BusAttach d)
  then show ?thesis
    using assms by (intro framesPlaced_cong [OF assms(2)]) auto
next
  case (BusDetach d)
  then show ?thesis
    using assms by (intro framesPlaced_cong [OF assms(2)]) auto
next
  case (AttachComplete d st)
  then show ?thesis
    using assms placed_AttachComplete by (auto simp: onEng_def split: prod.splits)
next
  case (DetachComplete d st)
  then show ?thesis
    using assms placed_DetachComplete by (auto simp: onEng_def split: prod.splits)
next
  case (LapClaim i)
  then show ?thesis
    using assms placed_lapClaim by (auto simp: onEng_def split: prod.splits)
next
  case (LapAcquire i d)
  then show ?thesis
    using assms placed_lapAcquired by (auto simp: onEng_def split: prod.splits)
next
  case (LapEmpty d)
  then show ?thesis
    using assms placed_lapEmpty by (auto simp: onEng_def split: prod.splits)
next
  case (LapReject i d k)
  then show ?thesis
    using assms placed_lapReject by (auto simp: onEng_def split: prod.splits)
next
  case (LapPublish i d k)
  then show ?thesis
    using assms placed_lapPublish by (auto simp: onEng_def split: prod.splits)
next
  case (Front p k)
  then have fr: "list_all frontAct as" and w': "wEng w' = wEng w" "wAttach w' = wAttach w" "wDetach w' = wDetach w"
    using assms(1) step_acts by (auto split: prod.splits)
  show ?thesis
    unfolding w' using Front
    by (intro quiet_placed [OF assms(2)]) (simp_all add: front_weightless [OF fr])
qed (rule framesPlaced_cong [OF assms(2)];
      use assms(1) in \<open>auto simp: exec_sections split: prod.splits if_splits\<close>)+

lemma exec_primed:
  assumes "exec ev fe a w = (as, w')" and "lapsPrimed (wEng w) (add_mset a M)"
    and "framesPlaced (wEng w) (add_mset a M) A D"
  shows "lapsPrimed (wEng w') (mset as + M)"
proof (cases a)
  case (LapAcquire i d)
  then show ?thesis
    using assms primed_lapAcquired by (auto simp: onEng_def split: prod.splits)
next
  case (Front p k)
  then have fr: "list_all frontAct as" and w': "wEng w' = wEng w"
    using assms(1) step_acts by (auto split: prod.splits)
  show ?thesis
    unfolding w' using front_members [OF fr] by (intro primed_keep [OF assms(2,3)]) fastforce+
qed (rule primed_keep [OF assms(2,3)];
      use assms(1) owner_state [OF assms(3)] in \<open>auto simp: exec_sections PhotonicCapturePumpAttachComplete_def
        PhotonicCapturePumpDetachComplete_def lapEmpty_def lapReject_def lapPublish_def
        dest!: lapClaim_cases split: prod.splits if_splits\<close>)+

lemma exec_dma:
  assumes "exec ev fe a w = (as, w')" and "dmaTracked (wEng w) (add_mset a M) R"
    and "framesPlaced (wEng w) (add_mset a M) A D"
  shows "dmaTracked (wEng w') (mset as + M) R"
proof (cases a)
  case (Front p k)
  then have fr: "list_all frontAct as" and w': "wEng w' = wEng w"
    using assms(1) step_acts by (auto split: prod.splits)
  show ?thesis
    unfolding w' using front_members [OF fr] by (intro dma_keep [OF assms(2)]) fastforce+
qed (rule dma_keep [OF assms(2)];
      use assms(1) assms(2) [unfolded dmaTracked_def] owner_state [OF assms(3)] in \<open>auto simp: exec_sections
        PhotonicCapturePumpAttachComplete_def
        PhotonicCapturePumpDetachComplete_def lapEmpty_def lapReject_def lapPublish_def
        dest!: lapClaim_cases lapAcquired_cases split: prod.splits if_splits\<close>)+

text \<open>Reads with the front-end, in descriptors and in the hands of threads.\<close>

definition allReads :: "capture \<Rightarrow> 'f \<Rightarrow> act multiset \<Rightarrow> nat multiset" where
  "allReads c f M = reads f + frameReads c + weigh (readTok held) M"

lemma exec_reads:
  assumes "exec ev fe a w = (as, w')" and "framesPlaced (wEng w) (add_mset a M) A D"
    and "lapsPrimed (wEng w) (add_mset a M)" and "inv (wFe w)" and "ok (allReads (wEng w) (wFe w) (add_mset a M))"
  shows "allReads (wEng w') (wFe w') (mset as + M) = allReads (wEng w) (wFe w) (add_mset a M)"
proof -
  have carried: "ok (add_mset k (reads (wFe w)))" if "a = Deliver k b st" for k b st
    by (rule ok_mono [OF assms(5)]) (simp add: allReads_def that)
  have place: "placeAt d (wEng w) (add_mset a M) A D" for d
    using assms(2) by (simp add: framesPlaced_iff)
  note move = frameReads_move [of _ "wEng w'" "wEng w"]
  show ?thesis
  proof (cases a)
    case (AttachComplete d st)
    then have own: "d < 4" "State (Frames (wEng w) d) \<in> {PhotonicFrameAttaching, PhotonicFrameCompletedWhileAttaching}"
      using owned_att [OF place [of d]] by simp_all
    show ?thesis
      using assms(1) own AttachComplete move [of d]
      by (auto simp: allReads_def onEng_def frameRead_def PhotonicCapturePumpAttachComplete_def Let_def
          split: if_splits)
  next
    case (DetachComplete d st)
    then have own: "d < 4" "State (Frames (wEng w) d) = PhotonicFrameDetaching"
      using owned_det [OF place [of d]] by simp_all
    show ?thesis
      using assms(1) own DetachComplete move [of d]
      by (auto simp: allReads_def onEng_def frameRead_def PhotonicCapturePumpDetachComplete_def Let_def
          split: if_splits)
  next
    case (LapPublish i d k)
    then have own: "d < 4" "State (Frames (wEng w) d) = PhotonicFrameFree" "Cookie (Frames (wEng w) d) = k"
      using owned_lap [OF place [of d]] assms(3) by (simp_all add: lapsPrimed_def)
    show ?thesis
      using assms(1) own LapPublish move [of d]
      by (auto simp: allReads_def onEng_def frameRead_def lapPublish_def Let_def split: if_splits)
  next
    case (LapAcquire i d)
    then have own: "State (Frames (wEng w) d) = PhotonicFrameFree"
      using owned_lap [OF place [of d]] by simp
    obtain r f where r: "feAcquire fe (wStream w) (wFe w) = (r, f)"
      by (cases "feAcquire fe (wStream w) (wFe w)")
    obtain c where c: "lapAcquired i d r (wEng w) = (as, c)" and w': "w' = w\<lparr>wFe := f, wEng := c\<rparr>"
      using assms(1) r LapAcquire by (auto simp: onEng_def split: prod.splits)
    have "frameReads c = frameReads (wEng w)"
      using lapAcquired_cases [OF c] own by (intro frameReads_cong) (auto simp: frameRead_def)
    then show ?thesis
      using lapAcquired_cases [OF c] acquire_some [OF assms(4)] acquire_none [OF assms(4)] r LapAcquire
      by (auto simp: allReads_def w')
  next
    case (Front p k)
    then show ?thesis
      using assms(1) step_reads [OF assms(4)] by (auto simp: allReads_def split: prod.splits)
  next
    case (LapEmpty d)
    then have own: "State (Frames (wEng w) d) = PhotonicFrameFree"
      using owned_lap [OF place [of d]] by simp
    have "frameReads (wEng w') = frameReads (wEng w)"
      using assms(1) own LapEmpty by (intro frameReads_cong) (auto simp: onEng_def lapEmpty_def frameRead_def split: if_splits)
    then show ?thesis
      using assms(1) LapEmpty by (auto simp: allReads_def onEng_def lapEmpty_def)
  next
    case (LapReject i d k)
    then have own: "State (Frames (wEng w) d) = PhotonicFrameFree"
      using owned_lap [OF place [of d]] by simp
    have "frameReads (wEng w') = frameReads (wEng w)"
      using assms(1) own LapReject by (intro frameReads_cong) (auto simp: onEng_def lapReject_def frameRead_def split: if_splits)
    then show ?thesis
      using assms(1) LapReject by (auto simp: allReads_def onEng_def lapReject_def)
  qed (use assms(1) deliver [OF assms(4) carried] in \<open>auto simp: allReads_def exec_sections frameRead_def
      intro!: frameReads_cong dest!: lapClaim_cases split: prod.splits if_splits\<close>)
qed

lemma exec_inv:
  assumes "exec ev fe a w = (as, w')" and "inv (wFe w)" and "ok (allReads (wEng w) (wFe w) (add_mset a M))"
  shows "inv (wFe w')"
proof (cases a)
  case (Deliver k b st)
  have "ok (add_mset k (reads (wFe w)))"
    by (rule ok_mono [OF assms(3)]) (simp add: allReads_def Deliver)
  then show ?thesis
    using assms(1) deliver [OF assms(2)] Deliver by auto
next
  case (LapAcquire i d)
  then show ?thesis
    using assms acquire_some [OF assms(2)] acquire_none [OF assms(2)]
    by (auto simp: onEng_def split: prod.splits) (metis not_None_eq old.prod.exhaust)
next
  case (Front p k)
  then show ?thesis
    using assms step_reads [OF assms(2)] by (auto split: prod.splits)
qed (use assms(1,2) in \<open>auto simp: exec_sections split: prod.splits if_splits\<close>)

end

end
