(* ===== verification/Capture_World.thy ===== *)
theory Capture_World
  imports Capture_Front
begin

text \<open>
  The accounting invariants on worlds: what a control step and a bus event do to the engine, and
  the induction that carries the invariants over every reachable world.
\<close>

section \<open>What the data plane sees of the engine\<close>

definition engView where
  "engView c = (\<lambda>d. State (Frames c d), \<lambda>d. Cookie (Frames c d), FreeList c, PendingList c,
     InFlightIrps c, PumpActive c, Draining c)"

lemma engView_fields:
  assumes "engView c' = engView c"
  shows "State (Frames c' d) = State (Frames c d)" "Cookie (Frames c' d) = Cookie (Frames c d)"
    "FreeList c' = FreeList c" "PendingList c' = PendingList c" "InFlightIrps c' = InFlightIrps c"
    "PumpActive c' = PumpActive c" "Draining c' = Draining c"
  using assms by (auto simp: engView_def dest: fun_cong)

lemma inState_view: "engView c' = engView c \<Longrightarrow> inState S c' d = inState S c d"
  by (drule engView_fields(1) [of _ _ d]) (simp add: inState_def)

lemma dataInv_view:
  assumes "engView c' = engView c"
  shows "irpsCounted c' M A D = irpsCounted c M A D" "pumpElected c' M = pumpElected c M"
    "framesPlaced c' M A D = framesPlaced c M A D" "lapsPrimed c' M = lapsPrimed c M"
    "dmaTracked c' M R = dmaTracked c M R" "frameReads c' = frameReads c"
proof -
  have "frameRead c' d = frameRead c d" for d
    by (simp add: frameRead_def engView_fields [OF assms])
  then show "frameReads c' = frameReads c"
    by (rule frameReads_cong)
qed (simp_all add: irpsCounted_def pumpElected_def framesPlaced_def lapsPrimed_def dmaTracked_def
      inState_view [OF assms] engView_fields [OF assms])

lemma engView_simps [simp]:
  "engView (c\<lparr>PumpAgain := b\<rparr>) = engView c" "engView (c\<lparr>DrainDone := b\<rparr>) = engView c"
  "engView (c\<lparr>FirstAttachDone := b\<rparr>) = engView c" "engView (c\<lparr>Listening := b\<rparr>) = engView c"
  "engView (c\<lparr>IsoEnabled := b\<rparr>) = engView c" "engView (c\<lparr>EnableWanted := b\<rparr>) = engView c"
  "engView (c\<lparr>ControlRetries := n\<rparr>) = engView c" "engView (c\<lparr>CancelPending := b\<rparr>) = engView c"
  "engView (c\<lparr>FrameBytes := n\<rparr>) = engView c" "engView (c\<lparr>BytesPerPacket := n\<rparr>) = engView c"
  "engView (c\<lparr>PacketsPerFrame := n\<rparr>) = engView c" "engView (c\<lparr>ChunkBytes := n\<rparr>) = engView c"
  "engView (c\<lparr>ChunkCount := n\<rparr>) = engView c" "engView (c\<lparr>Channel := n\<rparr>) = engView c"
  "engView (c\<lparr>BandwidthHandle := h\<rparr>) = engView c" "engView (c\<lparr>ResourceHandle := h\<rparr>) = engView c"
  "engView (c\<lparr>ChannelAllocated := b\<rparr>) = engView c" "engView (c\<lparr>BandwidthAllocated := b\<rparr>) = engView c"
  "engView (c\<lparr>ResourceAllocated := b\<rparr>) = engView c"
  by (simp_all add: engView_def)

lemma engView_upd:
  "(\<And>f. State (g f) = State f \<and> Cookie (g f) = Cookie f) \<Longrightarrow> engView (updFrame d g c) = engView c"
  by (auto simp: engView_def fun_eq_iff)

lemma engView_fold:
  "(\<And>i c. engView (g i c) = engView c) \<Longrightarrow> engView (fold g xs c) = engView c"
  by (induction xs arbitrary: c) simp_all

lemma view_PoolFree: "engView (PhotonicCapturePoolFree c) = engView c"
  unfolding PhotonicCapturePoolFree_def by (intro engView_fold engView_upd) simp

lemma view_FreeChunkMdls: "engView (PhotonicCapturePoolFreeChunkMdls c) = engView c"
  unfolding PhotonicCapturePoolFreeChunkMdls_def by (intro engView_fold engView_upd) simp

lemma view_allocChunks: "allocChunks ev i cs c b = ((ok, c'), b') \<Longrightarrow> engView c' = engView c"
  by (induction cs arbitrary: c b) (auto split: prod.splits bool.splits simp: engView_upd)

lemma view_allocFrames: "allocFrames ev n is c b = ((ok, c'), b') \<Longrightarrow> engView c' = engView c"
  by (induction "is" arbitrary: c b) (auto split: prod.splits bool.splits dest: view_allocChunks)

lemma view_SetupChunks:
  "PhotonicCapturePoolSetupChunks ev m c b = ((st, c'), b') \<Longrightarrow> engView c' = engView c"
  by (auto simp: PhotonicCapturePoolSetupChunks_def Let_def view_FreeChunkMdls
      split: sum.splits prod.splits bool.splits if_splits dest: view_allocFrames)

text \<open>Computations on the engine and its device that leave the data plane alone.\<close>

definition dataQuiet :: "('b eng \<Rightarrow> 'r \<times> 'b eng) \<Rightarrow> bool" where
  "dataQuiet m \<longleftrightarrow> (\<forall>e. engView (fst (snd (m e))) = engView (fst e))"

lemma quiet_thenStep: "dataQuiet m \<Longrightarrow> dataQuiet n \<Longrightarrow> dataQuiet (thenStep m n)"
  by (auto simp: dataQuiet_def thenStep_def split: prod.splits) (metis fst_conv snd_conv)+

lemma quiet_allocations:
  "dataQuiet (sessionChunks ev)" "dataQuiet (PhotonicCaptureResourceAllocateChannel ev)"
  "dataQuiet (setCameraChannel ev)" "dataQuiet (PhotonicCaptureResourceAllocateBandwidth ev f)"
  "dataQuiet (PhotonicCaptureResourceAllocateHandle ev f)"
  by (auto simp: dataQuiet_def sessionChunks_def PhotonicCaptureResourceAllocateChannel_def setCameraChannel_def
      PhotonicCaptureResourceAllocateBandwidth_def PhotonicCaptureResourceAllocateHandle_def
      split: prod.splits dest: view_SetupChunks)

lemma view_sessionResources: "sessionResources ev e = (st, e') \<Longrightarrow> engView (fst e') = engView (fst e)"
proof -
  assume a: "sessionResources ev e = (st, e')"
  have "dataQuiet (\<lambda>e0. thenStep (sessionChunks ev)
      (thenStep (PhotonicCaptureResourceAllocateChannel ev)
        (thenStep (setCameraChannel ev)
          (thenStep (PhotonicCaptureResourceAllocateBandwidth ev f)
            (PhotonicCaptureResourceAllocateHandle ev f)))) e0)" for f
    by (intro quiet_thenStep quiet_allocations)
  then show ?thesis
    using a unfolding sessionResources_def Let_def dataQuiet_def by (metis snd_conv)
qed

lemma view_bringUp:
  "bringUpSession ev (s, (c, d)) = (st, (s', (c', d'))) \<Longrightarrow> engView c' = engView c"
  by (auto simp: bringUpSession_def split: prod.splits sum.splits if_splits dest!: view_sessionResources)

lemma view_ReleaseIsoch:
  "PhotonicCaptureResourceReleaseIsoch ev (c, d) = (fl, (c', d')) \<Longrightarrow> engView c' = engView c"
  by (auto simp: PhotonicCaptureResourceReleaseIsoch_def freeHandle_def freeBandwidth_def freeChannel_def
      PhotonicCaptureResourceIsochStop_def Let_def split: prod.splits if_splits bool.splits)

lemma view_DisableCamera:
  "engView (fst (PhotonicCaptureTeardownDisableCamera ev s (c, d))) = engView c"
  by (simp add: PhotonicCaptureTeardownDisableCamera_def Let_def)

lemma view_startEnable: "startEnable ev ex s (c, d) = (cs, (c', d')) \<Longrightarrow> engView c' = engView c"
  by (auto simp: startEnable_def split: prod.splits sum.splits if_splits)

lemma view_workEnable: "engView (fst (workEnable ev (c, d))) = engView c"
  by (auto simp: workEnable_def split: prod.splits sum.splits)

lemma view_stopContext: "engView (wEng (stopContext ev w)) = engView (wEng w)"
  by (auto simp: stopContext_def setEng_def eng_def PhotonicCaptureResourceIsochStop_def split: prod.splits)

lemmas engine_views = view_FreeChunkMdls view_PoolFree view_DisableCamera view_workEnable view_stopContext

section \<open>Control steps\<close>

text \<open>
  Two control acts move a descriptor: the quiesce claims a pending one, the release frees a
  quarantined one.  Every other control act leaves the data plane alone but for Draining.
\<close>

definition sameBus :: "('b, 'f) world \<Rightarrow> ('b, 'f) world \<Rightarrow> bool" where
  "sameBus w w' \<longleftrightarrow> wThreads w' = wThreads w \<and> wAttach w' = wAttach w \<and> wDetach w' = wDetach w \<and>
     DataPathRefs (wGate w') = DataPathRefs (wGate w)"

lemma bus_quiesce: "quiesceStep ev a t w = Some (as, cs, w') \<Longrightarrow> sameBus w w'"
  by (cases a) (auto simp: sameBus_def stopContext_def setEng_def split: prod.splits if_splits)

lemma bus_release: "releaseStep ev a w = Some (as, cs, w') \<Longrightarrow> sameBus w w'"
  by (cases a) (auto simp: sameBus_def releaseIsoch_def setEng_def onEng_def split: prod.splits if_splits)

lemma bus_listen: "listenStep ev a t w = Some (as, cs, w') \<Longrightarrow> sameBus w w'"
  by (cases a) (auto simp: sameBus_def setEng_def split: prod.splits if_splits)

lemma bus_start: "startStep ev a w = Some (as, cs, w') \<Longrightarrow> sameBus w w'"
  by (cases a) (auto simp: sameBus_def setEng_def split: prod.splits if_splits)

lemma bus_stop: "stopStep ev fe a w = Some (as, cs, w') \<Longrightarrow> sameBus w w'"
  by (cases a) (auto simp: sameBus_def setEng_def split: prod.splits if_splits option.splits)

lemma bus_work: "workStep ev a w = Some (as, cs, w') \<Longrightarrow> sameBus w w'"
  by (cases a) (auto simp: sameBus_def setEng_def split: prod.splits if_splits)

lemma bus_close: "closeStep a w = Some (as, cs, w') \<Longrightarrow> sameBus w w'"
  by (cases a) (auto simp: sameBus_def closeBegin_def split: prod.splits if_splits)

lemma bus_ctl: "ctlStep ev fe c t w = Some (as, cs, w') \<Longrightarrow> sameBus w w'"
  by (cases c) (auto simp: sameBus_def dest: bus_quiesce bus_release bus_listen bus_start bus_stop
      bus_work bus_close)

text \<open>The engine as the data plane sees it, up to the Draining flag.\<close>

definition drainView :: "bool \<Rightarrow> capture \<Rightarrow> capture" where
  "drainView b c = c\<lparr>Draining := b\<rparr>"

definition quietEffect :: "('b, 'f) world \<Rightarrow> act list \<Rightarrow> ('b, 'f) world \<Rightarrow> bool" where
  "quietEffect w as w' \<longleftrightarrow>
     engView (drainView (Draining (wEng w')) (wEng w)) = engView (wEng w') \<and>
     (as = [] \<or> as = [PumpElect] \<or> as = [RequestWork])"

lemma drainView_same: "engView c' = engView c \<Longrightarrow> engView (drainView (Draining c') c) = engView c'"
  by (auto simp: engView_def drainView_def)

lemma quietEffectI:
  "engView (wEng w') = engView (wEng w) \<Longrightarrow> as = [] \<or> as = [PumpElect] \<or> as = [RequestWork] \<Longrightarrow>
   quietEffect w as w'"
  by (simp add: quietEffect_def drainView_same)

lemma quietEffect_drain:
  "wEng w' = (wEng w)\<lparr>Draining := b\<rparr> \<Longrightarrow> as = [] \<or> as = [PumpElect] \<or> as = [RequestWork] \<Longrightarrow>
   quietEffect w as w'"
  by (simp add: quietEffect_def engView_def drainView_def)

lemma quiet_quiesce:
  assumes "quiesceStep ev a t w = Some (as, cs, w')" and "a \<noteq> QClaim"
  shows "quietEffect w as w'"
proof (cases "a = QBegin")
  case True
  then have "wEng w' = (wEng w)\<lparr>Draining := Draining (wEng w')\<rparr>" "as = []"
    using assms(1) by (auto simp: quiesceBegin_def split: if_splits)
  then show ?thesis
    by (simp add: quietEffect_drain)
next
  case False
  then show ?thesis
    using assms by (cases a) (auto intro!: quietEffectI simp: view_stopContext split: if_splits)
qed

lemma quiet_release: "releaseStep ev a w = Some (as, cs, w') \<Longrightarrow> (\<And>i. a \<noteq> RelFrame i) \<Longrightarrow> quietEffect w as w'"
  by (cases a) (auto intro!: quietEffectI simp: releaseIsoch_def setEng_def eng_def view_FreeChunkMdls
      split: prod.splits if_splits dest: view_ReleaseIsoch)

lemma quiet_listen: "listenStep ev a t w = Some (as, cs, w') \<Longrightarrow> quietEffect w as w'"
  by (cases a) (auto intro!: quietEffectI split: prod.splits if_splits)

lemma quiet_start: "startStep ev a w = Some (as, cs, w') \<Longrightarrow> quietEffect w as w'"
  by (cases a) (auto intro!: quietEffectI simp: setEng_def eng_def split: prod.splits
      dest: view_bringUp view_startEnable simp: startOpen_def quietEffect_def engView_def drainView_def)

lemma quiet_stop: "stopStep ev fe a w = Some (as, cs, w') \<Longrightarrow> quietEffect w as w'"
  by (cases a) (auto intro!: quietEffectI simp: setEng_def eng_def view_DisableCamera
      split: prod.splits if_splits option.splits)

lemma quiet_work:
  assumes "workStep ev a w = Some (as, cs, w')"
  shows "quietEffect w as w'"
proof (cases "a = WorkResume")
  case True
  then have "wEng w' = (wEng w)\<lparr>Draining := Draining (wEng w')\<rparr>" "as = [] \<or> as = [PumpElect]"
    using assms by (auto simp: workResume_def split: if_splits)
  then show ?thesis
    by (auto intro: quietEffect_drain)
next
  case False
  then show ?thesis
    using assms
    by (cases a) (auto intro!: quietEffectI simp: setEng_def eng_def view_workEnable workService_def
        workRetry_def Let_def split: if_splits)
qed

lemma quiet_close: "closeStep a w = Some (as, cs, w') \<Longrightarrow> quietEffect w as w'"
  by (cases a) (auto intro!: quietEffectI simp: PhotonicCaptureDestroy_def view_PoolFree view_FreeChunkMdls
      split: prod.splits if_splits)

lemma quiet_ctl:
  assumes "ctlStep ev fe c t w = Some (as, cs, w')"
    and "c \<noteq> Quiesce QClaim" and "\<And>i. c \<noteq> Release (RelFrame i)"
  shows "quietEffect w as w'"
  using assms
  by (cases c) (auto dest: quiet_quiesce quiet_release quiet_listen quiet_start quiet_stop quiet_work
      quiet_close intro: quietEffectI)

section \<open>The acts in progress\<close>

definition acts :: "('b, 'f) world \<Rightarrow> act multiset" where
  "acts w = mset (wCtlData w) + mset (concat (wThreads w))"

lemma thread_acts:
  assumes "i < length ts" and "ts ! i = a # as"
  shows "\<exists>R. mset (concat ts) = add_mset a R \<and> (\<forall>new. mset (concat (ts[i := new @ as])) = mset new + R)"
proof -
  have "ts = take i ts @ (a # as) # drop (Suc i) ts"
    using assms by (metis id_take_nth_drop)
  then have "mset (concat ts) = add_mset a (mset (concat (take i ts)) + mset as + mset (concat (drop (Suc i) ts)))"
    by (metis (no_types, lifting) concat.simps(2) concat_append mset.simps(2) mset_append
        union_assoc union_mset_add_mset_left union_mset_add_mset_right)
  moreover have "mset (concat (ts[i := new @ as])) =
      mset new + (mset (concat (take i ts)) + mset as + mset (concat (drop (Suc i) ts)))" for new
    using assms(1) by (simp add: upd_conv_take_nth_drop ac_simps)
  ultimately show ?thesis
    by blast
qed

lemma exec_frame:
  assumes "exec ev fe a w = (as, w')"
  shows "wThreads w' = wThreads w" "wCtlData w' = wCtlData w" "wCtl w' = wCtl w" "wArmed w' = wArmed w"
    "wRunning w' = wRunning w" "wOpen w' = wOpen w" "wLife w' = wLife w" "wWorkers w' = wWorkers w"
    "wStream w' = wStream w" "Rundown (wGate w') = Rundown (wGate w)"
  using assms
  by (cases a; auto simp: exec_sections split: prod.splits if_splits)+

lemma exec_gate:
  assumes "exec ev fe a w = (as, w')" and "\<And>p k x s f as f'. feStep fe p k x s f = (as, f') \<Longrightarrow> list_all frontAct as"
    and "DataPathRefs (wGate w) = int (count (add_mset a M) LeaveDataPath)"
  shows "DataPathRefs (wGate w') = int (count (mset as + M) LeaveDataPath)"
  using assms
  by (cases a) (auto simp: exec_sections PhotonicCapturePumpAttachComplete_def
      PhotonicCapturePumpDetachComplete_def lapEmpty_def lapReject_def lapPublish_def
      dest!: lapClaim_cases lapAcquired_cases assms(2) front_members
      split: prod.splits if_splits)

text \<open>The accounting invariant of a world.\<close>

definition accounted :: "('b, 'f) world \<Rightarrow> bool" where
  "accounted w \<longleftrightarrow>
     irpsCounted (wEng w) (acts w) (mset (wAttach w)) (mset (wDetach w)) \<and>
     pumpElected (wEng w) (acts w) \<and>
     framesPlaced (wEng w) (acts w) (mset (wAttach w)) (mset (wDetach w)) \<and>
     lapsPrimed (wEng w) (acts w) \<and>
     DataPathRefs (wGate w) = int (count (acts w) LeaveDataPath)"

text \<open>Only existing descriptors are mapped or released.\<close>

definition bounded :: "('b, 'f) world \<Rightarrow> bool" where
  "bounded w \<longleftrightarrow> (\<forall>d\<in>wArmed w. d < PHOTONIC_CAPTURE_FRAME_COUNT) \<and>
     (\<forall>i. Release (RelFrame i) \<in> set (wCtl w) \<longrightarrow> i < PHOTONIC_CAPTURE_FRAME_COUNT)"

lemmas control_programs = quiesceBegin_def quiesceClaim_def quiesceEmpty_def releaseFrames_def shutdownProgram_def
  stopProgram_def stopCheck_def runProgram_def startCheck_def startRetried_def workTail_def
  workService_def workResume_def closeBegin_def startEnable_def

text \<open>Steps that are only ever pushed in front of the program.\<close>

fun special :: "cact \<Rightarrow> bool" where
  "special (Quiesce a) = (a \<noteq> QBegin)"
| "special (Listen a) = (a = LIssue)"
| "special (Start (StartOpen e)) = True"
| "special (Close a) = (a = CloseWait)"
| "special _ = False"

fun isRelFrame :: "cact \<Rightarrow> bool" where
  "isRelFrame (Release (RelFrame i)) = True"
| "isRelFrame _ = False"

fun isQuiesce :: "cact \<Rightarrow> bool" where
  "isQuiesce (Quiesce a) = True"
| "isQuiesce _ = False"

text \<open>What a control step may push in front of the program.\<close>

definition programOf :: "cact \<Rightarrow> cact list \<Rightarrow> bool" where
  "programOf c cs \<longleftrightarrow> (\<forall>x\<in>set (tl cs). \<not> special x) \<and>
     ((\<forall>x\<in>set cs. \<not> isRelFrame x) \<or> c = Release RelIsoch \<and> cs = releaseFrames) \<and>
     (Work WorkResume \<in> set cs \<longrightarrow>
        c = Work WorkService \<and> cs = [Quiesce QBegin, Work WorkResume] @ workTail)"

lemma releaseFrames_program: "programOf (Release RelIsoch) releaseFrames"
  by (auto simp: programOf_def releaseFrames_def frameIndices_eq)

lemma ctl_program:
  assumes "ctlStep ev fe c t w = Some (as, cs, w')"
  shows "programOf c cs"
proof (cases c)
  case (Quiesce a)
  then show ?thesis
    using assms by (cases a) (auto simp: programOf_def control_programs split: prod.splits if_splits option.splits)
next
  case (Release a)
  then show ?thesis
    using assms by (cases a) (auto simp: programOf_def control_programs releaseIsoch_def frameIndices_eq split: prod.splits if_splits)
next
  case (Listen a)
  then show ?thesis
    using assms by (cases a) (auto simp: programOf_def split: prod.splits if_splits)
next
  case (Start a)
  then show ?thesis
    using assms by (cases a) (auto simp: programOf_def control_programs split: prod.splits if_splits sum.splits)
next
  case (Stop a)
  then show ?thesis
    using assms by (cases a) (auto simp: programOf_def control_programs split: prod.splits if_splits option.splits)
next
  case (Work a)
  then show ?thesis
    using assms by (cases a) (auto simp: programOf_def control_programs split: prod.splits if_splits)
next
  case (Close a)
  then show ?thesis
    using assms by (cases a) (auto simp: programOf_def control_programs split: prod.splits if_splits)
qed (use assms in \<open>auto simp: programOf_def\<close>)

lemma programs_bounded:
  assumes "ctlStep ev fe c t w = Some (as, cs, w')" and "Release (RelFrame i) \<in> set cs"
  shows "i < PHOTONIC_CAPTURE_FRAME_COUNT"
  using ctl_program [OF assms(1)] assms(2) by (auto simp: programOf_def releaseFrames_def)

lemma ctl_armed:
  assumes "ctlStep ev fe c t w = Some (as, cs, w')"
  shows "wArmed w' = wArmed w \<or> c = Release RelIsoch \<and> wArmed w' = {}"
proof (cases c)
  case (Quiesce a)
  then show ?thesis
    using assms by (cases a) (auto simp: stopContext_def setEng_def split: prod.splits if_splits)
next
  case (Release a)
  then show ?thesis
    using assms by (cases a) (auto simp: releaseIsoch_def setEng_def onEng_def split: prod.splits if_splits)
next
  case (Listen a)
  then show ?thesis
    using assms by (cases a) (auto split: prod.splits if_splits)
next
  case (Start a)
  then show ?thesis
    using assms by (cases a) (auto simp: setEng_def split: prod.splits)
next
  case (Stop a)
  then show ?thesis
    using assms by (cases a) (auto simp: setEng_def split: prod.splits if_splits option.splits)
next
  case (Work a)
  then show ?thesis
    using assms by (cases a) (auto simp: setEng_def split: prod.splits if_splits)
next
  case (Close a)
  then show ?thesis
    using assms by (cases a) (auto split: prod.splits if_splits)
qed (use assms in auto)

lemma startControl_eq:
  "startControl cs w = Some w' \<Longrightarrow> w' = w\<lparr>wCtl := cs\<rparr> \<and> wCtl w = [] \<and> wCtlData w = []"
  by (auto simp: startControl_def split: if_splits)

lemma withData_eq:
  "withData as r = Some w' \<Longrightarrow> \<exists>w. r = Some w \<and> w' = w\<lparr>wCtlData := as\<rparr>"
  by (auto simp: withData_def)

text \<open>The ring's requests put one step of the front-end before their control program.\<close>

lemma step_ring:
  assumes "step ev fe e w = Some w'" and "e = EvStartRing one ex \<or> e = EvTrigger"
  obtains p k as cs s w1 where "as = [] \<or> as = [Front p k]" "cs = [Start (StartCheck ex)] \<or> cs = [Listen LCheck, Stop ArmShot]"
    "startControl cs (w\<lparr>wStream := s\<rparr>) = Some w1" "w' = w1\<lparr>wCtlData := as\<rparr>"
proof -
  consider (start) "e = EvStartRing one ex" | (trigger) "e = EvTrigger"
    using assms(2) by blast
  then show thesis
  proof cases
    case start
    then obtain w1 where "startControl [Start (StartCheck ex)] (w\<lparr>wStream := (wStream w)\<lparr>OneShot := one\<rparr>\<rparr>) = Some w1"
      "w' = w1\<lparr>wCtlData := [Front StartRing (of_bool ex)]\<rparr>"
      using assms(1) by (auto split: option.splits if_splits dest!: withData_eq)
    then show thesis
      using that by blast
  next
    case trigger
    then obtain as w1 where "startControl [Listen LCheck, Stop ArmShot] (w\<lparr>wStream := wStream w\<rparr>) = Some w1"
      "w' = w1\<lparr>wCtlData := as\<rparr>" "as = [] \<or> as = [Front RequeueRing 0]"
      using assms(1) by (auto split: option.splits if_splits dest!: withData_eq)
    then show thesis
      using that by blast
  qed
qed

lemma ring_acts:
  assumes "startControl cs (w\<lparr>wStream := s\<rparr>) = Some w1" and "w' = w1\<lparr>wCtlData := as\<rparr>"
  shows "acts w' = mset as + acts w" "wEng w' = wEng w" "wAttach w' = wAttach w" "wDetach w' = wDetach w"
    "wGate w' = wGate w" "wCtl w' = cs"
  using startControl_eq [OF assms(1)] by (simp_all add: assms(2) acts_def)

text \<open>The two control acts that move a descriptor.\<close>

lemma find_pending:
  assumes "firstPending c = Some d"
  shows "d \<in> set (PendingList c)" and "State (Frames c d) = PhotonicFramePending"
  using assms by (auto simp: firstPending_def find_Some_iff)

lemma pending_frame:
  assumes "framesPlaced c M A D" and "d \<in> set (PendingList c)"
  shows "d < PHOTONIC_CAPTURE_FRAME_COUNT"
proof -
  have "count (mset (PendingList c)) d \<noteq> 0"
    using assms(2) by simp
  then show ?thesis
    using assms(1) unfolding framesPlaced_def inState_def
    by (metis (mono_tags, lifting) of_bool_eq_0_iff)
qed

lemma placed_claim:
  assumes "framesPlaced c M A D" and "firstPending c = Some d"
  shows "framesPlaced ((claimDetach d st c)\<lparr>InFlightIrps := n\<rparr>) (add_mset (BusDetach d) M) A D"
proof (rule framesPlaced_move [OF assms(1), of d])
  assume p: "placeAt d c M A D"
  show "placeAt d ((claimDetach d st c)\<lparr>InFlightIrps := n\<rparr>) (add_mset (BusDetach d) M) A D"
    using p find_pending [OF assms(2)] pending_frame [OF assms(1)]
    by (auto simp: placeAt_def inState_def)
qed auto

lemma placed_release:
  assumes "framesPlaced c M A D" and "releaseFrame i c = (as, c')" and "i < PHOTONIC_CAPTURE_FRAME_COUNT"
  shows "framesPlaced c' (mset as + M) A D"
proof (rule framesPlaced_move [OF assms(1), of i])
  assume p: "placeAt i c M A D"
  show "placeAt i c' (mset as + M) A D"
    using p assms(2,3) by (auto simp: releaseFrame_def placeAt_def inState_def split: if_splits)
qed (use assms(2) in \<open>auto simp: releaseFrame_def split: if_splits\<close>)

lemma step_thread:
  assumes "step ev fe (EvThread i) w = Some w'"
  obtains a M as w1 where "acts w = add_mset a M" "exec ev fe a w = (as, w1)" "acts w' = mset as + M"
    "w' = w1\<lparr>wThreads := wThreads w'\<rparr>"
proof -
  obtain a ts where t: "i < length (wThreads w)" "wThreads w ! i = a # ts"
    using assms by (auto split: if_splits list.splits)
  obtain as w1 where e: "exec ev fe a w = (as, w1)"
    by (cases "exec ev fe a w")
  obtain R where R: "mset (concat (wThreads w)) = add_mset a R"
    "\<And>new. mset (concat ((wThreads w)[i := new @ ts])) = mset new + R"
    using thread_acts [OF t] by blast
  have w': "w' = w1\<lparr>wThreads := (wThreads w)[i := as @ ts]\<rparr>"
    using assms t e by simp
  show thesis
  proof (rule that [of a "mset (wCtlData w) + R" as w1])
    show "acts w' = mset as + (mset (wCtlData w) + R)"
      using exec_frame(2) [OF e] by (simp add: acts_def w' R(2))
  qed (simp_all add: acts_def R(1) e w')
qed

lemma step_ctl:
  assumes "step ev fe (EvCtl t) w = Some w'"
  obtains (data) a M as w1 where "acts w = add_mset a M" "exec ev fe a w = (as, w1)"
      "acts w' = mset as + M" "w' = w1\<lparr>wCtlData := wCtlData w'\<rparr>"
  | (control) c k as cs w1 where "wCtlData w = []" "wCtl w = c # k" "ctlStep ev fe c t w = Some (as, cs, w1)"
      "w' = w1\<lparr>wCtlData := as, wCtl := cs @ k\<rparr>"
proof (cases "wCtlData w")
  case Nil
  then show thesis
    using assms control by (auto split: list.splits option.splits)
next
  case (Cons a ds)
  obtain as w1 where e: "exec ev fe a w = (as, w1)"
    by (cases "exec ev fe a w")
  have w': "w' = w1\<lparr>wCtlData := as @ ds\<rparr>"
    using assms Cons e by simp
  show thesis
    by (rule data [of a "mset ds + mset (concat (wThreads w))" as w1])
      (use exec_frame(1) [OF e] in \<open>simp_all add: acts_def Cons e w'\<close>)
qed

context front_end
begin

text \<open>Performing the act \<open>a\<close> while \<open>M\<close> are the others.\<close>

lemma accounted_exec:
  assumes "accounted w" and "acts w = add_mset a M" and "exec ev fe a w = (as, w')"
    and "acts w'' = mset as + M" and "wEng w'' = wEng w'" "wAttach w'' = wAttach w'"
    "wDetach w'' = wDetach w'" "wGate w'' = wGate w'"
  shows "accounted w''"
proof -
  have "DataPathRefs (wGate w') = int (count (mset as + M) LeaveDataPath)"
    using assms(1) by (intro exec_gate [OF assms(3)]) (auto simp: accounted_def assms(2) dest: step_acts)
  then show ?thesis
    using assms(1) exec_irps [OF assms(3), of M] exec_pump [OF assms(3), of M]
      exec_placed [OF assms(3), of M] exec_primed [OF assms(3), of M]
    unfolding accounted_def assms(2,4-8) by blast
qed

definition worldReads :: "('b, 'f) world \<Rightarrow> nat multiset" where
  "worldReads w = allReads (wEng w) (wFe w) (acts w)"

lemma reads_exec:
  assumes "accounted w" and "acts w = add_mset a M" and "exec ev fe a w = (as, w')"
    and "acts w'' = mset as + M" and "wEng w'' = wEng w'" "wFe w'' = wFe w'" and "inv (wFe w)"
    and "ok (worldReads w)"
  shows "worldReads w'' = worldReads w" and "inv (wFe w'')"
proof -
  show "worldReads w'' = worldReads w"
    using assms(1,7,8) exec_reads [OF assms(3), of M "mset (wAttach w)" "mset (wDetach w)"]
    by (simp add: worldReads_def accounted_def assms(2,4-6))
  show "inv (wFe w'')"
    using assms(8) exec_inv [OF assms(3,7), of M] by (simp add: worldReads_def assms(2,6))
qed

lemma accounted_claim:
  assumes "accounted w" and "quiesceClaim (wEng w) = (as, cs, c)"
    and "acts w' = mset as + acts w" and "wEng w' = c" and "sameBus w w'"
  shows "accounted w'"
proof (cases "firstPending (wEng w)")
  case None
  then show ?thesis
    using assms by (auto simp: accounted_def quiesceClaim_def sameBus_def)
next
  case (Some d)
  let ?c = "(claimDetach d STATUS_CANCELLED (wEng w))\<lparr>InFlightIrps := InFlightIrps (wEng w) + 1\<rparr>"
  have c: "c = ?c" "as = [BusDetach d]"
    using assms(2) Some by (simp_all add: quiesceClaim_def)
  have "lapsPrimed ?c (mset as + acts w)"
    using assms(1) by (auto simp: lapsPrimed_def accounted_def c)
  then show ?thesis
    using assms(1,3-5) placed_claim [OF _ Some]
    by (auto simp: accounted_def c irpsCounted_def pumpElected_def sameBus_def)
qed

lemma accounted_release:
  assumes "accounted w" and "releaseFrame i (wEng w) = (as, c)" and "i < PHOTONIC_CAPTURE_FRAME_COUNT"
    and "acts w' = mset as + acts w" and "wEng w' = c" and "sameBus w w'"
  shows "accounted w'"
proof -
  have as: "as = [] \<and> c = wEng w \<or>
    State (Frames (wEng w) i) = PhotonicFrameDetachFailed \<and>
    as = [Deliver (Cookie (Frames (wEng w) i)) 0 STATUS_CANCELLED] \<and> c = recycleTail i (wEng w)"
    using assms(2) by (auto simp: releaseFrame_def split: if_splits)
  have placed: "framesPlaced (wEng w) (acts w) (mset (wAttach w)) (mset (wDetach w))"
    and primed: "lapsPrimed (wEng w) (acts w)"
    using assms(1) by (simp_all add: accounted_def)
  have "lapsPrimed c (mset as + acts w)"
    by (rule primed_keep [OF primed placed]) (use as in auto)
  then show ?thesis
    using assms(1,4-6) placed_release [OF placed assms(2,3)] as
    by (auto simp: accounted_def irpsCounted_def pumpElected_def sameBus_def)
qed

lemma accounted_quiet:
  assumes "accounted w" and "quietEffect w as w1" and "acts w' = mset as + acts w"
    and "wEng w' = wEng w1" and "sameBus w w'"
  shows "accounted w'"
proof -
  let ?c = "drainView (Draining (wEng w1)) (wEng w)"
  have view: "engView (wEng w') = engView ?c"
    using assms(2,4) by (simp add: quietEffect_def)
  have as: "as = [] \<or> as = [PumpElect] \<or> as = [RequestWork]"
    using assms(2) by (simp add: quietEffect_def)
  have eq: "irpsCounted ?c M A D = irpsCounted (wEng w) M A D" "pumpElected ?c M = pumpElected (wEng w) M"
    "framesPlaced ?c M A D = framesPlaced (wEng w) M A D" "lapsPrimed ?c M = lapsPrimed (wEng w) M" for M A D
    by (simp_all add: drainView_def irpsCounted_def pumpElected_def framesPlaced_def lapsPrimed_def inState_def)
  have "framesPlaced (wEng w) (mset as + acts w) (mset (wAttach w)) (mset (wDetach w))"
    by (rule framesPlaced_cong) (use assms(1) as in \<open>auto simp: accounted_def\<close>)
  moreover have "lapsPrimed (wEng w) (mset as + acts w)"
    using assms(1) as by (auto simp: accounted_def lapsPrimed_def)
  moreover have "irpsCounted (wEng w) (mset as + acts w) (mset (wAttach w)) (mset (wDetach w))"
    using assms(1) as by (auto simp: accounted_def irpsCounted_def)
  moreover have "pumpElected (wEng w) (mset as + acts w)"
    using assms(1) as by (auto simp: accounted_def pumpElected_def)
  moreover have "DataPathRefs (wGate w') = int (count (mset as + acts w) LeaveDataPath)"
    using assms(1,5) as by (auto simp: accounted_def sameBus_def)
  moreover have "wAttach w' = wAttach w" "wDetach w' = wDetach w"
    using assms(5) by (simp_all add: sameBus_def)
  ultimately show ?thesis
    unfolding accounted_def assms(3) dataInv_view [OF view] eq by simp
qed

section \<open>Steps\<close>

lemma accounted_cong:
  assumes "accounted w" and "acts w' = acts w" and "wEng w' = wEng w" and "wAttach w' = wAttach w"
    and "wDetach w' = wDetach w" and "DataPathRefs (wGate w') = DataPathRefs (wGate w)"
  shows "accounted w'"
  using assms by (simp add: accounted_def)

lemma accounted_ctl:
  assumes "accounted w" and "bounded w" and "wCtlData w = []" and "wCtl w = c # k"
    and "ctlStep ev fe c t w = Some (as, cs, w1)" and "w' = w1\<lparr>wCtlData := as, wCtl := cs @ k\<rparr>"
  shows "accounted w'"
proof -
  have bus: "sameBus w w1"
    by (rule bus_ctl [OF assms(5)])
  have acts: "acts w' = mset as + acts w" and bus': "sameBus w w'"
    using bus assms(3) by (simp_all add: assms(6) acts_def sameBus_def)
  consider "c = Quiesce QClaim" | i where "c = Release (RelFrame i)"
    | "c \<noteq> Quiesce QClaim" "\<And>i. c \<noteq> Release (RelFrame i)"
    by blast
  then show ?thesis
  proof cases
    case 1
    obtain as1 cs1 e where q: "quiesceClaim (wEng w) = (as1, cs1, e)"
      by (metis prod.collapse)
    then show ?thesis
      using 1 assms(5) accounted_claim [OF assms(1) q _ _ bus'] acts by (auto simp: assms(6))
  next
    case (2 i)
    then have "i < PHOTONIC_CAPTURE_FRAME_COUNT"
      using assms(2,4) by (auto simp: bounded_def)
    moreover obtain as1 e where q: "releaseFrame i (wEng w) = (as1, e)"
      by (cases "releaseFrame i (wEng w)")
    ultimately show ?thesis
      using 2 assms(5) accounted_release [OF assms(1) q _ _ _ bus'] acts by (auto simp: assms(6) onEng_def)
  next
    case 3
    then show ?thesis
      using accounted_quiet [OF assms(1) quiet_ctl [OF assms(5)] acts _ bus'] by (simp add: assms(6))
  qed
qed

lemma accounted_frame:
  assumes "accounted w" and "d < PHOTONIC_CAPTURE_FRAME_COUNT"
    and "PhotonicCapturePumpIsochCallback d (recordFrame d st (wEng w)) = (as, c)"
    and "w' = spawn as (w\<lparr>wEng := c\<rparr>)"
  shows "accounted w'"
proof -
  let ?c = "recordFrame d st (wEng w)"
  have view: "engView ?c = engView (wEng w)"
    unfolding recordFrame_def by (rule engView_upd) simp
  have acts: "acts w' = mset as + acts w"
    by (simp add: assms(4) acts_def spawn_def)
  have "accounted (w\<lparr>wEng := ?c\<rparr>)"
    using assms(1) by (simp add: accounted_def dataInv_view [OF view] acts_def)
  then have inv: "irpsCounted ?c (acts w) (mset (wAttach w)) (mset (wDetach w))" "pumpElected ?c (acts w)"
    "framesPlaced ?c (acts w) (mset (wAttach w)) (mset (wDetach w))" "lapsPrimed ?c (acts w)"
    "DataPathRefs (wGate w) = int (count (acts w) LeaveDataPath)"
    by (simp_all add: accounted_def acts_def)
  have "framesPlaced c (mset as + acts w) (mset (wAttach w)) (mset (wDetach w))"
    by (rule placed_Callback [OF inv(3) assms(3,2)])
  moreover have "irpsCounted c (mset as + acts w) (mset (wAttach w)) (mset (wDetach w))"
    using inv(1) assms(3)
    by (auto simp: irpsCounted_def PhotonicCapturePumpIsochCallback_def split: frame_state.splits)
  moreover have "pumpElected c (mset as + acts w)"
    using inv(2) assms(3)
    by (auto simp: pumpElected_def PhotonicCapturePumpIsochCallback_def split: frame_state.splits)
  moreover have "lapsPrimed c (mset as + acts w)"
    using inv(4) assms(3)
    by (auto simp: lapsPrimed_def PhotonicCapturePumpIsochCallback_def split: frame_state.splits)
  moreover have "count (mset as) LeaveDataPath = 0"
    using assms(3) by (auto simp: PhotonicCapturePumpIsochCallback_def split: frame_state.splits)
  ultimately show ?thesis
    using inv(5) by (simp add: accounted_def acts) (simp add: assms(4) spawn_def)
qed

text \<open>An IRP leaves the bus driver and its completion routine is about to run.\<close>

lemma accounted_completion:
  assumes "accounted w" and "acts w' = add_mset a (acts w)" and "wEng w' = wEng w"
    and "DataPathRefs (wGate w') = DataPathRefs (wGate w)"
    and "a = AttachComplete d st \<and> mset (wAttach w) = add_mset d (mset (wAttach w')) \<and> wDetach w' = wDetach w \<or>
      a = DetachComplete d st \<and> mset (wDetach w) = add_mset d (mset (wDetach w')) \<and> wAttach w' = wAttach w"
  shows "accounted w'"
proof -
  let ?A = "mset (wAttach w')" and ?D = "mset (wDetach w')"
  have "framesPlaced (wEng w) (add_mset a (acts w)) ?A ?D"
    by (rule framesPlaced_cong) (use assms(1,5) in \<open>auto simp: accounted_def\<close>)
  moreover have "irpsCounted (wEng w) (add_mset a (acts w)) ?A ?D"
    using assms(1,5) unfolding accounted_def irpsCounted_def
    by (auto simp: size_mset [symmetric] simp del: size_mset)
  moreover have "pumpElected (wEng w) (add_mset a (acts w))"
    using assms(1,5) by (auto simp: accounted_def pumpElected_def)
  moreover have "lapsPrimed (wEng w) (add_mset a (acts w))"
    using assms(1,5) by (auto simp: accounted_def lapsPrimed_def)
  moreover have "count (add_mset a (acts w)) LeaveDataPath = count (acts w) LeaveDataPath"
    using assms(5) by auto
  ultimately show ?thesis
    using assms(1) unfolding accounted_def assms(2-4) by simp
qed

lemma accounted_enter:
  assumes "accounted w" and "enterDataPath (Front p k) w = Some w'"
  shows "accounted w'"
proof -
  have acts: "acts w' = add_mset (Front p k) (add_mset LeaveDataPath (acts w))"
    and same: "wEng w' = wEng w" "wAttach w' = wAttach w" "wDetach w' = wDetach w"
      "DataPathRefs (wGate w') = DataPathRefs (wGate w) + 1"
    using assms(2)
    by (auto simp: enterDataPath_def PhotonicStreamEnterDataPath_def spawn_def acts_def
        split: prod.splits bool.splits if_splits)
  have "framesPlaced (wEng w) (acts w') (mset (wAttach w)) (mset (wDetach w))"
    by (rule framesPlaced_cong) (use assms(1) in \<open>auto simp: accounted_def acts\<close>)
  then show ?thesis
    using assms(1) unfolding accounted_def same
    by (auto simp: acts irpsCounted_def pumpElected_def lapsPrimed_def)
qed

lemma accounted_ring:
  assumes "accounted w" and "step ev fe e w = Some w'" and "e = EvStartRing one ex \<or> e = EvTrigger"
  shows "accounted w'"
  using assms(2,3)
proof (cases rule: step_ring)
  case (1 p k as cs s w1)
  note same = ring_acts [OF 1(3,4)]
  have "framesPlaced (wEng w) (mset as + acts w) (mset (wAttach w)) (mset (wDetach w))"
    by (rule framesPlaced_cong) (use assms(1) 1(1) in \<open>auto simp: accounted_def\<close>)
  then show ?thesis
    using assms(1) 1(1) unfolding accounted_def same
    by (auto simp: irpsCounted_def pumpElected_def lapsPrimed_def)
qed

lemma accounted_step:
  assumes "accounted w" and "bounded w" and "step ev fe e w = Some w'"
  shows "accounted w'"
proof (cases e)
  case (EvThread i)
  obtain a M as w1 where *: "acts w = add_mset a M" "exec ev fe a w = (as, w1)" "acts w' = mset as + M"
    "w' = w1\<lparr>wThreads := wThreads w'\<rparr>"
    using step_thread assms(3) EvThread by metis
  show ?thesis
    by (rule accounted_exec [OF assms(1) *(1,2,3)]) (subst *(4), simp)+
next
  case (EvCtl t)
  from assms(3) [unfolded EvCtl] show ?thesis
  proof (cases rule: step_ctl)
    case (data a M as w1)
    show ?thesis
      by (rule accounted_exec [OF assms(1) data(1,2,3)]) (subst data(4), simp)+
  next
    case (control c k as cs w1)
    then show ?thesis
      using accounted_ctl [OF assms(1,2)] by metis
  qed
next
  case (EvAttachDone d st)
  then show ?thesis
    using assms(3) by (intro accounted_completion [OF assms(1), of w' "AttachComplete d st" d st])
      (auto simp: spawn_def acts_def split: if_splits)
next
  case (EvDetachDone d st)
  then show ?thesis
    using assms(3) by (intro accounted_completion [OF assms(1), of w' "DetachComplete d st" d st])
      (auto simp: spawn_def acts_def split: if_splits)
next
  case (EvFrame d st)
  then have "d < PHOTONIC_CAPTURE_FRAME_COUNT"
    using assms(2,3) by (auto simp: bounded_def split: if_splits)
  then show ?thesis
    using assms(3) EvFrame by (auto split: if_splits prod.splits intro: accounted_frame [OF assms(1)])
next
  case (EvRead srb)
  then show ?thesis
    using assms(3) accounted_enter [OF assms(1)] by simp
next
  case (EvCancel srb)
  then show ?thesis
    using assms(3) accounted_enter [OF assms(1)] by simp
next
  case (EvStartRing one ex)
  then show ?thesis
    using accounted_ring [OF assms(1,3)] by blast
next
  case EvTrigger
  then show ?thesis
    using accounted_ring [OF assms(1,3)] by blast
qed (use assms(3) in \<open>auto simp: acts_def split: if_splits dest!: startControl_eq intro!: accounted_cong [OF assms(1)]\<close>)

end

end
