(* ===== verification/Capture_Runs.thy ===== *)
theory Capture_Runs
  imports Capture_World
begin

text \<open>
  From steps to runs: the accounting invariants hold in every world reachable from a freshly
  created engine, and every read the front-end received is accounted for at every moment.
\<close>

section \<open>A created engine\<close>

definition fresh :: "capture \<Rightarrow> bool" where
  "fresh c \<longleftrightarrow> (\<forall>d. State (Frames c d) = PhotonicFrameFree) \<and> FreeList c = frameIndices \<and>
     PendingList c = [] \<and> InFlightIrps c = 0 \<and> \<not> PumpActive c \<and> Draining c \<and>
     \<not> ResourceAllocated c \<and> \<not> Listening c"

lemma poolAllocate_success:
  "poolAllocate ev is c b = ((st, c'), b') \<Longrightarrow> NT_SUCCESS st \<Longrightarrow> (\<forall>d. State (Frames c d) = PhotonicFrameFree) \<Longrightarrow>
   (\<forall>d. State (Frames c' d) = PhotonicFrameFree) \<and> FreeList c' = FreeList c @ is \<and>
   PendingList c' = PendingList c \<and> InFlightIrps c' = InFlightIrps c \<and> PumpActive c' = PumpActive c \<and>
   Draining c' = Draining c \<and> ResourceAllocated c' = ResourceAllocated c \<and> Listening c' = Listening c"
proof (induction "is" arbitrary: c b)
  case (Cons i "is")
  let ?f = "\<lambda>f. f\<lparr>Cookie := 0, State := PhotonicFrameFree, CompletionStatus := STATUS_SUCCESS\<rparr>"
  let ?c = "(updFrame i (\<lambda>f. f\<lparr>Irp := True\<rparr>) (updFrame i ?f c))\<lparr>FreeList := FreeList c @ [i]\<rparr>"
  obtain b1 where "poolAllocate ev is ?c b1 = ((st, c'), b')"
    using Cons.prems(1,2) by (auto simp: Let_def split: prod.splits bool.splits)
  from Cons.IH [OF this Cons.prems(2)] show ?case
    using Cons.prems(3) by (simp add: updFrame_def)
qed simp

lemma created_fresh:
  assumes "PhotonicCaptureCreate ev b = ((st, Some c), b')"
  shows "fresh c"
proof -
  obtain b1 st1 where "poolAllocate ev frameIndices newCapture b1 = ((st1, c), b')" and "NT_SUCCESS st1"
    using assms by (auto simp: PhotonicCaptureCreate_def PhotonicCapturePoolAllocate_def
        split: prod.splits bool.splits if_splits)
  from poolAllocate_success [OF this] show ?thesis
    by (simp add: fresh_def newCapture_def zeroFrame_def)
qed

lemma opened_accounted:
  assumes "fresh c"
  shows "accounted (opened c d s f)" "bounded (opened c d s f)"
  using assms
  by (auto simp: accounted_def bounded_def opened_def acts_def fresh_def irpsCounted_def pumpElected_def
      framesPlaced_def lapsPrimed_def inState_def frameIndices_eq)

section \<open>Reachable worlds\<close>

lemma thread_frame:
  assumes "step ev fe (EvThread i) w = Some w'"
  shows "wArmed w' = wArmed w" "wCtl w' = wCtl w" "wCtlData w' = wCtlData w" "wRunning w' = wRunning w"
    "wOpen w' = wOpen w" "wLife w' = wLife w" "wStream w' = wStream w"
    "Rundown (wGate w') = Rundown (wGate w)"
proof -
  obtain a M as w1 where *: "exec ev fe a w = (as, w1)" "w' = w1\<lparr>wThreads := wThreads w'\<rparr>"
    using step_thread assms by metis
  show "wArmed w' = wArmed w" "wCtl w' = wCtl w" "wCtlData w' = wCtlData w" "wRunning w' = wRunning w"
    "wOpen w' = wOpen w" "wLife w' = wLife w" "wStream w' = wStream w"
    "Rundown (wGate w') = Rundown (wGate w)"
    using exec_frame [OF *(1)] by (subst *(2), simp)+
qed

lemma data_frame:
  assumes "exec ev fe a w = (as, w1)" and "w' = w1\<lparr>wCtlData := ds\<rparr>"
  shows "wArmed w' = wArmed w" "wCtl w' = wCtl w" "wRunning w' = wRunning w" "wOpen w' = wOpen w"
    "wLife w' = wLife w" "wStream w' = wStream w" "Rundown (wGate w') = Rundown (wGate w)"
  using exec_frame [OF assms(1)] by (simp_all add: assms(2))

lemma bounded_step:
  assumes "accounted w" and "bounded w" and "step ev fe e w = Some w'"
  shows "bounded w'"
proof (cases e)
  case (EvThread i)
  then show ?thesis
    using assms(2,3) thread_frame by (metis bounded_def)
next
  case (EvCtl t)
  from assms(3) [unfolded EvCtl] show ?thesis
  proof (cases rule: step_ctl)
    case (data a M as w1)
    then show ?thesis
      using assms(2) data_frame [OF data(2,4)] by (simp add: bounded_def)
  next
    case (control c k as cs w1)
    then show ?thesis
      using assms(2) ctl_armed [OF control(3)] programs_bounded [OF control(3)]
      by (auto simp: bounded_def)
  qed
next
  case (EvArm d)
  then have "d \<in> set (wAttach w)" and w': "w' = w\<lparr>wArmed := insert d (wArmed w)\<rparr>"
    using assms(3) by (auto split: if_splits)
  then have "inState {PhotonicFrameAttaching, PhotonicFrameCompletedWhileAttaching} (wEng w) d \<noteq> 0"
    using assms(1) unfolding accounted_def framesPlaced_def
    by (metis add_is_0 count_mset_0_iff)
  then show ?thesis
    using assms(2) by (auto simp: bounded_def w' inState_def)
qed (use assms(2,3) in \<open>auto simp: bounded_def spawn_def enterDataPath_def stopProgram_def
      split: if_splits prod.splits bool.splits option.splits dest!: startControl_eq withData_eq\<close>)

context front_end
begin

lemma accounted_runs:
  "runs ev fe es w = Some w' \<Longrightarrow> accounted w \<Longrightarrow> bounded w \<Longrightarrow> accounted w' \<and> bounded w'"
  by (induction es arbitrary: w) (auto split: option.splits dest: accounted_step bounded_step)

lemma accounted_reachable:
  assumes "reachable ev fe w0 w" and "accounted w0" and "bounded w0"
  shows "accounted w \<and> bounded w"
  using assms by (induction rule: reachable.induct) (auto dest: accounted_step bounded_step)

end

section \<open>Reads received\<close>

fun received :: "event list \<Rightarrow> nat list" where
  "received [] = []"
| "received (EvRead srb # es) = srb # received es"
| "received (_ # es) = received es"

text \<open>The reads an event hands to the engine's side.\<close>

fun handed :: "(front_step \<Rightarrow> nat \<Rightarrow> nat multiset) \<Rightarrow> event \<Rightarrow> nat multiset" where
  "handed held (EvRead k) = held ReceiveRead k"
| "handed held (EvCancel k) = held CancelRead k"
| "handed held _ = {#}"

text \<open>Only the drain touches the front-end among the control acts.\<close>

lemma front_quiesce: "quiesceStep ev a t w = Some (as, cs, w') \<Longrightarrow> wFe w' = wFe w"
  by (cases a) (auto simp: stopContext_def setEng_def split: prod.splits if_splits)

lemma front_release: "releaseStep ev a w = Some (as, cs, w') \<Longrightarrow> wFe w' = wFe w"
  by (cases a) (auto simp: releaseIsoch_def setEng_def onEng_def split: prod.splits if_splits)

lemma front_listen: "listenStep ev a t w = Some (as, cs, w') \<Longrightarrow> wFe w' = wFe w"
  by (cases a) (auto split: prod.splits if_splits)

lemma front_start: "startStep ev a w = Some (as, cs, w') \<Longrightarrow> wFe w' = wFe w"
  by (cases a) (auto simp: setEng_def split: prod.splits)

lemma front_work: "workStep ev a w = Some (as, cs, w') \<Longrightarrow> wFe w' = wFe w"
  by (cases a) (auto simp: setEng_def split: prod.splits if_splits)

lemma front_close: "closeStep a w = Some (as, cs, w') \<Longrightarrow> wFe w' = wFe w"
  by (cases a) (auto split: prod.splits if_splits)

lemma claim_reads:
  assumes "framesPlaced c M A D" and "firstPending c = Some d"
  shows "frameReads ((claimDetach d st c)\<lparr>InFlightIrps := n\<rparr>) = frameReads c"
  using find_pending [OF assms(2)] by (intro frameReads_cong) (auto simp: frameRead_def)

context front_end
begin

lemma front_stop:
  "stopStep ev fe a w = Some (as, cs, w') \<Longrightarrow> inv (wFe w) \<Longrightarrow> inv (wFe w') \<and> reads (wFe w') = reads (wFe w)"
  by (cases a) (auto simp: setEng_def dest: drain split: if_splits option.splits prod.splits)

lemma ctl_reads_front:
  "ctlStep ev fe c t w = Some (as, cs, w') \<Longrightarrow> inv (wFe w) \<Longrightarrow> inv (wFe w') \<and> reads (wFe w') = reads (wFe w)"
  by (cases c) (auto dest: front_stop front_quiesce front_release front_listen front_start front_work front_close)

lemma reads_ctl:
  assumes "accounted w" and "bounded w" and "wCtlData w = []" and "wCtl w = c # k"
    and "ctlStep ev fe c t w = Some (as, cs, w1)" and "w' = w1\<lparr>wCtlData := as, wCtl := cs @ k\<rparr>"
    and "inv (wFe w)"
  shows "worldReads w' = worldReads w"
proof -
  have threads: "wThreads w1 = wThreads w"
    using bus_ctl [OF assms(5)] by (simp add: sameBus_def)
  have acts: "acts w' = mset as + acts w"
    by (simp add: assms(3,6) acts_def threads)
  have placed: "framesPlaced (wEng w) (acts w) (mset (wAttach w)) (mset (wDetach w))"
    using assms(1) by (simp add: accounted_def)
  have "frameReads (wEng w1) + weigh (readTok held) (mset as) = frameReads (wEng w)"
  proof -
    consider "c = Quiesce QClaim" | i where "c = Release (RelFrame i)"
      | "c \<noteq> Quiesce QClaim" "\<And>i. c \<noteq> Release (RelFrame i)"
      by blast
    then show ?thesis
    proof cases
      case 1
      then show ?thesis
        using assms(5) claim_reads [OF placed]
        by (auto simp: quiesceClaim_def split: option.splits)
    next
      case (2 i)
      then have i: "i < PHOTONIC_CAPTURE_FRAME_COUNT"
        using assms(2,4) by (auto simp: bounded_def)
      show ?thesis
      proof (cases "State (Frames (wEng w) i) = PhotonicFrameDetachFailed")
        case True
        then show ?thesis
          using 2 assms(5) i frameReads_move [OF i, of "recycleTail i (wEng w)" "wEng w"]
          by (auto simp: onEng_def releaseFrame_def frameRead_def)
      qed (use 2 assms(5) in \<open>auto simp: onEng_def releaseFrame_def\<close>)
    next
      case 3
      have q: "engView (drainView (Draining (wEng w1)) (wEng w)) = engView (wEng w1)"
        and as: "as = [] \<or> as = [PumpElect] \<or> as = [RequestWork]"
        using quiet_ctl [OF assms(5) 3] by (simp_all add: quietEffect_def)
      have "frameReads (drainView b (wEng w)) = frameReads (wEng w)" for b
        by (rule frameReads_cong) (simp add: frameRead_def drainView_def)
      then have "frameReads (wEng w1) = frameReads (wEng w)"
        using dataInv_view(6) [OF q] by simp
      then show ?thesis
        using as by auto
    qed
  qed
  then show ?thesis
    using ctl_reads_front [OF assms(5,7)]
    by (simp add: worldReads_def allReads_def acts) (simp add: assms(6) ac_simps)
qed

lemma reads_frame:
  assumes "PhotonicCapturePumpIsochCallback d (recordFrame d st c) = (as, c')"
  shows "frameReads c' = frameReads c" and "weigh (readTok held) (mset as) = {#}"
proof -
  have view: "engView (recordFrame d st c) = engView c"
    unfolding recordFrame_def by (rule engView_upd) simp
  have "frameRead c' x = frameRead (recordFrame d st c) x" for x
    using assms
    by (auto simp: frameRead_def PhotonicCapturePumpIsochCallback_def split: frame_state.splits if_splits)
  then show "frameReads c' = frameReads c"
    using dataInv_view(6) [OF view] by (metis frameReads_cong)
  show "weigh (readTok held) (mset as) = {#}"
    using assms by (auto simp: PhotonicCapturePumpIsochCallback_def split: frame_state.splits)
qed

lemma reads_step:
  assumes "accounted w" and "bounded w" and "step ev fe e w = Some w'" and "inv (wFe w)" and "ok (worldReads w)"
  shows "worldReads w' = worldReads w + handed held e"
proof (cases e)
  case (EvThread i)
  obtain a M as w1 where *: "acts w = add_mset a M" "exec ev fe a w = (as, w1)" "acts w' = mset as + M"
    "w' = w1\<lparr>wThreads := wThreads w'\<rparr>"
    using step_thread assms(3) EvThread by metis
  have "worldReads w' = worldReads w"
    by (rule reads_exec [OF assms(1) *(1,2,3) _ _ assms(4,5)]) (subst *(4), simp)+
  then show ?thesis
    by (simp add: EvThread)
next
  case (EvCtl t)
  from assms(3) [unfolded EvCtl] have "worldReads w' = worldReads w"
  proof (cases rule: step_ctl)
    case (data a M as w1)
    show ?thesis
      by (rule reads_exec [OF assms(1) data(1,2,3) _ _ assms(4,5)]) (subst data(4), simp)+
  next
    case (control c k as cs w1)
    then show ?thesis
      using reads_ctl [OF assms(1,2) _ _ _ _ assms(4)] by metis
  qed
  then show ?thesis
    by (simp add: EvCtl)
next
  case (EvFrame d st)
  then show ?thesis
    using assms(3) reads_frame
    by (auto simp: worldReads_def allReads_def acts_def spawn_def split: if_splits prod.splits)
next
  case (EvRead srb)
  then show ?thesis
    using assms(3)
    by (auto simp: enterDataPath_def PhotonicStreamEnterDataPath_def spawn_def acts_def worldReads_def
        allReads_def split: prod.splits bool.splits if_splits)
next
  case (EvCancel srb)
  then show ?thesis
    using assms(3)
    by (auto simp: enterDataPath_def PhotonicStreamEnterDataPath_def spawn_def acts_def worldReads_def
        allReads_def split: prod.splits bool.splits if_splits)
next
  case (EvStartRing one ex)
  then show ?thesis
    using assms(3)
    by (auto simp: worldReads_def allReads_def acts_def ring_held split: option.splits if_splits
        dest!: withData_eq startControl_eq)
next
  case EvTrigger
  then show ?thesis
    using assms(3)
    by (auto simp: worldReads_def allReads_def acts_def ring_held split: option.splits if_splits
        dest!: withData_eq startControl_eq)
qed (use assms(3) in \<open>auto simp: worldReads_def allReads_def acts_def spawn_def split: if_splits dest!: startControl_eq\<close>)

lemma inv_step:
  assumes "accounted w" and "step ev fe e w = Some w'" and "inv (wFe w)" and "ok (worldReads w)"
  shows "inv (wFe w')"
proof (cases e)
  case (EvThread i)
  obtain a M as w1 where *: "acts w = add_mset a M" "exec ev fe a w = (as, w1)" "acts w' = mset as + M"
    "w' = w1\<lparr>wThreads := wThreads w'\<rparr>"
    using step_thread assms(2) EvThread by metis
  show ?thesis
    by (rule reads_exec(2) [OF assms(1) *(1,2,3) _ _ assms(3,4)]) (subst *(4), simp)+
next
  case (EvCtl t)
  from assms(2) [unfolded EvCtl] show ?thesis
  proof (cases rule: step_ctl)
    case (data a M as w1)
    show ?thesis
      by (rule reads_exec(2) [OF assms(1) data(1,2,3) _ _ assms(3,4)]) (subst data(4), simp)+
  next
    case (control c k as cs w1)
    then show ?thesis
      using ctl_reads_front [OF control(3) assms(3)] by simp
  qed
qed (use assms(2,3) in \<open>auto simp: spawn_def enterDataPath_def split: if_splits prod.splits bool.splits
      option.splits dest!: startControl_eq withData_eq\<close>)

text \<open>The reads the events of a run hand over.\<close>

definition handedOver :: "event list \<Rightarrow> nat multiset" where
  "handedOver es = sum_list (map (handed held) es)"

lemma reads_runs:
  assumes "runs ev fe es w = Some w'" and "accounted w" and "bounded w" and "inv (wFe w)"
    and "ok (worldReads w + handedOver es)"
  shows "worldReads w' = worldReads w + handedOver es" and "inv (wFe w')"
proof -
  have "worldReads w' = worldReads w + handedOver es \<and> inv (wFe w')"
    using assms
  proof (induction es arbitrary: w)
    case (Cons e es)
    then obtain w1 where w1: "step ev fe e w = Some w1" "runs ev fe es w1 = Some w'"
      by (auto split: option.splits)
    have "worldReads w \<subseteq># worldReads w + handedOver (e # es)"
      by simp
    then have ok: "ok (worldReads w)"
      by (rule ok_mono [OF Cons.prems(5)])
    have eq: "worldReads w1 = worldReads w + handed held e"
      by (rule reads_step [OF Cons.prems(2,3) w1(1) Cons.prems(4) ok])
    have "ok (worldReads w1 + handedOver es)"
      using Cons.prems(5) by (simp add: eq handedOver_def ac_simps)
    then show ?case
      using Cons.IH [OF w1(2) accounted_step [OF Cons.prems(2,3) w1(1)] bounded_step [OF Cons.prems(2,3) w1(1)]
          inv_step [OF Cons.prems(2) w1(1) Cons.prems(4) ok]] eq
      by (simp add: handedOver_def ac_simps)
  qed (simp add: handedOver_def)
  then show "worldReads w' = worldReads w + handedOver es" "inv (wFe w')"
    by simp_all
qed

end

end
