(* ===== verification/Capture_Shape.thy ===== *)
theory Capture_Shape
  imports Capture_Runs
begin

text \<open>
  The control program that remains to be performed, judged statically: where the steps of a
  quiesce, of a release and of a resume may stand, and that every step which relies on a draining
  engine is reached with Draining set.
\<close>

section \<open>Positions\<close>

definition positioned :: "cact list \<Rightarrow> bool" where
  "positioned cs \<longleftrightarrow> (\<forall>c\<in>set (tl cs). \<not> special c) \<and> (\<forall>c\<in>set (dropWhile isRelFrame cs). \<not> isRelFrame c) \<and>
     Work WorkResume \<notin> set (tl (dropWhile isQuiesce cs))"

section \<open>Draining along the program\<close>

text \<open>
  \<open>okFrom dr cs\<close>: started with the Draining flag at least \<open>dr\<close>, every step of the program that
  needs a draining engine finds one.
\<close>

fun okFrom :: "bool \<Rightarrow> cact list \<Rightarrow> bool" where
  "okFrom dr [] = True"
| "okFrom dr (Quiesce a # cs) = ((a = QBegin \<or> dr) \<and> okFrom True cs)"
| "okFrom dr (Release a # cs) = (dr \<and> okFrom dr cs)"
| "okFrom dr (Listen a # cs) = okFrom dr cs"
| "okFrom dr (Start (StartCheck e) # cs) = okFrom False cs"
| "okFrom dr (Start (StartRetried e) # cs) = (dr \<and> okFrom False cs)"
| "okFrom dr (Start (StartBringUp e) # cs) = (dr \<and> okFrom False cs)"
| "okFrom dr (Start (StartOpen e) # cs) = (dr \<and> okFrom False cs)"
| "okFrom dr (Start (StartEnable e) # cs) = okFrom False cs"
| "okFrom dr (Stop StopCheck # cs) = okFrom True cs"
| "okFrom dr (Stop StopRetry # cs) = (dr \<and> okFrom dr cs)"
| "okFrom dr (Stop (PublishState st) # cs) = okFrom dr cs"
| "okFrom dr (Stop DisableCamera # cs) = okFrom dr cs"
| "okFrom dr (Stop WaitPumpIdle # cs) = okFrom dr cs"
| "okFrom dr (Stop DrainReads # cs) = okFrom dr cs"
| "okFrom dr (Stop ArmShot # cs) = okFrom dr cs"
| "okFrom dr (Work WorkService # cs) = okFrom False cs"
| "okFrom dr (Work WorkResume # cs) = (dr \<and> okFrom False cs)"
| "okFrom dr (Work WorkEnable # cs) = okFrom dr cs"
| "okFrom dr (Work WorkRetry # cs) = okFrom dr cs"
| "okFrom dr (Work WorkDone # cs) = okFrom dr cs"
| "okFrom dr (Close CloseDestroy # cs) = (dr \<and> okFrom dr cs)"
| "okFrom dr (Close CloseBegin # cs) = okFrom False cs"
| "okFrom dr (Close CloseWait # cs) = okFrom dr cs"
| "okFrom dr (Close CloseEnd # cs) = okFrom dr cs"
| "okFrom dr (Return st # cs) = okFrom dr cs"

lemma okFrom_mono: "okFrom False cs \<Longrightarrow> okFrom dr cs"
  by (induction dr cs rule: okFrom.induct) auto

lemma okFrom_mono_True: "okFrom dr cs \<Longrightarrow> okFrom True cs"
  by (induction dr cs rule: okFrom.induct) auto

section \<open>Every control step keeps the program in shape\<close>

lemma drain_view: "engView c' = engView c \<Longrightarrow> Draining c' = Draining c"
  by (rule engView_fields)

lemma ok_quiesce:
  assumes "quiesceStep ev a t w = Some (as, cs, w1)" and "okFrom (Draining (wEng w)) (Quiesce a # k)"
  shows "okFrom (Draining (wEng w1)) (cs @ k)"
  using assms drain_view [OF view_stopContext, of ev w]
  by (cases a) (auto simp: control_programs split: if_splits prod.splits option.splits)

lemma ok_release:
  assumes "releaseStep ev a w = Some (as, cs, w1)" and "okFrom (Draining (wEng w)) (Release a # k)"
  shows "okFrom (Draining (wEng w1)) (cs @ k)"
proof (cases a)
  case RelIsoch
  obtain fl c d where r: "PhotonicCaptureResourceReleaseIsoch ev (wEng w, wDrv w) = (fl, (c, d))"
    by (metis prod.collapse)
  show ?thesis
    using assms RelIsoch drain_view [OF view_ReleaseIsoch [OF r]]
    by (auto simp: releaseIsoch_def eng_def r setEng_def releaseFrames_def frameIndices_eq split: if_splits)
qed (use assms drain_view [OF view_FreeChunkMdls] in \<open>auto simp: onEng_def releaseFrame_def split: if_splits\<close>)

lemma ok_listen:
  assumes "listenStep ev a t w = Some (as, cs, w1)" and "okFrom (Draining (wEng w)) (Listen a # k)"
  shows "okFrom (Draining (wEng w1)) (cs @ k)"
  using assms by (cases a) (auto split: if_splits prod.splits)

lemma ok_start:
  assumes "startStep ev a w = Some (as, cs, w1)" and "okFrom (Draining (wEng w)) (Start a # k)"
  shows "okFrom (Draining (wEng w1)) (cs @ k)"
proof (cases a)
  case (StartBringUp e)
  obtain st s c d where r: "bringUpSession ev (wStream w, (wEng w, wDrv w)) = (st, (s, (c, d)))"
    by (metis prod.collapse)
  show ?thesis
    using assms StartBringUp drain_view [OF view_bringUp [OF r]]
    by (auto simp: eng_def r setEng_def intro: okFrom_mono)
next
  case (StartEnable e)
  obtain cs1 c d where r: "startEnable ev e (wStream w) (wEng w, wDrv w) = (cs1, (c, d))"
    by (metis prod.collapse)
  have "okFrom False (cs1 @ k)"
    using assms StartEnable r
    by (auto simp: startEnable_def control_programs split: if_splits prod.splits sum.splits intro: okFrom_mono)
  then show ?thesis
    using assms StartEnable by (auto simp: eng_def r setEng_def intro: okFrom_mono)
qed (use assms in \<open>auto simp: control_programs startOpen_def split: if_splits intro: okFrom_mono\<close>)

lemma ok_stop:
  assumes "stopStep ev fe a w = Some (as, cs, w1)" and "okFrom (Draining (wEng w)) (Stop a # k)"
  shows "okFrom (Draining (wEng w1)) (cs @ k)"
  using assms drain_view [OF view_DisableCamera [of ev "wStream w" "wEng w" "wDrv w"]]
  by (cases a) (auto simp: control_programs setEng_def eng_def split: if_splits option.splits prod.splits)

lemma ok_work:
  assumes "workStep ev a w = Some (as, cs, w1)" and "okFrom (Draining (wEng w)) (Work a # k)"
  shows "okFrom (Draining (wEng w1)) (cs @ k)"
  using assms drain_view [OF view_workEnable [of ev "wEng w" "wDrv w"]]
  by (cases a) (auto simp: control_programs setEng_def eng_def workRetry_def Let_def
      split: if_splits intro: okFrom_mono)

lemma ok_close:
  assumes "closeStep a w = Some (as, cs, w1)" and "okFrom (Draining (wEng w)) (Close a # k)"
  shows "okFrom (Draining (wEng w1)) (cs @ k)"
  using assms drain_view [OF view_FreeChunkMdls] drain_view [OF view_PoolFree]
  by (cases a) (auto simp: control_programs PhotonicCaptureDestroy_def split: if_splits intro: okFrom_mono okFrom_mono_True)

lemma ok_ctl:
  assumes "ctlStep ev fe c t w = Some (as, cs, w1)" and "okFrom (Draining (wEng w)) (c # k)"
  shows "okFrom (Draining (wEng w1)) (cs @ k)"
  using assms
  by (cases c) (simp_all only: ctlStep.simps ok_quiesce ok_release ok_listen ok_start ok_stop ok_work ok_close, auto)

text \<open>The same for the positions.\<close>

lemma in_set_tlD: "x \<in> set (tl xs) \<Longrightarrow> x \<in> set xs"
  by (cases xs) auto

lemma special_tail:
  assumes "programOf c cs" and "\<forall>x\<in>set k. \<not> special x"
  shows "\<forall>x\<in>set (tl (cs @ k)). \<not> special x"
proof (cases cs)
  case Nil
  then show ?thesis
    using assms(2) by (auto dest: in_set_tlD)
next
  case (Cons x xs)
  then show ?thesis
    using assms by (auto simp: programOf_def)
qed

lemma relFrame_prefix:
  assumes "programOf c cs" and "\<forall>x\<in>set k. \<not> isRelFrame x"
  shows "\<forall>x\<in>set (dropWhile isRelFrame (cs @ k)). \<not> isRelFrame x"
proof -
  from assms(1) have "(\<forall>x\<in>set cs. \<not> isRelFrame x) \<or> cs = releaseFrames"
    by (auto simp: programOf_def)
  then show ?thesis
  proof
    assume "\<forall>x\<in>set cs. \<not> isRelFrame x"
    then have "\<forall>x\<in>set (cs @ k). \<not> isRelFrame x"
      using assms(2) by auto
    then show ?thesis
      using set_dropWhileD by metis
  next
    assume "cs = releaseFrames"
    then show ?thesis
      using assms(2) by (simp add: releaseFrames_def frameIndices_eq)
  qed
qed

lemma resume_prefix:
  assumes "programOf c cs" and "Work WorkResume \<notin> set k"
  shows "Work WorkResume \<notin> set (tl (dropWhile isQuiesce (cs @ k)))"
proof (cases "Work WorkResume \<in> set cs")
  case True
  then have "cs = [Quiesce QBegin, Work WorkResume] @ workTail"
    using assms(1) unfolding programOf_def by blast
  then show ?thesis
    using assms(2) by (simp add: workTail_def)
next
  case False
  then have "Work WorkResume \<notin> set (cs @ k)"
    using assms(2) by simp
  then show ?thesis
    using in_set_tlD set_dropWhileD by metis
qed

lemma relFrame_program:
  assumes "ctlStep ev fe c t w = Some (as, cs, w1)" and "isRelFrame c"
  shows "cs = []"
  using assms by (auto elim!: isRelFrame.elims simp: onEng_def split: prod.splits)

lemma quiesce_program:
  assumes "quiesceStep ev a t w = Some (as, cs, w1)"
  shows "\<forall>x\<in>set cs. isQuiesce x"
  using assms by (cases a) (auto simp: control_programs split: prod.splits if_splits option.splits)

lemma positioned_ctl:
  assumes "ctlStep ev fe c t w = Some (as, cs, w1)" and "positioned (c # k)"
  shows "positioned (cs @ k)"
  unfolding positioned_def
proof (intro conjI)
  have prog: "programOf c cs"
    by (rule ctl_program [OF assms(1)])
  show "\<forall>x\<in>set (tl (cs @ k)). \<not> special x"
    by (rule special_tail [OF prog]) (use assms(2) in \<open>simp add: positioned_def\<close>)
  show "\<forall>x\<in>set (dropWhile isRelFrame (cs @ k)). \<not> isRelFrame x"
  proof (cases "isRelFrame c")
    case True
    then show ?thesis
      using relFrame_program [OF assms(1)] assms(2) by (simp add: positioned_def)
  next
    case False
    show ?thesis
      by (rule relFrame_prefix [OF prog]) (use assms(2) False in \<open>simp add: positioned_def\<close>)
  qed
  show "Work WorkResume \<notin> set (tl (dropWhile isQuiesce (cs @ k)))"
  proof (cases c)
    case (Quiesce a)
    then have "\<forall>x\<in>set cs. isQuiesce x"
      using quiesce_program [of ev a t w] assms(1) by simp
    then have "dropWhile isQuiesce (cs @ k) = dropWhile isQuiesce k"
      by (induction cs) simp_all
    then show ?thesis
      using Quiesce assms(2) by (simp add: positioned_def)
  qed (rule resume_prefix [OF prog]; use assms(2) in \<open>simp add: positioned_def\<close>)+
qed

end
