(* ===== verification/Capture_Safety.thy ===== *)
theory Capture_Safety
  imports Capture_Shape Capture_Resource_Props
begin

text \<open>
  The ordering rule of the teardown: a buffer is detached unfinished only from a stopped context,
  and the isochronous resources are released only after every attach and detach IRP has drained.
  The rule rests on one promise of the bus driver, the hypothesis \<open>stopsAccepted\<close>: as long as the
  camera has a bus device object, it accepts the stop of the isochronous context, and fires no
  frame callback afterwards.
\<close>

definition stopsAccepted :: "'b env \<Rightarrow> bool" where
  "stopsAccepted ev \<longleftrightarrow> (\<forall>h d. HasPdo (fst d) \<longrightarrow> NT_SUCCESS (fst (fst (submit ev (ISOCH_STOP h) d))))"

definition onBus :: "('b, 'f) world \<Rightarrow> bool" where
  "onBus w \<longleftrightarrow> HasPdo (fst (wDrv w))"

section \<open>The device stays on the bus\<close>

lemma onBus_simps [simp]:
  "onBus (w\<lparr>wEng := xwEng\<rparr>) = onBus w" "onBus (w\<lparr>wStream := xwStream\<rparr>) = onBus w" "onBus (w\<lparr>wFe := xwFe\<rparr>) = onBus w"
  "onBus (w\<lparr>wGate := xwGate\<rparr>) = onBus w" "onBus (w\<lparr>wOpen := xwOpen\<rparr>) = onBus w" "onBus (w\<lparr>wLife := xwLife\<rparr>) = onBus w"
  "onBus (w\<lparr>wCtlData := xwCtlData\<rparr>) = onBus w" "onBus (w\<lparr>wCtl := xwCtl\<rparr>) = onBus w" "onBus (w\<lparr>wThreads := xwThreads\<rparr>) = onBus w"
  "onBus (w\<lparr>wAttach := xwAttach\<rparr>) = onBus w" "onBus (w\<lparr>wDetach := xwDetach\<rparr>) = onBus w" "onBus (w\<lparr>wArmed := xwArmed\<rparr>) = onBus w"
  "onBus (w\<lparr>wRunning := xwRunning\<rparr>) = onBus w" "onBus (w\<lparr>wQueued := xwQueued\<rparr>) = onBus w" "onBus (w\<lparr>wWorkItems := xwWorkItems\<rparr>) = onBus w"
  "onBus (w\<lparr>wWorkers := xwWorkers\<rparr>) = onBus w" "onBus (w\<lparr>wWorkLocks := xwWorkLocks\<rparr>) = onBus w" "onBus (w\<lparr>wReturned := xwReturned\<rparr>) = onBus w"
  by (simp_all add: onBus_def)

lemma same_pdo: "same_device d d' \<Longrightarrow> HasPdo (fst d') = HasPdo (fst d)"
  by (simp add: same_device_def same_ext_fields)

lemma submit_pdo: "submit ev i d = (r, d') \<Longrightarrow> HasPdo (fst d') = HasPdo (fst d)"
  by (auto simp: submit_def split: prod.splits)

lemma write_pdo: "Photonic1394WriteRegister ev off v d = (r, d') \<Longrightarrow> HasPdo (fst d') = HasPdo (fst d)"
  using keepsD [OF WriteRegister_same] same_pdo by metis

lemma freeOne_pdo: "PhotonicCaptureResourceFreeOne ev i d = (r, d') \<Longrightarrow> HasPdo (fst d') = HasPdo (fst d)"
  by (auto simp: PhotonicCaptureResourceFreeOne_def split: prod.splits)

lemma pdo_stop: "PhotonicCaptureResourceIsochStop ev (c, d) = (c', d') \<Longrightarrow> HasPdo (fst d') = HasPdo (fst d)"
  by (auto simp: PhotonicCaptureResourceIsochStop_def split: prod.splits dest!: submit_pdo)

lemma pdo_freeHandle: "freeHandle ev (c, d) = (fl, (c', d')) \<Longrightarrow> HasPdo (fst d') = HasPdo (fst d)"
  by (auto simp: freeHandle_def split: prod.splits if_splits bool.splits dest!: freeOne_pdo)

lemma pdo_freeBandwidth: "freeBandwidth ev (c, d) = (c', d') \<Longrightarrow> HasPdo (fst d') = HasPdo (fst d)"
  by (auto simp: freeBandwidth_def split: prod.splits if_splits bool.splits dest!: freeOne_pdo)

lemma pdo_freeChannel: "freeChannel ev (c, d) = (c', d') \<Longrightarrow> HasPdo (fst d') = HasPdo (fst d)"
  by (auto simp: freeChannel_def split: prod.splits if_splits bool.splits dest!: freeOne_pdo)

lemma pdo_release:
  assumes "PhotonicCaptureResourceReleaseIsoch ev (c, d) = (fl, (c', d'))"
  shows "HasPdo (fst d') = HasPdo (fst d)"
proof -
  obtain c1 d1 where 1: "(if Listening c then PhotonicCaptureResourceIsochStop ev (c, d) else (c, d)) = (c1, d1)"
    by (metis prod.collapse)
  obtain fl2 c2 d2 where 2: "freeHandle ev (c1, d1) = (fl2, (c2, d2))"
    by (metis prod.collapse)
  obtain c3 d3 where 3: "freeBandwidth ev (c2, d2) = (c3, d3)"
    by (metis prod.collapse)
  have 4: "freeChannel ev (c3, d3) = (c', d')"
    using assms by (simp add: PhotonicCaptureResourceReleaseIsoch_def Let_def 1 2 3)
  show ?thesis
    using 1 pdo_stop [of ev c d c1 d1] pdo_freeHandle [OF 2] pdo_freeBandwidth [OF 3] pdo_freeChannel [OF 4]
    by (simp split: if_splits)
qed

lemma pdo_enable: "PhotonicDcamSetIsochEnable ev b d = (r, d') \<Longrightarrow> HasPdo (fst d') = HasPdo (fst d)"
  unfolding PhotonicDcamSetIsochEnable_def by (rule write_pdo)

lemma pdo_oneShot: "PhotonicDcamOneShot ev b d = (r, d') \<Longrightarrow> HasPdo (fst d') = HasPdo (fst d)"
  unfolding PhotonicDcamOneShot_def by (rule write_pdo)

lemma pdo_startEnable: "startEnable ev ex s (c, d) = (cs, (c', d')) \<Longrightarrow> HasPdo (fst d') = HasPdo (fst d)"
  by (auto simp: startEnable_def split: prod.splits sum.splits if_splits dest: pdo_enable)

lemma pdo_workEnable: "workEnable ev (c, d) = (c', d') \<Longrightarrow> HasPdo (fst d') = HasPdo (fst d)"
  by (auto simp: workEnable_def split: prod.splits sum.splits if_splits dest: pdo_enable)

lemma pdo_DisableCamera:
  "PhotonicCaptureTeardownDisableCamera ev s (c, d) = (c', d') \<Longrightarrow> HasPdo (fst d') = HasPdo (fst d)"
  using pdo_enable [of ev False d] pdo_oneShot [of ev False]
  by (auto simp: PhotonicCaptureTeardownDisableCamera_def Let_def split: if_splits) (metis prod.collapse)+

definition keepsPdo :: "('b eng \<Rightarrow> 'r \<times> 'b eng) \<Rightarrow> bool" where
  "keepsPdo m \<longleftrightarrow> (\<forall>c d r c' d'. m (c, d) = (r, (c', d')) \<longrightarrow> HasPdo (fst d') = HasPdo (fst d))"

lemma pdo_thenStep: "keepsPdo m \<Longrightarrow> keepsPdo n \<Longrightarrow> keepsPdo (thenStep m n)"
  unfolding keepsPdo_def thenStep_def by (auto split: prod.splits if_splits) blast+

lemma pdo_setChannel: "PhotonicDcamSetIsochChannel ev ch sp d = (r, d') \<Longrightarrow> HasPdo (fst d') = HasPdo (fst d)"
  by (auto simp: PhotonicDcamSetIsochChannel_def Let_def fail_def split: if_splits dest: write_pdo)

lemma pdo_allocations:
  "keepsPdo (sessionChunks ev)" "keepsPdo (PhotonicCaptureResourceAllocateChannel ev)"
  "keepsPdo (setCameraChannel ev)" "keepsPdo (PhotonicCaptureResourceAllocateBandwidth ev f)"
  "keepsPdo (PhotonicCaptureResourceAllocateHandle ev f)"
  unfolding keepsPdo_def sessionChunks_def PhotonicCaptureResourceAllocateChannel_def setCameraChannel_def
    PhotonicCaptureResourceAllocateBandwidth_def PhotonicCaptureResourceAllocateHandle_def
  by (auto split: prod.splits dest!: submit_pdo pdo_setChannel)

lemma pdo_bringUp:
  assumes "bringUpSession ev (s, (c, d)) = (st, (s', (c', d')))"
  shows "HasPdo (fst d') = HasPdo (fst d)"
proof -
  have res: "keepsPdo (\<lambda>e0. thenStep (sessionChunks ev) (thenStep (PhotonicCaptureResourceAllocateChannel ev)
      (thenStep (setCameraChannel ev) (thenStep (PhotonicCaptureResourceAllocateBandwidth ev f)
        (PhotonicCaptureResourceAllocateHandle ev f)))) e0)" for f
    by (intro pdo_thenStep pdo_allocations)
  have "HasPdo (fst d2) = HasPdo (fst d1)" if "sessionResources ev (c1, d1) = (st1, (c2, d2))" for c1 d1 st1 c2 d2
    using that res unfolding sessionResources_def Let_def keepsPdo_def by blast
  then show ?thesis
    using assms
    by (auto simp: bringUpSession_def split: prod.splits sum.splits if_splits
        dest!: ConfigureStream_same same_pdo)
qed

lemma bus_device:
  assumes "ctlStep ev fe c t w = Some (as, cs, w1)"
  shows "onBus w1 = onBus w"
proof (cases c)
  case (Quiesce a)
  have "HasPdo (fst (snd (PhotonicCaptureResourceIsochStop ev (wEng w, wDrv w)))) = HasPdo (fst (wDrv w))"
    using pdo_stop by (metis prod.collapse)
  then show ?thesis
    using assms Quiesce by (cases a) (auto simp: onBus_def stopContext_def setEng_def eng_def split: prod.splits if_splits)
next
  case (Release a)
  then show ?thesis
    using assms by (cases a)
      (auto simp: onBus_def releaseIsoch_def setEng_def eng_def onEng_def split: prod.splits if_splits dest: pdo_release)
next
  case (Listen a)
  then show ?thesis
    using assms by (cases a) (auto simp: onBus_def split: prod.splits if_splits dest: submit_pdo)
next
  case (Start a)
  then show ?thesis
    using assms by (cases a)
      (auto simp: onBus_def setEng_def eng_def split: prod.splits if_splits dest: pdo_bringUp pdo_startEnable)
next
  case (Stop a)
  have "HasPdo (fst (snd (PhotonicCaptureTeardownDisableCamera ev (wStream w) (wEng w, wDrv w)))) = HasPdo (fst (wDrv w))"
    using pdo_DisableCamera by (metis prod.collapse)
  then show ?thesis
    using assms Stop by (cases a) (auto simp: onBus_def setEng_def eng_def split: if_splits option.splits prod.splits
        dest: pdo_oneShot)
next
  case (Work a)
  have "HasPdo (fst (snd (workEnable ev (wEng w, wDrv w)))) = HasPdo (fst (wDrv w))"
    using pdo_workEnable by (metis prod.collapse)
  then show ?thesis
    using assms Work by (cases a) (auto simp: onBus_def setEng_def eng_def split: prod.splits if_splits)
next
  case (Close a)
  then show ?thesis
    using assms by (cases a) (auto simp: onBus_def split: prod.splits if_splits)
qed (use assms in \<open>auto simp: onBus_def\<close>)

lemma exec_device:
  assumes "exec ev fe a w = (as, w')"
  shows "onBus w' = onBus w"
  using assms by (cases a) (auto simp: onBus_def exec_sections split: prod.splits if_splits)

section \<open>Settled engines\<close>

definition settled :: "capture \<Rightarrow> bool" where
  "settled c \<longleftrightarrow> InFlightIrps c = 0 \<and> PendingList c = []"

text \<open>What an act changes of the control flags, and what it may do to a draining engine.\<close>

lemma exec_flags:
  assumes "exec ev fe a w = (as, w')"
  shows "Draining (wEng w') = Draining (wEng w)" "ResourceAllocated (wEng w') = ResourceAllocated (wEng w)"
  using assms
  by (cases a; auto simp: exec_sections PhotonicCapturePumpAttachComplete_def PhotonicCapturePumpPrime_def
      PhotonicCapturePumpDetachComplete_def lapEmpty_def lapReject_def lapPublish_def lapClaim_def
      lapAcquired_def recycleTail_def returnHead_def withState_def claimDetach_def unlinkPending_def
      updFrame_def split: prod.splits if_splits list.splits option.splits)+

lemma exec_drained:
  assumes "exec ev fe a w = (as, w')" and "Draining (wEng w)" and "InFlightIrps (wEng w) = 0"
    and "accounted w" and "acts w = add_mset a M"
  shows "InFlightIrps (wEng w') = 0 \<and> PendingList (wEng w') = PendingList (wEng w)"
proof -
  have "irpTok a = 0"
    using assms(3-5) by (simp add: accounted_def irpsCounted_def)
  then show ?thesis
    using assms(1-3)
    by (cases a) (auto simp: exec_sections lapEmpty_def lapReject_def lapPublish_def
        dest!: lapClaim_cases lapAcquired_cases split: prod.splits if_splits)
qed

section \<open>The control program and the bus\<close>

definition atHead :: "(cact \<Rightarrow> bool) \<Rightarrow> cact list \<Rightarrow> bool" where
  "atHead P cs \<longleftrightarrow> cs \<noteq> [] \<and> P (hd cs)"

lemma atHead_simps [simp]: "\<not> atHead P []" "atHead P (c # cs) \<longleftrightarrow> P c"
  by (simp_all add: atHead_def)

lemma atHead_append: "atHead P (cs @ k) \<longleftrightarrow> atHead P cs \<or> cs = [] \<and> atHead P k"
  by (cases cs) simp_all

fun opensEngine :: "cact \<Rightarrow> bool" where
  "opensEngine (Start (StartOpen e)) = True"
| "opensEngine _ = False"

fun bringsUp :: "cact \<Rightarrow> bool" where
  "bringsUp (Start (StartBringUp e)) = True"
| "bringsUp _ = False"

fun strictQuiesce :: "cact \<Rightarrow> bool" where
  "strictQuiesce (Quiesce a) = (a \<noteq> QBegin)"
| "strictQuiesce _ = False"

lemma strict_special: "strictQuiesce c \<Longrightarrow> special c" "opensEngine c \<Longrightarrow> special c"
  by (cases c; auto elim!: opensEngine.elims)+

text \<open>What one control step does to the flags the teardown rests on.\<close>

definition flagEffect :: "capture \<Rightarrow> bool \<Rightarrow> cact \<Rightarrow> cact list \<Rightarrow> capture \<Rightarrow> bool \<Rightarrow> bool" where
  "flagEffect e r c cs e' r' \<longleftrightarrow>
     (Draining e' = Draining e \<or> c = Quiesce QBegin \<and> Draining e' \<and> cs = [Quiesce QStop] \<or>
        opensEngine c \<and> \<not> Draining e' \<or> c = Work WorkResume \<and> \<not> Draining e' \<and> cs = []) \<and>
     (ResourceAllocated e \<longrightarrow> ResourceAllocated e' \<or> c = Release RelIsoch \<or> bringsUp c) \<and>
     (r' \<longrightarrow> (r \<and> \<not> (c = Quiesce QStop \<and> ResourceAllocated e)) \<or> c = Listen LIssue) \<and>
     (atHead (\<lambda>x. x = Quiesce QStop) cs \<longrightarrow> c = Quiesce QBegin \<and> \<not> Draining e) \<and>
     (atHead (\<lambda>x. x = Listen LIssue) cs \<longrightarrow> \<not> Draining e \<and> e' = e) \<and>
     (atHead opensEngine cs \<longrightarrow> ResourceAllocated e') \<and>
     (Work WorkResume \<in> set cs \<longrightarrow> \<not> Draining e)"

lemma FreeChunkMdls_resource: "ResourceAllocated (PhotonicCapturePoolFreeChunkMdls c) = ResourceAllocated c"
  by (simp add: PhotonicCapturePoolFreeChunkMdls_def frameIndices_eq updFrame_def)

lemma PoolFree_resource: "ResourceAllocated (PhotonicCapturePoolFree c) = ResourceAllocated c"
  by (simp add: PhotonicCapturePoolFree_def frameIndices_eq updFrame_def)

lemma stopsAcceptedD: "stopsAccepted ev \<Longrightarrow> HasPdo (fst (snd e)) \<Longrightarrow> stopAccepted ev e"
  unfolding stopsAccepted_def stopAccepted_def by blast

lemma stopContext_effect:
  "Draining (wEng (stopContext ev w)) = Draining (wEng w)"
  "ResourceAllocated (wEng (stopContext ev w)) = ResourceAllocated (wEng w)"
  "stopsAccepted ev \<Longrightarrow> onBus w \<Longrightarrow> \<not> wRunning (stopContext ev w)"
  by (auto simp: onBus_def stopContext_def setEng_def eng_def PhotonicCaptureResourceIsochStop_def stopsAcceptedD
      split: prod.splits)

lemma moved_resource [simp]:
  "ResourceAllocated (claimDetach d st c) = ResourceAllocated c"
  "ResourceAllocated (recycleTail d c) = ResourceAllocated c"
  by (simp_all add: claimDetach_def unlinkPending_def recycleTail_def updFrame_def)

lemma flags_quiesce:
  assumes "quiesceStep ev a t w = Some (as, cs, w1)" and "stopsAccepted ev" and "onBus w"
  shows "flagEffect (wEng w) (wRunning w) (Quiesce a) cs (wEng w1) (wRunning w1)"
proof (cases a)
  case QBegin
  then show ?thesis
    using assms(1) by (auto simp: flagEffect_def quiesceBegin_def split: if_splits)
next
  case QStop
  then show ?thesis
    using assms(1) stopContext_effect [of ev w] assms(2,3) by (auto simp: flagEffect_def split: if_splits)
next
  case QClaim
  then show ?thesis
    using assms(1) by (auto simp: flagEffect_def quiesceClaim_def split: option.splits)
qed (use assms(1) in \<open>auto simp: flagEffect_def quiesceEmpty_def split: if_splits\<close>)

lemma releaseFrames_head [simp]:
  "atHead P releaseFrames = P (Release (RelFrame 0))" "Work WorkResume \<notin> set releaseFrames"
  by (auto simp: releaseFrames_def frameIndices_eq)

lemma shutdown_head [simp]:
  "atHead P shutdownProgram = P (Stop (PublishState KSSTATE_STOP))" "Work WorkResume \<notin> set shutdownProgram"
  "shutdownProgram \<noteq> []"
  by (simp_all add: shutdownProgram_def)

lemma flags_RelIsoch:
  assumes "releaseIsoch ev w = (cs, w1)"
  shows "flagEffect (wEng w) (wRunning w) (Release RelIsoch) cs (wEng w1) (wRunning w1)"
proof -
  obtain fl c d where r: "PhotonicCaptureResourceReleaseIsoch ev (wEng w, wDrv w) = (fl, (c, d))"
    by (metis prod.collapse)
  have c: "Draining c = Draining (wEng w)"
    using view_ReleaseIsoch [OF r] by (rule drain_view)
  have w1: "wEng w1 = c" "wRunning w1 = wRunning w" and cs: "cs = [] \<or> cs = releaseFrames"
    using assms by (auto simp: releaseIsoch_def eng_def r setEng_def split: if_splits)
  from cs show ?thesis
    by (elim disjE) (simp_all add: flagEffect_def w1 c)
qed

lemma flags_RelFrame:
  "releaseFrame i e = (as, e') \<Longrightarrow> flagEffect e r (Release (RelFrame i)) [] e' r"
  by (auto simp: flagEffect_def releaseFrame_def split: if_splits)

lemma flags_RelChunks: "flagEffect e r (Release RelChunks) [] (PhotonicCapturePoolFreeChunkMdls e) r"
  using drain_view [OF view_FreeChunkMdls] by (simp add: flagEffect_def FreeChunkMdls_resource)

lemma flags_release:
  assumes "releaseStep ev a w = Some (as, cs, w1)"
  shows "flagEffect (wEng w) (wRunning w) (Release a) cs (wEng w1) (wRunning w1)"
  using assms flags_RelIsoch flags_RelFrame flags_RelChunks
  by (cases a) (auto simp: onEng_def split: prod.splits)

lemma flags_listen:
  assumes "listenStep ev a t w = Some (as, cs, w1)"
  shows "flagEffect (wEng w) (wRunning w) (Listen a) cs (wEng w1) (wRunning w1)"
  using assms by (cases a) (auto simp: flagEffect_def listenBlocked_def split: prod.splits if_splits)

lemma sessionResources_holds:
  assumes "sessionResources ev e = (st, (c, d))" and "NT_SUCCESS st"
  shows "ResourceAllocated c"
  using assms
  by (auto simp: sessionResources_def thenStep_def PhotonicCaptureResourceAllocateHandle_def Let_def
      split: prod.splits if_splits)

lemma bringUp_holds:
  assumes "bringUpSession ev (s, (c, d)) = (st, (s', (c', d')))" and "NT_SUCCESS st"
  shows "ResourceAllocated c'"
  using assms
  by (auto simp: bringUpSession_def split: prod.splits sum.splits if_splits
      dest: sessionResources_holds ConfigureStream_fails)

lemma flags_start:
  assumes "startStep ev a w = Some (as, cs, w1)"
  shows "flagEffect (wEng w) (wRunning w) (Start a) cs (wEng w1) (wRunning w1)"
proof (cases a)
  case (StartBringUp ex)
  obtain st s c d where r: "bringUpSession ev (wStream w, (wEng w, wDrv w)) = (st, (s, (c, d)))"
    by (metis prod.collapse)
  show ?thesis
    using assms StartBringUp drain_view [OF view_bringUp [OF r]] bringUp_holds [OF r]
    by (auto simp: flagEffect_def eng_def r setEng_def split: if_splits)
next
  case (StartEnable ex)
  obtain cs1 c d where r: "startEnable ev ex (wStream w) (wEng w, wDrv w) = (cs1, (c, d))"
    by (metis prod.collapse)
  have "ResourceAllocated c = ResourceAllocated (wEng w)" "cs1 = runProgram \<or> (\<exists>st. cs1 = stopProgram @ [Return st])"
    using r by (auto simp: startEnable_def split: prod.splits sum.splits if_splits)
  then show ?thesis
    using assms StartEnable drain_view [OF view_startEnable [OF r]]
    by (auto simp: flagEffect_def eng_def r setEng_def runProgram_def stopProgram_def)
qed (use assms in \<open>auto simp: flagEffect_def startCheck_def startRetried_def runProgram_def startOpen_def
      split: if_splits\<close>)

lemma DisableCamera_resource:
  "ResourceAllocated (fst (PhotonicCaptureTeardownDisableCamera ev s (c, d))) = ResourceAllocated c"
  by (simp add: PhotonicCaptureTeardownDisableCamera_def Let_def)

lemma workEnable_resource: "ResourceAllocated (fst (workEnable ev (c, d))) = ResourceAllocated c"
  by (auto simp: workEnable_def split: prod.splits sum.splits)

lemma flags_stop:
  assumes "stopStep ev fe a w = Some (as, cs, w1)"
  shows "flagEffect (wEng w) (wRunning w) (Stop a) cs (wEng w1) (wRunning w1)"
  using assms drain_view [OF view_DisableCamera [of ev "wStream w" "wEng w" "wDrv w"]]
  by (cases a) (auto simp: flagEffect_def stopCheck_def shutdownProgram_def setEng_def eng_def
      DisableCamera_resource [of ev "wStream w" "wEng w" "wDrv w"] split: if_splits option.splits prod.splits)

lemma flags_work:
  assumes "workStep ev a w = Some (as, cs, w1)"
  shows "flagEffect (wEng w) (wRunning w) (Work a) cs (wEng w1) (wRunning w1)"
proof (cases a)
  case WorkService
  then show ?thesis
    using assms by (auto simp: flagEffect_def workService_def workTail_def split: if_splits)
next
  case WorkResume
  then show ?thesis
    using assms by (auto simp: flagEffect_def workResume_def split: if_splits)
next
  case WorkEnable
  then show ?thesis
    using assms drain_view [OF view_workEnable [of ev "wEng w" "wDrv w"]]
      workEnable_resource [of ev "wEng w" "wDrv w"]
    by (simp add: flagEffect_def setEng_def eng_def) auto
next
  case WorkRetry
  then show ?thesis
    using assms by (auto simp: flagEffect_def workRetry_def Let_def split: if_splits)
qed (use assms in \<open>auto simp: flagEffect_def\<close>)

lemma flags_close:
  assumes "closeStep a w = Some (as, cs, w1)"
  shows "flagEffect (wEng w) (wRunning w) (Close a) cs (wEng w1) (wRunning w1)"
proof (cases a)
  case CloseDestroy
  have "Draining (snd (PhotonicCaptureDestroy c)) = Draining c"
    "ResourceAllocated (snd (PhotonicCaptureDestroy c)) = ResourceAllocated c" for c
    using drain_view [OF view_FreeChunkMdls] drain_view [OF view_PoolFree]
    by (auto simp: PhotonicCaptureDestroy_def FreeChunkMdls_resource PoolFree_resource)
  then show ?thesis
    using assms CloseDestroy by (auto simp: flagEffect_def case_prod_unfold)
qed (use assms in \<open>auto simp: flagEffect_def closeBegin_def stopProgram_def split: if_splits\<close>)

lemma flags_ctl:
  assumes "ctlStep ev fe c t w = Some (as, cs, w1)" and "stopsAccepted ev" and "onBus w"
  shows "flagEffect (wEng w) (wRunning w) c cs (wEng w1) (wRunning w1)"
proof (cases c)
  case (Return st)
  then show ?thesis
    using assms(1) by (auto simp: flagEffect_def)
qed (use assms flags_quiesce flags_release flags_listen flags_start flags_stop flags_work flags_close in
      \<open>simp_all only: ctlStep.simps\<close>)

end
