(* ===== verification/Capture_Teardown.thy ===== *)
theory Capture_Teardown
  imports Capture_Safety
begin

text \<open>
  The teardown invariant: what a draining engine, the isochronous context, the DMA mappings and
  the control program in progress promise each other, and its preservation by every step.
\<close>

section \<open>The invariant\<close>

definition flagsSafe :: "capture \<Rightarrow> bool \<Rightarrow> cact list \<Rightarrow> bool" where
  "flagsSafe e r cs \<longleftrightarrow>
     (Draining e \<and> \<not> atHead strictQuiesce cs \<longrightarrow> settled e) \<and>
     (atHead (\<lambda>c. c = Quiesce QEmpty) cs \<longrightarrow> InFlightIrps e = 0) \<and>
     (atHead (\<lambda>c. c = Quiesce QPump \<or> c = Quiesce QClearFirst) cs \<longrightarrow> settled e) \<and>
     (Draining e \<and> \<not> atHead (\<lambda>c. c = Quiesce QStop) cs \<longrightarrow> \<not> r) \<and>
     (\<not> Draining e \<or> atHead (\<lambda>c. c = Quiesce QStop) cs \<or> atHead opensEngine cs \<or>
        Work WorkResume \<in> set cs \<longrightarrow> ResourceAllocated e) \<and>
     (atHead (\<lambda>c. c = Listen LIssue) cs \<longrightarrow> \<not> Draining e)"

definition teardownSafe :: "('b, 'f) world \<Rightarrow> bool" where
  "teardownSafe w \<longleftrightarrow> positioned (wCtl w) \<and> okFrom (Draining (wEng w)) (wCtl w) \<and>
     flagsSafe (wEng w) (wRunning w) (wCtl w) \<and> onBus w \<and>
     (atHead isRelFrame (wCtl w) \<longrightarrow> wArmed w = {}) \<and> dmaTracked (wEng w) (acts w) (wArmed w)"

lemma settled_view: "engView c' = engView c \<Longrightarrow> settled c' = settled c"
  by (simp add: settled_def engView_def)

lemma okFrom_draining: "okFrom dr (c # k) \<Longrightarrow> strictQuiesce c \<or> isRelFrame c \<or> c = Release RelIsoch \<or> opensEngine c
    \<or> bringsUp c \<Longrightarrow> dr"
  by (cases c) (auto elim!: isRelFrame.elims opensEngine.elims bringsUp.elims)

section \<open>Control steps\<close>

lemma atHead_special:
  assumes "\<forall>x\<in>set k. \<not> special x" and "\<And>c. P c \<Longrightarrow> special c" and "atHead P (cs @ k)"
  shows "atHead P cs"
  using assms by (cases k) (auto simp: atHead_append)

text \<open>Only a step of a quiesce pushes the next one.\<close>

lemma release_not_strict:
  assumes "releaseStep ev a w = Some (as, cs, w1)"
  shows "\<not> atHead strictQuiesce cs"
proof (cases a)
  case RelIsoch
  then have "cs = [] \<or> cs = releaseFrames"
    using assms by (auto simp: releaseIsoch_def split: prod.splits if_splits)
  then show ?thesis
    by auto
qed (use assms in \<open>auto split: prod.splits\<close>)

lemma other_not_strict:
  assumes "ctlStep ev fe c t w = Some (as, cs, w1)" and "\<not> isQuiesce c"
  shows "\<not> atHead strictQuiesce cs"
proof (cases c)
  case (Listen a)
  then show ?thesis
    using assms by (cases a) (auto split: prod.splits if_splits)
next
  case (Start a)
  then show ?thesis
    using assms by (cases a) (auto simp: control_programs split: prod.splits if_splits sum.splits)
next
  case (Stop a)
  then show ?thesis
    using assms by (cases a) (auto simp: control_programs split: prod.splits if_splits option.splits)
next
  case (Work a)
  then show ?thesis
    using assms by (cases a) (auto simp: control_programs split: prod.splits if_splits)
next
  case (Close a)
  then show ?thesis
    using assms by (cases a) (auto simp: control_programs split: prod.splits if_splits)
qed (use assms in \<open>auto dest: release_not_strict\<close>)

lemma atHead_mono: "atHead P cs \<Longrightarrow> (\<And>c. P c \<Longrightarrow> Q c) \<Longrightarrow> atHead Q cs"
  by (auto simp: atHead_def)

text \<open>How the steps of a quiesce follow each other.\<close>

lemma next_step:
  assumes "quiesceStep ev a t w = Some (as, cs, w1)"
  shows "a \<noteq> QBegin \<Longrightarrow> a \<noteq> QClearFirst \<Longrightarrow> atHead strictQuiesce cs"
    and "atHead (\<lambda>x. x = Quiesce QEmpty) cs \<Longrightarrow> wEng w1 = wEng w \<and> InFlightIrps (wEng w) = 0"
    and "atHead (\<lambda>x. x = Quiesce QPump) cs \<Longrightarrow>
      wEng w1 = wEng w \<and> a = QEmpty \<and> PendingList (wEng w) = []"
    and "atHead (\<lambda>x. x = Quiesce QClearFirst) cs \<Longrightarrow> wEng w1 = wEng w \<and> a = QPump"
    and "atHead (\<lambda>x. x = Quiesce QStop) cs \<Longrightarrow> a = QBegin"
  using assms
  by (cases a; auto simp: control_programs split: prod.splits if_splits option.splits)+

lemma next_quiesce:
  assumes "ctlStep ev fe c t w = Some (as, cs, w1)"
  shows "strictQuiesce c \<Longrightarrow> c \<noteq> Quiesce QClearFirst \<Longrightarrow> atHead strictQuiesce cs"
    and "atHead (\<lambda>x. x = Quiesce QEmpty) cs \<Longrightarrow> wEng w1 = wEng w \<and> InFlightIrps (wEng w) = 0"
    and "atHead (\<lambda>x. x = Quiesce QPump) cs \<Longrightarrow>
      wEng w1 = wEng w \<and> c = Quiesce QEmpty \<and> PendingList (wEng w) = []"
    and "atHead (\<lambda>x. x = Quiesce QClearFirst) cs \<Longrightarrow> wEng w1 = wEng w \<and> c = Quiesce QPump"
    and "atHead (\<lambda>x. x = Quiesce QStop) cs \<Longrightarrow> c = Quiesce QBegin"
proof -
  have q: "\<exists>a. c = Quiesce a \<and> quiesceStep ev a t w = Some (as, cs, w1)"
    if "atHead (\<lambda>x. x = Quiesce b) cs" and "b \<noteq> QBegin" for b
  proof -
    have "isQuiesce c"
      using other_not_strict [OF assms] atHead_mono [OF that(1), of strictQuiesce] that(2) by auto
    then show ?thesis
      using assms by (cases c) auto
  qed
  show "strictQuiesce c \<Longrightarrow> c \<noteq> Quiesce QClearFirst \<Longrightarrow> atHead strictQuiesce cs"
    using assms next_step(1) by (cases c) auto
  show "wEng w1 = wEng w \<and> InFlightIrps (wEng w) = 0" if h: "atHead (\<lambda>x. x = Quiesce QEmpty) cs"
    using q [OF h] by (auto dest: next_step(2) [OF _ h])
  show "wEng w1 = wEng w \<and> c = Quiesce QEmpty \<and> PendingList (wEng w) = []" if h: "atHead (\<lambda>x. x = Quiesce QPump) cs"
    using q [OF h] by (auto dest: next_step(3) [OF _ h])
  show "wEng w1 = wEng w \<and> c = Quiesce QPump" if h: "atHead (\<lambda>x. x = Quiesce QClearFirst) cs"
    using q [OF h] by (auto dest: next_step(4) [OF _ h])
  show "c = Quiesce QBegin" if h: "atHead (\<lambda>x. x = Quiesce QStop) cs"
    using q [OF h] by (auto dest: next_step(5) [OF _ h])
qed

lemma settled_ctl:
  assumes "ctlStep ev fe c t w = Some (as, cs, w1)" and "c \<noteq> Quiesce QClaim"
  shows "settled (wEng w1) = settled (wEng w)"
proof (cases "\<exists>i. c = Release (RelFrame i)")
  case True
  then show ?thesis
    using assms(1) by (auto simp: settled_def onEng_def releaseFrame_def split: if_splits)
next
  case False
  then have "engView (drainView (Draining (wEng w1)) (wEng w)) = engView (wEng w1)"
    using quiet_ctl [OF assms] by (auto simp: quietEffect_def)
  then have "settled (wEng w1) = settled (drainView (Draining (wEng w1)) (wEng w))"
    by (rule settled_view [OF sym])
  then show ?thesis
    by (simp add: settled_def drainView_def)
qed

section \<open>The flags through a control step\<close>

lemma flagEffectD:
  assumes "flagEffect e r c cs e' r'"
  shows "Draining e' = Draining e \<or> c = Quiesce QBegin \<and> Draining e' \<and> cs = [Quiesce QStop] \<or>
        opensEngine c \<and> \<not> Draining e' \<or> c = Work WorkResume \<and> \<not> Draining e' \<and> cs = []"
    and "ResourceAllocated e \<Longrightarrow> ResourceAllocated e' \<or> c = Release RelIsoch \<or> bringsUp c"
    and "r' \<Longrightarrow> (r \<and> \<not> (c = Quiesce QStop \<and> ResourceAllocated e)) \<or> c = Listen LIssue"
    and "atHead (\<lambda>x. x = Quiesce QStop) cs \<Longrightarrow> c = Quiesce QBegin \<and> \<not> Draining e"
    and "atHead (\<lambda>x. x = Listen LIssue) cs \<Longrightarrow> \<not> Draining e \<and> e' = e"
    and "atHead opensEngine cs \<Longrightarrow> ResourceAllocated e'"
    and "Work WorkResume \<in> set cs \<Longrightarrow> \<not> Draining e"
  using assms unfolding flagEffect_def by blast+

lemma strict_draining:
  assumes "okFrom (Draining e) (c # k)" and "strictQuiesce c \<or> c = Release RelIsoch \<or> opensEngine c \<or> bringsUp c"
  shows "Draining e"
  using assms okFrom_draining by blast

lemma settled_after:
  assumes "ctlStep ev fe c t w = Some (as, cs, w1)" and "flagEffect (wEng w) r c cs (wEng w1) r'"
    and "flagsSafe (wEng w) r (c # k)"
    and "Draining (wEng w1)" and "\<not> atHead strictQuiesce (cs @ k)"
  shows "settled (wEng w1)"
proof -
  have cs: "\<not> atHead strictQuiesce cs"
    using assms(5) by (simp add: atHead_append)
  have dr: "Draining (wEng w)"
    using flagEffectD(1) [OF assms(2)] assms(4) cs by auto
  have "settled (wEng w) \<and> c \<noteq> Quiesce QClaim"
  proof (cases "strictQuiesce c")
    case True
    then have "c = Quiesce QClearFirst"
      using next_quiesce(1) [OF assms(1)] cs by blast
    then show ?thesis
      using assms(3) by (simp add: flagsSafe_def)
  next
    case False
    then show ?thesis
      using assms(3) dr by (auto simp: flagsSafe_def)
  qed
  then show ?thesis
    using settled_ctl [OF assms(1)] by simp
qed

lemma resources_after:
  assumes "flagEffect e r c cs e' r'" and "ResourceAllocated e" and "okFrom (Draining e) (c # k)"
    and "\<not> Draining e' \<or> \<not> (c = Release RelIsoch \<or> bringsUp c)"
  shows "ResourceAllocated e'"
proof -
  have "\<not> (c = Release RelIsoch \<or> bringsUp c)"
  proof
    assume c: "c = Release RelIsoch \<or> bringsUp c"
    then have "Draining e"
      using strict_draining [OF assms(3)] by blast
    moreover have "\<not> (opensEngine c \<or> c = Work WorkResume)"
      using c by (auto elim!: bringsUp.elims)
    ultimately have "Draining e'"
      using flagEffectD(1) [OF assms(1)] by auto
    then show False
      using assms(4) c by blast
  qed
  then show ?thesis
    using flagEffectD(2) [OF assms(1,2)] by blast
qed

lemma flagsSafe_ctl:
  assumes "ctlStep ev fe c t w = Some (as, cs, w1)" and "stopsAccepted ev" and "onBus w"
    and "positioned (c # k)" and "okFrom (Draining (wEng w)) (c # k)"
    and "flagsSafe (wEng w) (wRunning w) (c # k)"
  shows "flagsSafe (wEng w1) (wRunning w1) (cs @ k)"
proof -
  let ?e = "wEng w" and ?e' = "wEng w1" and ?r = "wRunning w" and ?r' = "wRunning w1"
  have fl: "flagEffect ?e ?r c cs ?e' ?r'"
    by (rule flags_ctl [OF assms(1-3)])
  have tail: "\<forall>x\<in>set k. \<not> special x"
    using assms(4) by (simp add: positioned_def)
  have here: "atHead (\<lambda>x. x = y) (cs @ k) \<Longrightarrow> atHead (\<lambda>x. x = y) cs" if "special y" for y
    by (rule atHead_special [OF tail]) (auto simp: that)
  have opensHere: "atHead opensEngine (cs @ k) \<Longrightarrow> atHead opensEngine cs"
    by (rule atHead_special [OF tail]) (auto intro: strict_special)
  have safe: "Draining ?e \<Longrightarrow> c \<noteq> Quiesce QStop \<Longrightarrow> \<not> ?r"
    "\<not> Draining ?e \<or> c = Quiesce QStop \<or> opensEngine c \<or> Work WorkResume \<in> set (c # k) \<Longrightarrow> ResourceAllocated ?e"
    "c = Quiesce QEmpty \<Longrightarrow> InFlightIrps ?e = 0" "c = Quiesce QPump \<Longrightarrow> settled ?e"
    "c = Listen LIssue \<Longrightarrow> \<not> Draining ?e"
    using assms(6) by (auto simp: flagsSafe_def)
  note ra = resources_after [OF fl _ assms(5)]
  show ?thesis
    unfolding flagsSafe_def
  proof (intro conjI impI)
    show "settled ?e'" if "Draining ?e' \<and> \<not> atHead strictQuiesce (cs @ k)"
      using settled_after [OF assms(1) fl assms(6)] that by blast
    show "InFlightIrps ?e' = 0" if "atHead (\<lambda>x. x = Quiesce QEmpty) (cs @ k)"
      using next_quiesce(2) [OF assms(1) here [OF _ that]] by simp
    show "settled ?e'" if "atHead (\<lambda>x. x = Quiesce QPump \<or> x = Quiesce QClearFirst) (cs @ k)"
    proof -
      have "atHead (\<lambda>x. x = Quiesce QPump) (cs @ k) \<or> atHead (\<lambda>x. x = Quiesce QClearFirst) (cs @ k)"
        using that by (auto simp: atHead_def)
      then show ?thesis
        using next_quiesce(3,4) [OF assms(1) here] safe(3,4) by (auto simp: settled_def)
    qed
    show "\<not> ?r'" if "Draining ?e' \<and> \<not> atHead (\<lambda>x. x = Quiesce QStop) (cs @ k)"
    proof
      assume r': "?r'"
      have "Draining ?e"
        using flagEffectD(1) [OF fl] that by (auto simp: atHead_append)
      then have "?r \<and> \<not> (c = Quiesce QStop \<and> ResourceAllocated ?e)"
        using flagEffectD(3) [OF fl r'] safe(5) by blast
      then show False
        using safe(1,2) \<open>Draining ?e\<close> by blast
    qed
    show "\<not> Draining ?e'" if "atHead (\<lambda>x. x = Listen LIssue) (cs @ k)"
      using flagEffectD(5) [OF fl here [OF _ that]] by simp
    show "ResourceAllocated ?e'" if p: "\<not> Draining ?e' \<or> atHead (\<lambda>x. x = Quiesce QStop) (cs @ k) \<or>
        atHead opensEngine (cs @ k) \<or> Work WorkResume \<in> set (cs @ k)"
    proof -
      have "?thesis" if "\<not> Draining ?e'"
      proof (rule ra)
        have "\<not> Draining ?e \<or> opensEngine c \<or> c = Work WorkResume"
          using flagEffectD(1) [OF fl] that by blast
        then show "ResourceAllocated ?e"
          using safe(2) by auto
      qed (use that in blast)
      moreover have "?thesis" if "atHead (\<lambda>x. x = Quiesce QStop) (cs @ k)"
        using flagEffectD(4) [OF fl here [OF _ that]] safe(2) by (intro ra) auto
      moreover have "?thesis" if "atHead opensEngine (cs @ k)"
        using flagEffectD(6) [OF fl opensHere [OF that]] .
      moreover have "?thesis" if "Work WorkResume \<in> set cs"
        using flagEffectD(7) [OF fl that] safe(2) strict_draining [OF assms(5)] by (intro ra) auto
      moreover have "?thesis" if "Work WorkResume \<in> set k"
      proof -
        have "isQuiesce c"
          using assms(4) that by (auto simp: positioned_def split: if_splits)
        then show ?thesis
          using safe(2) that by (intro ra) (auto elim!: isQuiesce.elims)
      qed
      ultimately show ?thesis
        using p by auto
    qed
  qed
qed

section \<open>The mappings through a control step\<close>

text \<open>A settled engine has no IRP anywhere.\<close>

lemma settled_quiet:
  assumes "accounted w" and "InFlightIrps (wEng w) = 0"
  shows "wAttach w = []" "wDetach w = []" "a \<in># acts w \<Longrightarrow> irpTok a = 0"
proof -
  have sum: "int (weigh irpTok (acts w)) + int (length (wAttach w)) + int (length (wDetach w)) = 0"
    using assms by (simp add: accounted_def irpsCounted_def)
  then have "weigh irpTok (acts w) = 0 \<and> length (wAttach w) = 0 \<and> length (wDetach w) = 0"
    by linarith
  then show "wAttach w = []" "wDetach w = []" "a \<in># acts w \<Longrightarrow> irpTok a = 0"
    using weigh_member [of a "acts w" irpTok] by auto
qed

lemma settled_states:
  assumes "accounted w" and "settled (wEng w)" and "d < PHOTONIC_CAPTURE_FRAME_COUNT"
  shows "State (Frames (wEng w) d) = PhotonicFrameFree \<or> State (Frames (wEng w) d) = PhotonicFrameDetachFailed"
proof -
  have "weigh (detTok d) (acts w) = 0"
  proof -
    have "detTok d a = 0" if "a \<in># acts w" for a
      using settled_quiet(3) [OF assms(1) _ that] assms(2) by (cases a) (auto simp: settled_def)
    then show ?thesis
      by (auto simp: weigh_def)
  qed
  moreover have "wDetach w = []"
    using settled_quiet(2) [OF assms(1)] assms(2) by (simp add: settled_def)
  moreover have "framesPlaced (wEng w) (acts w) (mset (wAttach w)) (mset (wDetach w))"
    using assms(1) by (simp add: accounted_def)
  ultimately have "inState {PhotonicFrameDetaching} (wEng w) d = 0"
    and "inState {PhotonicFrameAttaching, PhotonicFrameCompletedWhileAttaching, PhotonicFramePending} (wEng w) d = 0"
    using assms(2) by (auto simp: framesPlaced_def settled_def)
  then show ?thesis
    using assms(3) by (cases "State (Frames (wEng w) d)") (auto simp: inState_def)
qed

lemma dma_flushed:
  assumes "dmaTracked c M R" and "\<And>a. a \<in># M \<Longrightarrow> irpTok a = 0"
    and "\<And>a. a \<in># M' \<Longrightarrow> a \<in># M \<or> irpTok a = 0"
  shows "dmaTracked c' M' {}"
  unfolding dmaTracked_def
proof (intro conjI allI impI)
  fix d st
  assume "AttachComplete d st \<in># M'"
  then have "irpTok (AttachComplete d st) = 0"
    using assms(2,3) by blast
  then show "NT_SUCCESS st \<longleftrightarrow> d \<in> {}"
    by simp
qed simp_all

lemma release_flushes:
  assumes "releaseIsoch ev w = (cs, w1)" and "cs \<noteq> []" and "accounted w" and "settled (wEng w)"
    and "dmaTracked (wEng w) M (wArmed w)"
  shows "wArmed w1 = {}"
proof -
  obtain fl c d where r: "PhotonicCaptureResourceReleaseIsoch ev (wEng w, wDrv w) = (fl, (c, d))"
    by (metis prod.collapse)
  have view: "State (Frames c i) = State (Frames (wEng w) i)" for i
    using engView_fields(1) [OF view_ReleaseIsoch [OF r]] .
  show ?thesis
  proof (cases fl)
    case False
    then have "\<not> PhotonicCaptureHasQuarantinedFrames c"
      using assms(1,2) by (auto simp: releaseIsoch_def eng_def r split: if_splits)
    then have "State (Frames (wEng w) i) \<noteq> PhotonicFrameDetachFailed" if "i < PHOTONIC_CAPTURE_FRAME_COUNT" for i
      using that view unfolding PhotonicCaptureHasQuarantinedFrames_def frameIndices_eq list_ex_iff
      by (auto simp: numeral_eq_Suc less_Suc_eq)
    then have "wArmed w = {}"
      using settled_states [OF assms(3,4)] assms(5) unfolding dmaTracked_def by blast
    then show ?thesis
      using assms(1) by (auto simp: releaseIsoch_def eng_def r setEng_def split: if_splits)
  qed (use assms(1) in \<open>auto simp: releaseIsoch_def eng_def r setEng_def\<close>)
qed

lemma armed_ctl:
  assumes "ctlStep ev fe c t w = Some (as, cs, w1)" and "positioned (c # k)"
    and "okFrom (Draining (wEng w)) (c # k)" and "flagsSafe (wEng w) (wRunning w) (c # k)"
    and "accounted w" and "dmaTracked (wEng w) (acts w) (wArmed w)"
    and "atHead isRelFrame (c # k) \<longrightarrow> wArmed w = {}" and "atHead isRelFrame (cs @ k)"
  shows "wArmed w1 = {}"
proof (cases "isRelFrame c")
  case True
  then show ?thesis
    using assms(7) ctl_armed [OF assms(1)] by auto
next
  case False
  then have "\<forall>x\<in>set k. \<not> isRelFrame x"
    using assms(2) by (simp add: positioned_def)
  then have head: "atHead isRelFrame cs"
    using assms(8) by (cases k) (auto simp: atHead_append)
  then have c: "c = Release RelIsoch" and cs: "cs \<noteq> []"
    using ctl_program [OF assms(1)] by (cases cs; auto simp: programOf_def)+
  then have "settled (wEng w)"
    using assms(3,4) by (simp add: flagsSafe_def)
  then show ?thesis
    using release_flushes [of ev w cs w1] assms(1,5,6) c cs by (auto split: prod.splits)
qed

lemma dma_ctl:
  assumes "ctlStep ev fe c t w = Some (as, cs, w1)"
    and "okFrom (Draining (wEng w)) (c # k)" and "flagsSafe (wEng w) (wRunning w) (c # k)"
    and "accounted w" and "dmaTracked (wEng w) (acts w) (wArmed w)"
    and "atHead isRelFrame (c # k) \<longrightarrow> wArmed w = {}"
  shows "dmaTracked (wEng w1) (mset as + acts w) (wArmed w1)"
proof -
  consider "c = Quiesce QClaim" | i where "c = Release (RelFrame i)"
    | "c \<noteq> Quiesce QClaim" "\<And>i. c \<noteq> Release (RelFrame i)"
    by blast
  then show ?thesis
  proof cases
    case 1
    then have R: "wArmed w1 = wArmed w"
      using ctl_armed [OF assms(1)] by simp
    show ?thesis
      unfolding R
      by (rule dma_keep [OF assms(5)]) (use assms(1) 1 in \<open>auto simp: quiesceClaim_def split: option.splits if_splits\<close>)
  next
    case (2 i)
    then have R: "wArmed w = {}" "wArmed w1 = {}"
      using assms(6) ctl_armed [OF assms(1)] by auto
    show ?thesis
      unfolding R
      by (rule dma_keep [OF assms(5) [unfolded R]])
        (use assms(1) 2 in \<open>auto simp: onEng_def releaseFrame_def split: if_splits\<close>)
  next
    case 3
    have q: "engView (drainView (Draining (wEng w1)) (wEng w)) = engView (wEng w1)"
      and as: "as = [] \<or> as = [PumpElect] \<or> as = [RequestWork]"
      using quiet_ctl [OF assms(1) 3] by (simp_all add: quietEffect_def)
    show ?thesis
    proof (cases "wArmed w1 = wArmed w")
      case True
      have "State (Frames (wEng w1) d) = State (Frames (wEng w) d)" for d
        using engView_fields(1) [OF q, of d] by (simp add: drainView_def)
      then show ?thesis
        unfolding True by (intro dma_keep [OF assms(5)]) (use as in auto)
    next
      case False
      then have c: "c = Release RelIsoch" and R: "wArmed w1 = {}"
        using ctl_armed [OF assms(1)] by auto
      have "InFlightIrps (wEng w) = 0"
        using assms(2,3) c by (simp add: flagsSafe_def settled_def)
      then show ?thesis
        unfolding R using settled_quiet(3) [OF assms(4)] as by (intro dma_flushed [OF assms(5)]) auto
    qed
  qed
qed

section \<open>Every step\<close>

lemma teardownSafe_ctl:
  assumes "accounted w" and "teardownSafe w" and "stopsAccepted ev" and "wCtlData w = []"
    and "wCtl w = c # k" and "ctlStep ev fe c t w = Some (as, cs, w1)"
    and "w' = w1\<lparr>wCtlData := as, wCtl := cs @ k\<rparr>"
  shows "teardownSafe w'"
proof -
  have acts: "acts w' = mset as + acts w"
    using bus_ctl [OF assms(6)] assms(4) by (simp add: assms(7) acts_def sameBus_def)
  have safe: "positioned (c # k)" "okFrom (Draining (wEng w)) (c # k)" "flagsSafe (wEng w) (wRunning w) (c # k)"
    "atHead isRelFrame (c # k) \<longrightarrow> wArmed w = {}" "dmaTracked (wEng w) (acts w) (wArmed w)" "onBus w"
    using assms(2,5) by (simp_all add: teardownSafe_def)
  have "dmaTracked (wEng w') (acts w') (wArmed w')"
    using dma_ctl [OF assms(6) safe(2,3) assms(1) safe(5,4)] unfolding acts by (simp add: assms(7))
  moreover have "atHead isRelFrame (cs @ k) \<longrightarrow> wArmed w1 = {}"
    using armed_ctl [OF assms(6) safe(1,2,3) assms(1) safe(5,4)] by blast
  ultimately show ?thesis
    using positioned_ctl [OF assms(6) safe(1)] ok_ctl [OF assms(6) safe(2)]
      flagsSafe_ctl [OF assms(6,3) safe(6,1,2,3)] bus_device [OF assms(6)] safe(6)
    by (simp add: teardownSafe_def) (simp add: assms(7) onBus_def)
qed

text \<open>Effects outside the control program that keep the flags.\<close>

lemma flagsSafe_keep:
  assumes "flagsSafe e r cs" and "Draining e' = Draining e" and "ResourceAllocated e' = ResourceAllocated e"
    and "Draining e \<Longrightarrow> InFlightIrps e = 0 \<Longrightarrow> InFlightIrps e' = 0 \<and> PendingList e' = PendingList e"
    and "okFrom (Draining e) cs"
  shows "flagsSafe e' r cs"
proof -
  have "Draining e" if "atHead strictQuiesce cs"
    using that assms(5) by (cases cs) (auto dest: okFrom_draining)
  moreover have "atHead strictQuiesce cs" if "atHead (\<lambda>c. c = Quiesce QEmpty) cs \<or>
      atHead (\<lambda>c. c = Quiesce QPump \<or> c = Quiesce QClearFirst) cs"
    using that by (auto simp: atHead_def)
  ultimately show ?thesis
    using assms(1-4) by (auto simp: flagsSafe_def settled_def)
qed

text \<open>A head of the control program that asserts an empty map or a settled engine means one.\<close>

lemma relFrame_settled:
  assumes "teardownSafe w" and "atHead isRelFrame (wCtl w)"
  shows "settled (wEng w)"
proof (cases "wCtl w")
  case (Cons c k)
  then have "isRelFrame c" and ok: "okFrom (Draining (wEng w)) (c # k)"
    using assms by (simp_all add: teardownSafe_def)
  moreover from this have "Draining (wEng w)"
    using okFrom_draining [OF ok] by simp
  moreover have "\<not> strictQuiesce c"
    using \<open>isRelFrame c\<close> by (auto elim!: isRelFrame.elims)
  ultimately show ?thesis
    using assms(1) Cons by (simp add: teardownSafe_def flagsSafe_def)
qed (use assms(2) in simp)

lemma teardownSafe_arm:
  assumes "accounted w" and "teardownSafe w" and "d \<in> set (wAttach w)"
  shows "teardownSafe (w\<lparr>wArmed := insert d (wArmed w)\<rparr>)"
proof -
  have placed: "framesPlaced (wEng w) (acts w) (mset (wAttach w)) (mset (wDetach w))"
    using assms(1) by (simp add: accounted_def)
  have at: "count (mset (wAttach w)) d + weigh (attTok d) (acts w) =
      inState {PhotonicFrameAttaching, PhotonicFrameCompletedWhileAttaching} (wEng w) d"
    "count (mset (wDetach w)) d + weigh (detTok d) (acts w) = inState {PhotonicFrameDetaching} (wEng w) d"
    using placed unfolding framesPlaced_def by blast+
  have pos: "count (mset (wAttach w)) d \<noteq> 0"
    using assms(3) by simp
  then have own: "d < PHOTONIC_CAPTURE_FRAME_COUNT"
    "State (Frames (wEng w) d) \<in> {PhotonicFrameAttaching, PhotonicFrameCompletedWhileAttaching}"
    using at(1) by (auto simp: inState_def of_bool_def split: if_splits)
  have "inState {PhotonicFrameAttaching, PhotonicFrameCompletedWhileAttaching} (wEng w) d \<le> 1"
    "inState {PhotonicFrameDetaching} (wEng w) d = 0"
    using own by (auto simp: inState_def)
  then have none: "weigh (attTok d) (acts w) = 0" "weigh (detTok d) (acts w) = 0"
    using at pos by linarith+
  have "AttachComplete d st \<notin># acts w \<and> DetachComplete d st \<notin># acts w" for st
    using none weigh_member [of "AttachComplete d st" "acts w" "attTok d"]
      weigh_member [of "DetachComplete d st" "acts w" "detTok d"] by auto
  then have "dmaTracked (wEng w) (acts w) (insert d (wArmed w))"
    using assms(2) own by (auto simp: teardownSafe_def dmaTracked_def)
  moreover have "\<not> atHead isRelFrame (wCtl w)"
    using relFrame_settled [OF assms(2)] settled_quiet(1) [OF assms(1)] assms(3) by (auto simp: settled_def)
  ultimately show ?thesis
    using assms(2) by (simp add: teardownSafe_def acts_def)
qed

lemma teardownSafe_cong:
  assumes "teardownSafe w" and "wEng w' = wEng w" and "wRunning w' = wRunning w" and "wCtl w' = wCtl w"
    and "wArmed w' = wArmed w" and "\<And>a. a \<in># acts w' \<Longrightarrow> a \<in># acts w \<or> irpTok a = 0"
    and "onBus w' = onBus w"
  shows "teardownSafe w'"
proof -
  have "dmaTracked (wEng w) (acts w') (wArmed w)"
    by (rule dma_keep) (use assms(1,6) in \<open>fastforce simp: teardownSafe_def\<close>)+
  then show ?thesis
    using assms by (simp add: teardownSafe_def)
qed

text \<open>The frame callback needs a running context, so it never meets a settled draining engine.\<close>

lemma callback_cases:
  assumes "PhotonicCapturePumpIsochCallback d c = (as, c')"
  shows "as = [] \<and> c' = c \<or> as = [] \<and> c' = withState d PhotonicFrameCompletedWhileAttaching c \<or>
    as = [BusDetach d] \<and>
    c' = (claimDetach d (frameOutcome (chunkStatus c d)) c)\<lparr>InFlightIrps := InFlightIrps c + 1\<rparr>"
  using assms by (cases "State (Frames c d)") (simp_all add: PhotonicCapturePumpIsochCallback_def)

lemma withState_resource [simp]: "ResourceAllocated (withState d st c) = ResourceAllocated c"
  by (simp add: withState_def updFrame_def)

lemma recordFrame_view: "engView (recordFrame d st c) = engView c"
  unfolding recordFrame_def by (rule engView_upd) simp

lemma recordFrame_resource: "ResourceAllocated (recordFrame d st c) = ResourceAllocated c"
  by (simp add: recordFrame_def updFrame_def)

lemma flagsSafe_running:
  assumes "flagsSafe e True cs" and "okFrom (Draining e) cs" and "Draining e' = Draining e"
    and "ResourceAllocated e' = ResourceAllocated e"
  shows "flagsSafe e' True cs"
proof (cases "Draining e")
  case True
  then have "atHead (\<lambda>c. c = Quiesce QStop) cs"
    using assms(1) by (simp add: flagsSafe_def)
  then obtain k where "cs = Quiesce QStop # k"
    by (cases cs) auto
  then show ?thesis
    using assms(1,3,4) by (simp add: flagsSafe_def)
next
  case False
  then have "\<not> atHead strictQuiesce cs"
    using assms(2) by (cases cs) (auto dest: okFrom_draining)
  then have "\<not> atHead (\<lambda>c. c = Quiesce QEmpty) cs"
    "\<not> atHead (\<lambda>c. c = Quiesce QPump \<or> c = Quiesce QClearFirst) cs"
    by (auto simp: atHead_def)
  then show ?thesis
    using assms(1,3,4) False by (simp add: flagsSafe_def)
qed

lemma teardownSafe_frame:
  assumes "teardownSafe w" and "wRunning w"
    and "PhotonicCapturePumpIsochCallback d (recordFrame d st (wEng w)) = (as, c)"
  shows "teardownSafe (spawn as (w\<lparr>wEng := c\<rparr>))"
proof -
  let ?c = "recordFrame d st (wEng w)"
  note cases = callback_cases [OF assms(3)]
  have keep: "Draining c = Draining (wEng w)" "ResourceAllocated c = ResourceAllocated (wEng w)"
    using cases drain_view [OF recordFrame_view, of d st "wEng w"] recordFrame_resource [of d st "wEng w"] by auto
  have flags: "flagsSafe c (wRunning w) (wCtl w)"
    using assms(1,2) flagsSafe_running [OF _ _ keep] by (simp add: teardownSafe_def)
  have state: "State (Frames ?c x) = State (Frames (wEng w) x)" for x
    by (rule engView_fields(1) [OF recordFrame_view])
  have "dmaTracked c (mset as + acts w) (wArmed w)"
  proof (rule dma_keep)
    show "dmaTracked (wEng w) (acts w) (wArmed w)"
      using assms(1) by (simp add: teardownSafe_def)
    show "State (Frames c x) \<noteq> PhotonicFrameFree" if "State (Frames (wEng w) x) \<noteq> PhotonicFrameFree" for x
      using cases that state [of x] by (auto split: if_splits)
    show "a \<in># acts w \<or> (\<forall>d st. a \<noteq> AttachComplete d st \<and> a \<noteq> DetachComplete d st)"
      if "a \<in># mset as + acts w" for a
      using cases that by auto
  qed
  then show ?thesis
    using assms(1) flags keep by (simp add: teardownSafe_def spawn_def acts_def ac_simps)
qed

section \<open>Runs\<close>

lemma opened_safe:
  assumes "fresh c" and "HasPdo (fst d)"
  shows "teardownSafe (opened c d s f)"
  using assms
  by (simp add: onBus_def teardownSafe_def opened_def fresh_def flagsSafe_def settled_def positioned_def dmaTracked_def acts_def)

lemma startControl_safe:
  assumes "startControl cs w = Some w'" and "teardownSafe w" and "positioned cs" and "okFrom False cs"
    and "\<not> atHead special cs" and "\<not> atHead isRelFrame cs" and "Work WorkResume \<notin> set cs"
  shows "teardownSafe w'"
proof -
  have w': "w' = w\<lparr>wCtl := cs\<rparr>" "wCtl w = []"
    using startControl_eq [OF assms(1)] by simp_all
  have heads: "\<not> atHead P cs" if "\<And>c. P c \<Longrightarrow> special c" for P
    using assms(5) atHead_mono [of P cs special] that by blast
  have "\<not> atHead strictQuiesce cs" "\<not> atHead opensEngine cs" "\<not> atHead (\<lambda>c. c = Quiesce QEmpty) cs"
    "\<not> atHead (\<lambda>c. c = Quiesce QPump \<or> c = Quiesce QClearFirst) cs" "\<not> atHead (\<lambda>c. c = Quiesce QStop) cs"
    "\<not> atHead (\<lambda>c. c = Listen LIssue) cs"
    by (rule heads; auto intro: strict_special)+
  then have "flagsSafe (wEng w) (wRunning w) cs"
    using assms(2,7) w'(2) by (simp add: teardownSafe_def flagsSafe_def)
  then show ?thesis
    using assms(2-4,6) okFrom_mono [OF assms(4)] by (simp add: teardownSafe_def w' acts_def)
qed

lemma teardownSafe_enter:
  assumes "teardownSafe w" and "enterDataPath (Front p k) w = Some w'"
  shows "teardownSafe w'"
proof (rule teardownSafe_cong [OF assms(1)])
  have "acts w' = add_mset (Front p k) (add_mset LeaveDataPath (acts w))"
    using assms(2) by (auto simp: enterDataPath_def spawn_def acts_def split: prod.splits bool.splits)
  then show "a \<in># acts w' \<Longrightarrow> a \<in># acts w \<or> irpTok a = 0" for a
    by auto
qed (use assms(2) in \<open>auto simp: enterDataPath_def spawn_def split: prod.splits bool.splits\<close>)

lemma teardownSafe_ring:
  assumes "teardownSafe w" and "step ev fe e w = Some w'" and "e = EvStartRing one ex \<or> e = EvTrigger"
  shows "teardownSafe w'"
  using assms(2,3)
proof (cases rule: step_ring)
  case (1 p k as cs s w1)
  have "teardownSafe (w\<lparr>wStream := s\<rparr>)"
    by (rule teardownSafe_cong [OF assms(1)]) (simp_all add: acts_def onBus_def)
  then have w1: "teardownSafe w1"
    using 1(2) by (intro startControl_safe [OF 1(3)]) (auto simp: positioned_def)
  have "wCtlData w1 = []"
    using startControl_eq [OF 1(3)] by simp
  then show ?thesis
    using 1(1) by (intro teardownSafe_cong [OF w1]) (auto simp: 1(4) acts_def onBus_def)
qed

context front_end
begin

lemma teardownSafe_exec:
  assumes "accounted w" and "teardownSafe w" and "acts w = add_mset a M" and "exec ev fe a w = (as, w1)"
    and "acts w' = mset as + M" and "wEng w' = wEng w1" and "wArmed w' = wArmed w"
    and "wRunning w' = wRunning w" and "wCtl w' = wCtl w" and "onBus w' = onBus w"
  shows "teardownSafe w'"
proof -
  have "flagsSafe (wEng w1) (wRunning w) (wCtl w)"
    by (rule flagsSafe_keep [OF _ exec_flags [OF assms(4)] exec_drained [OF assms(4) _ _ assms(1,3)]])
      (use assms(2) in \<open>auto simp: teardownSafe_def\<close>)
  moreover have "dmaTracked (wEng w1) (mset as + M) (wArmed w)"
    using exec_dma [OF assms(4), of M] assms(1-3) unfolding accounted_def teardownSafe_def by metis
  ultimately show ?thesis
    using assms(2,5-10) exec_flags [OF assms(4)] by (simp add: teardownSafe_def)
qed

lemma teardownSafe_attached:
  assumes "teardownSafe w" and "NT_SUCCESS st \<longleftrightarrow> d \<in> wArmed w"
    and "w' = spawn [AttachComplete d st] (w\<lparr>wAttach := xs\<rparr>)"
  shows "teardownSafe w'"
  using assms(1,2) by (auto simp: assms(3) teardownSafe_def spawn_def acts_def dmaTracked_def)

lemma teardownSafe_detached:
  assumes "accounted w" and "teardownSafe w" and "d \<in> set (wDetach w)"
    and "w' = spawn [DetachComplete d st] (w\<lparr>wDetach := xs,
                wArmed := (if NT_SUCCESS st then wArmed w - {d} else wArmed w)\<rparr>)"
  shows "teardownSafe w'"
proof -
  have "framesPlaced (wEng w) (acts w) (mset (wAttach w)) (mset (wDetach w))"
    using assms(1) by (simp add: accounted_def)
  then have at: "count (mset (wDetach w)) d + weigh (detTok d) (acts w) = inState {PhotonicFrameDetaching} (wEng w) d"
    "count (mset (wAttach w)) d + weigh (attTok d) (acts w) =
      inState {PhotonicFrameAttaching, PhotonicFrameCompletedWhileAttaching} (wEng w) d"
    unfolding framesPlaced_def by blast+
  have "count (mset (wDetach w)) d \<noteq> 0"
    using assms(3) by simp
  then have "State (Frames (wEng w) d) = PhotonicFrameDetaching"
    using at(1) by (auto simp: inState_def of_bool_def split: if_splits)
  then have "weigh (attTok d) (acts w) = 0"
    using at(2) by (simp add: inState_def)
  then have "AttachComplete d s \<notin># acts w" for s
    using weigh_member [of "AttachComplete d s" "acts w" "attTok d"] by auto
  then have "dmaTracked (wEng w) (add_mset (DetachComplete d st) (acts w))
      (if NT_SUCCESS st then wArmed w - {d} else wArmed w)"
    using assms(2) by (auto simp: teardownSafe_def dmaTracked_def)
  then show ?thesis
    using assms(2) by (auto simp: assms(4) teardownSafe_def spawn_def acts_def)
qed

lemma teardownSafe_step:
  assumes "accounted w" and "teardownSafe w" and "stopsAccepted ev" and "step ev fe e w = Some w'"
  shows "teardownSafe w'"
proof (cases e)
  case (EvThread i)
  obtain a M as w1 where *: "acts w = add_mset a M" "exec ev fe a w = (as, w1)" "acts w' = mset as + M"
    "w' = w1\<lparr>wThreads := wThreads w'\<rparr>"
    using step_thread assms(4) EvThread by metis
  have "wEng w' = wEng w1" "onBus w' = onBus w"
    using exec_device [OF *(2)] by (subst *(4), simp)+
  then show ?thesis
    using teardownSafe_exec [OF assms(1,2) *(1,2,3)] thread_frame [OF assms(4) [unfolded EvThread]] by simp
next
  case (EvCtl t)
  from assms(4) [unfolded EvCtl] show ?thesis
  proof (cases rule: step_ctl)
    case (data a M as w1)
    have "wEng w' = wEng w1" "onBus w' = onBus w"
      using exec_device [OF data(2)] by (subst data(4), simp)+
    then show ?thesis
      using teardownSafe_exec [OF assms(1,2) data(1,2,3)] data_frame [OF data(2,4)] by simp
  next
    case (control c k as cs w1)
    then show ?thesis
      using teardownSafe_ctl [OF assms(1-3)] by metis
  qed
next
  case (EvArm d)
  then show ?thesis
    using assms(4) teardownSafe_arm [OF assms(1,2)] by (auto split: if_splits)
next
  case (EvAttachDone d st)
  then show ?thesis
    using assms(4) by (intro teardownSafe_attached [OF assms(2)]) (auto split: if_splits)
next
  case (EvDetachDone d st)
  then show ?thesis
    using assms(4) by (intro teardownSafe_detached [OF assms(1,2)]) (auto split: if_splits)
next
  case (EvFrame d st)
  then show ?thesis
    using assms(4) by (auto split: if_splits prod.splits intro: teardownSafe_frame [OF assms(2)])
next
  case (EvRead srb)
  then show ?thesis
    using assms(4) teardownSafe_enter [OF assms(2)] by auto
next
  case (EvCancel srb)
  then show ?thesis
    using assms(4) teardownSafe_enter [OF assms(2)] by auto
next
  case (EvService)
  have "teardownSafe (w\<lparr>wWorkers := n\<rparr>)" for n
    by (rule teardownSafe_cong [OF assms(2)]) (simp_all add: acts_def)
  then show ?thesis
    using assms(4) EvService by (auto split: if_splits elim!: startControl_safe simp: positioned_def)
next
  case (EvWorker)
  then show ?thesis
    using assms(4) by (intro teardownSafe_cong [OF assms(2)]) (auto simp: acts_def split: if_splits)
next
  case (EvRemove)
  then show ?thesis
    using assms(4) by (intro teardownSafe_cong [OF assms(2)]) (auto simp: acts_def onBus_def)
next
  case (EvStartRing one ex)
  then show ?thesis
    using teardownSafe_ring [OF assms(2,4)] by blast
next
  case EvTrigger
  then show ?thesis
    using teardownSafe_ring [OF assms(2,4)] by blast
qed (use assms(2,4) in \<open>auto split: if_splits elim!: startControl_safe simp: positioned_def stopProgram_def\<close>)

lemma teardownSafe_runs:
  "runs ev fe es w = Some w' \<Longrightarrow> stopsAccepted ev \<Longrightarrow> accounted w \<Longrightarrow> bounded w \<Longrightarrow> teardownSafe w \<Longrightarrow>
   teardownSafe w'"
  by (induction es arbitrary: w)
    (auto split: option.splits dest: accounted_step bounded_step teardownSafe_step)

text \<open>What every run from a created engine establishes.\<close>

lemma created_runs:
  assumes "PhotonicCaptureCreate ev b = ((st, Some c), b')"
    and "runs ev fe es (opened c d s f) = Some w"
  shows "accounted w" "bounded w" "stopsAccepted ev \<Longrightarrow> HasPdo (fst d) \<Longrightarrow> teardownSafe w"
proof -
  have c: "fresh c"
    by (rule created_fresh [OF assms(1)])
  show "accounted w" "bounded w" "stopsAccepted ev \<Longrightarrow> HasPdo (fst d) \<Longrightarrow> teardownSafe w"
    using accounted_runs [OF assms(2) opened_accounted [OF c]]
      teardownSafe_runs [OF assms(2) _ opened_accounted [OF c] opened_safe [OF c]] by simp_all
qed

end

end
