(* ===== verification/Capture_Progress.thy ===== *)
theory Capture_Progress
  imports Capture_Teardown
begin

text \<open>
  No wait of the control plane loses its wakeup: whenever the control program is blocked, a thread
  still has an act to perform or an IRP is at the bus driver, and when the condition of the wait
  is already met its event is set or about to be.
\<close>

section \<open>The shape of the program in every run\<close>

definition shaped :: "('b, 'f) world \<Rightarrow> bool" where
  "shaped w \<longleftrightarrow> positioned (wCtl w) \<and> okFrom (Draining (wEng w)) (wCtl w)"

definition wakes :: "('b, 'f) world \<Rightarrow> bool" where
  "wakes w \<longleftrightarrow>
     (atHead (\<lambda>c. c = Quiesce QSleep) (wCtl w) \<longrightarrow>
        InFlightIrps (wEng w) \<noteq> 0 \<or> DrainDone (wEng w) \<or> DrainTest \<in># acts w \<or> SetDrainDone \<in># acts w) \<and>
     (atHead (\<lambda>c. c = Close CloseWait) (wCtl w) \<longrightarrow>
        Rundown (wGate w) \<and> (DataPathRefs (wGate w) \<noteq> 0 \<or> DataPathIdle (wGate w) \<or> SetDataPathIdle \<in># acts w))"

lemma sleeping_drains:
  assumes "shaped w" and "atHead (\<lambda>c. c = Quiesce QSleep) (wCtl w)"
  shows "Draining (wEng w)"
  using assms by (cases "wCtl w") (auto simp: shaped_def)

text \<open>What an act does to the two events.\<close>

lemma event_simps [simp]:
  "DrainDone (updFrame d f c) = DrainDone c" "DrainDone (withState d st c) = DrainDone c"
  "DrainDone (recycleTail d c) = DrainDone c" "DrainDone (returnHead d c) = DrainDone c"
  "DrainDone (claimDetach d cs c) = DrainDone c" "DrainDone (unlinkPending d c) = DrainDone c"
  "DrainDone (PhotonicCapturePumpPrime d k m c) = DrainDone c"
  by (simp_all add: updFrame_def withState_def recycleTail_def returnHead_def claimDetach_def unlinkPending_def
      PhotonicCapturePumpPrime_def)

lemma exec_events:
  assumes "exec ev fe a w = (as, w')" and "Draining (wEng w)"
  shows "InFlightIrps (wEng w') = InFlightIrps (wEng w) - of_bool (a = IrpDone)"
    and "DrainDone (wEng w') \<longleftrightarrow> DrainDone (wEng w) \<or> a = SetDrainDone"
  using assms
  by (cases a; auto simp: exec_sections PhotonicCapturePumpAttachComplete_def
      PhotonicCapturePumpDetachComplete_def lapEmpty_def lapReject_def lapPublish_def
      dest!: lapClaim_cases lapAcquired_cases split: prod.splits if_splits)+

lemma exec_wakes_drain:
  assumes "exec ev fe a w = (as, w')" and "Draining (wEng w)"
    and "InFlightIrps (wEng w) \<noteq> 0 \<or> DrainDone (wEng w) \<or> DrainTest \<in># add_mset a M \<or> SetDrainDone \<in># add_mset a M"
  shows "InFlightIrps (wEng w') \<noteq> 0 \<or> DrainDone (wEng w') \<or> DrainTest \<in># mset as + M \<or> SetDrainDone \<in># mset as + M"
  using assms exec_events [OF assms(1,2)]
  by (cases "a = IrpDone \<or> a = DrainTest \<or> a = SetDrainDone") (auto simp: exec_sections)

lemma exec_wakes_gate:
  assumes "exec ev fe a w = (as, w')" and "Rundown (wGate w)"
    and "DataPathRefs (wGate w) \<noteq> 0 \<or> DataPathIdle (wGate w) \<or> SetDataPathIdle \<in># add_mset a M"
  shows "DataPathRefs (wGate w') \<noteq> 0 \<or> DataPathIdle (wGate w') \<or> SetDataPathIdle \<in># mset as + M"
  using assms by (cases a) (auto simp: exec_sections split: prod.splits if_splits)

lemma next_sleep:
  assumes "ctlStep ev fe c t w = Some (as, cs, w1)" and "atHead (\<lambda>x. x = Quiesce QSleep) cs"
  shows "InFlightIrps (wEng w1) \<noteq> 0"
proof -
  have "isQuiesce c"
    using other_not_strict [OF assms(1)] atHead_mono [OF assms(2), of strictQuiesce] by auto
  then obtain a where "c = Quiesce a"
    by (auto elim!: isQuiesce.elims)
  then show ?thesis
    using assms by (cases a) (auto simp: control_programs split: prod.splits if_splits option.splits)
qed

lemma next_wait:
  assumes "ctlStep ev fe c t w = Some (as, cs, w1)" and "atHead (\<lambda>x. x = Close CloseWait) cs"
  shows "Rundown (wGate w1) \<and> DataPathRefs (wGate w1) \<noteq> 0"
proof (cases c)
  case (Quiesce a)
  then show ?thesis
    using assms by (cases a) (auto simp: control_programs split: prod.splits if_splits option.splits)
next
  case (Release a)
  then show ?thesis
    using assms by (cases a) (auto simp: releaseIsoch_def split: prod.splits if_splits)
next
  case (Listen a)
  then show ?thesis
    using assms by (cases a) (auto split: prod.splits if_splits)
next
  case (Start a)
  then show ?thesis
    using assms by (cases a) (auto simp: control_programs split: prod.splits if_splits sum.splits)
next
  case (Stop a)
  then show ?thesis
    using assms by (cases a) (auto simp: control_programs split: prod.splits if_splits option.splits)
next
  case (Work a)
  then show ?thesis
    using assms by (cases a) (auto simp: control_programs split: prod.splits if_splits)
next
  case (Close a)
  then show ?thesis
    using assms by (cases a) (auto simp: control_programs split: prod.splits if_splits)
qed (use assms in auto)

section \<open>Every step\<close>

lemma wakes_ctl:
  assumes "shaped w" and "wCtlData w = []" and "wCtl w = c # k" and "ctlStep ev fe c t w = Some (as, cs, w1)"
    and "w' = w1\<lparr>wCtlData := as, wCtl := cs @ k\<rparr>"
  shows "wakes w'"
proof -
  have tail: "\<forall>x\<in>set k. \<not> special x"
    using assms(1,3) by (simp add: shaped_def positioned_def)
  have here: "atHead (\<lambda>x. x = y) (cs @ k) \<Longrightarrow> atHead (\<lambda>x. x = y) cs" if "special y" for y
    by (rule atHead_special [OF tail]) (auto simp: that)
  show ?thesis
    using here [of "Quiesce QSleep"] here [of "Close CloseWait"] next_sleep [OF assms(4)] next_wait [OF assms(4)]
    by (auto simp: wakes_def assms(5))
qed

lemma wakes_exec:
  assumes "shaped w" and "wakes w" and "acts w = add_mset a M" and "exec ev fe a w = (as, w1)"
    and "acts w' = mset as + M" and "wEng w' = wEng w1" "wGate w' = wGate w1" "wCtl w' = wCtl w"
  shows "wakes w'"
proof -
  have "InFlightIrps (wEng w1) \<noteq> 0 \<or> DrainDone (wEng w1) \<or> DrainTest \<in># mset as + M \<or> SetDrainDone \<in># mset as + M"
    if "atHead (\<lambda>c. c = Quiesce QSleep) (wCtl w)"
    using exec_wakes_drain [OF assms(4) sleeping_drains [OF assms(1) that], of M] assms(2,3) that
    unfolding wakes_def by simp
  moreover have "DataPathRefs (wGate w1) \<noteq> 0 \<or> DataPathIdle (wGate w1) \<or> SetDataPathIdle \<in># mset as + M"
    if "atHead (\<lambda>c. c = Close CloseWait) (wCtl w)"
    using exec_wakes_gate [OF assms(4), of M] assms(2,3) that unfolding wakes_def by simp
  moreover have "Rundown (wGate w1) = Rundown (wGate w)"
    using exec_frame [OF assms(4)] by simp
  ultimately show ?thesis
    using assms(2) unfolding wakes_def assms(5-8) by blast
qed

lemma wakes_grow:
  assumes "wakes w" and "acts w \<subseteq># acts w'" and "wCtl w' = wCtl w" and "DrainDone (wEng w') = DrainDone (wEng w)"
    and "InFlightIrps (wEng w) \<noteq> 0 \<Longrightarrow> InFlightIrps (wEng w') \<noteq> 0" and "Rundown (wGate w') = Rundown (wGate w)"
    and "DataPathRefs (wGate w) \<noteq> 0 \<Longrightarrow> DataPathRefs (wGate w') \<noteq> 0" and "DataPathIdle (wGate w') = DataPathIdle (wGate w)"
  shows "wakes w'"
  using assms by (auto simp: wakes_def dest: mset_subset_eqD)

lemma shaped_cong: "shaped w \<Longrightarrow> wCtl w' = wCtl w \<Longrightarrow> Draining (wEng w') = Draining (wEng w) \<Longrightarrow> shaped w'"
  by (simp add: shaped_def)

lemma frame_effect:
  assumes "PhotonicCapturePumpIsochCallback d (recordFrame d st c) = (as, c')" and "InFlightIrps c \<ge> 0"
  shows "Draining c' = Draining c" "DrainDone c' = DrainDone c" "InFlightIrps c \<noteq> 0 \<Longrightarrow> InFlightIrps c' \<noteq> 0"
proof -
  have "DrainDone (recordFrame d st c) = DrainDone c" "InFlightIrps (recordFrame d st c) = InFlightIrps c"
    "Draining (recordFrame d st c) = Draining c"
    by (simp_all add: recordFrame_def)
  then show "Draining c' = Draining c" "DrainDone c' = DrainDone c" "InFlightIrps c \<noteq> 0 \<Longrightarrow> InFlightIrps c' \<noteq> 0"
    using callback_cases [OF assms(1)] assms(2) by auto
qed

lemma enter_effect:
  assumes "enterDataPath a w = Some w'" and "DataPathRefs (wGate w) \<ge> 0"
  shows "acts w \<subseteq># acts w'" "wCtl w' = wCtl w" "wEng w' = wEng w" "Rundown (wGate w') = Rundown (wGate w)"
    "DataPathRefs (wGate w') \<noteq> 0" "DataPathIdle (wGate w') = DataPathIdle (wGate w)"
  using assms
  by (auto simp: enterDataPath_def PhotonicStreamEnterDataPath_def spawn_def acts_def subseteq_mset_def
      split: prod.splits bool.splits if_splits)

lemma started_wakes:
  assumes "startControl cs w = Some w'" and "\<not> atHead special cs"
  shows "wakes w'"
proof -
  have "\<not> atHead P cs" if "\<And>c. P c \<Longrightarrow> special c" for P
    using assms(2) atHead_mono [of P cs special] that by blast
  from this [of "\<lambda>c. c = Quiesce QSleep"] this [of "\<lambda>c. c = Close CloseWait"]
  have "\<not> atHead (\<lambda>c. c = Quiesce QSleep) cs" "\<not> atHead (\<lambda>c. c = Close CloseWait) cs"
    by auto
  then show ?thesis
    using startControl_eq [OF assms(1)] by (simp add: wakes_def)
qed

lemma started_shaped:
  assumes "startControl cs w = Some w'" and "positioned cs" and "okFrom False cs"
  shows "shaped w'"
  using startControl_eq [OF assms(1)] assms(2) okFrom_mono [OF assms(3)] by (simp add: shaped_def)

lemma shaped_ring:
  assumes "step ev fe e w = Some w'" and "e = EvStartRing one ex \<or> e = EvTrigger"
  shows "shaped w' \<and> wakes w'"
  using assms
proof (cases rule: step_ring)
  case (1 p k as cs s w1)
  then have head: "\<not> atHead special cs" and pos: "positioned cs" "okFrom False cs"
    by (auto simp: positioned_def)
  have "acts w1 \<subseteq># acts w'"
    using startControl_eq [OF 1(3)] by (simp add: 1(4) acts_def)
  then have "wakes w'"
    by (intro wakes_grow [OF started_wakes [OF 1(3) head]]) (simp_all add: 1(4))
  then show ?thesis
    using shaped_cong [OF started_shaped [OF 1(3) pos], of w'] by (simp add: 1(4))
qed

lemma accounted_signs: "accounted w \<Longrightarrow> 0 \<le> InFlightIrps (wEng w) \<and> 0 \<le> DataPathRefs (wGate w)"
  by (simp add: accounted_def irpsCounted_def)

lemma shaped_step:
  assumes "accounted w" and "shaped w" and "wakes w" and "step ev fe e w = Some w'"
  shows "shaped w' \<and> wakes w'"
proof (cases e)
  case (EvThread i)
  obtain a M as w1 where *: "acts w = add_mset a M" "exec ev fe a w = (as, w1)" "acts w' = mset as + M"
    "w' = w1\<lparr>wThreads := wThreads w'\<rparr>"
    using step_thread assms(4) EvThread by metis
  have same: "wEng w' = wEng w1" "wGate w' = wGate w1" "wCtl w' = wCtl w"
    using exec_frame [OF *(2)] by (subst *(4), simp)+
  show ?thesis
    using wakes_exec [OF assms(2,3) *(1-3) same] shaped_cong [OF assms(2) same(3)] same(1)
      exec_flags [OF *(2)] by simp
next
  case (EvCtl t)
  from assms(4) [unfolded EvCtl] show ?thesis
  proof (cases rule: step_ctl)
    case (data a M as w1)
    have same: "wEng w' = wEng w1" "wGate w' = wGate w1" "wCtl w' = wCtl w"
      using exec_frame [OF data(2)] by (subst data(4), simp)+
    show ?thesis
      using wakes_exec [OF assms(2,3) data(1-3) same] shaped_cong [OF assms(2) same(3)] same(1)
        exec_flags [OF data(2)] by simp
  next
    case (control c k as cs w1)
    have "shaped w'"
      using positioned_ctl [OF control(3), of k] ok_ctl [OF control(3), of k] assms(2) control(2,4)
      by (simp add: shaped_def)
    then show ?thesis
      using wakes_ctl [OF assms(2) control] by simp
  qed
next
  case (EvFrame d st)
  then obtain as c where c: "PhotonicCapturePumpIsochCallback d (recordFrame d st (wEng w)) = (as, c)"
    and w': "w' = spawn as (w\<lparr>wEng := c\<rparr>)"
    using assms(4) by (auto split: if_splits prod.splits)
  have "wakes w'"
    by (rule wakes_grow [OF assms(3)])
      (use frame_effect [OF c] accounted_signs [OF assms(1)] in \<open>simp_all add: w' spawn_def acts_def\<close>)
  then show ?thesis
    using shaped_cong [OF assms(2), of w'] frame_effect(1) [OF c] accounted_signs [OF assms(1)]
    by (simp add: w' spawn_def)
next
  case (EvRead srb)
  then have en: "enterDataPath (Front ReceiveRead srb) w = Some w'"
    using assms(4) by simp
  note eff = enter_effect [OF en] accounted_signs [OF assms(1)]
  show ?thesis
    using wakes_grow [OF assms(3), of w'] shaped_cong [OF assms(2), of w'] eff by simp
next
  case (EvCancel srb)
  then have en: "enterDataPath (Front CancelRead srb) w = Some w'"
    using assms(4) by simp
  note eff = enter_effect [OF en] accounted_signs [OF assms(1)]
  show ?thesis
    using wakes_grow [OF assms(3), of w'] shaped_cong [OF assms(2), of w'] eff by simp
next
  case (EvStart ex)
  then show ?thesis
    using assms(4) by (auto split: if_splits elim!: started_wakes started_shaped simp: positioned_def)
next
  case EvStop
  then show ?thesis
    using assms(4) by (auto split: if_splits elim!: started_wakes started_shaped simp: positioned_def stopProgram_def)
next
  case EvClose
  then show ?thesis
    using assms(4) by (auto split: if_splits elim!: started_wakes started_shaped simp: positioned_def)
next
  case EvService
  then show ?thesis
    using assms(4) by (auto split: if_splits elim!: started_wakes started_shaped simp: positioned_def)
next
  case (EvStartRing one ex)
  then show ?thesis
    using shaped_ring [OF assms(4)] by blast
next
  case EvTrigger
  then show ?thesis
    using shaped_ring [OF assms(4)] by blast
qed (use assms(4) wakes_grow [OF assms(3), of w'] shaped_cong [OF assms(2), of w'] in
      \<open>auto simp: spawn_def acts_def split: if_splits\<close>)

context front_end
begin

lemma shaped_runs:
  "runs ev fe es w = Some w' \<Longrightarrow> accounted w \<Longrightarrow> bounded w \<Longrightarrow> shaped w \<Longrightarrow> wakes w \<Longrightarrow> shaped w' \<and> wakes w'"
  by (induction es arbitrary: w)
    (auto split: option.splits dest: accounted_step bounded_step shaped_step)

lemma created_shaped:
  assumes "PhotonicCaptureCreate ev b = ((st, Some c), b')" and "runs ev fe es (opened c d s f) = Some w"
  shows "shaped w" "wakes w"
proof -
  have c: "fresh c"
    by (rule created_fresh [OF assms(1)])
  have "shaped (opened c d s f)" "wakes (opened c d s f)"
    by (simp_all add: shaped_def wakes_def opened_def positioned_def)
  then show "shaped w" "wakes w"
    using shaped_runs [OF assms(2) opened_accounted [OF c]] by simp_all
qed

end

section \<open>A blocked control program\<close>

lemma waiting_thread:
  assumes "a \<in># acts w" and "wCtlData w = []"
  shows "\<exists>i. \<exists>w'. step ev fe (EvThread i) w = Some w'"
proof -
  obtain ts where ts: "ts \<in> set (wThreads w)" "a \<in> set ts"
    using assms by (auto simp: acts_def)
  then obtain i where i: "i < length (wThreads w)" "wThreads w ! i = ts"
    by (metis in_set_conv_nth)
  obtain x xs where "ts = x # xs"
    using ts(2) by (cases ts) auto
  then have "\<exists>w'. step ev fe (EvThread i) w = Some w'"
    using i by (simp split: prod.splits)
  then show ?thesis
    by blast
qed

lemma blocked_cases:
  assumes "ctlStep ev fe c False w = None"
  shows "c = Quiesce QSleep \<and> \<not> DrainDone (wEng w) \<or> c = Quiesce QPump \<and> PumpActive (wEng w) \<or>
    c = Stop WaitPumpIdle \<and> PumpActive (wEng w) \<or> c = Close CloseWait \<and> \<not> DataPathIdle (wGate w) \<or>
    c = Listen LWait \<and> \<not> FirstAttachDone (wEng w)"
proof (cases c)
  case (Quiesce a)
  then show ?thesis
    using assms by (cases a) (auto split: prod.splits if_splits)
next
  case (Release a)
  then show ?thesis
    using assms by (cases a) (auto split: prod.splits)
next
  case (Listen a)
  then show ?thesis
    using assms by (cases a) (auto split: prod.splits if_splits)
next
  case (Start a)
  then show ?thesis
    using assms by (cases a) (auto split: prod.splits)
next
  case (Stop a)
  then show ?thesis
    using assms by (cases a) (auto split: prod.splits if_splits option.splits)
next
  case (Work a)
  then show ?thesis
    using assms by (cases a) (auto split: prod.splits if_splits)
next
  case (Close a)
  then show ?thesis
    using assms by (cases a) (auto split: prod.splits if_splits)
qed (use assms in auto)

lemma blocked_has_waker:
  assumes "accounted w" and "wakes w" and "wCtlData w = []" and "wCtl w = c # k"
    and "ctlStep ev fe c False w = None" and "c \<noteq> Listen LWait"
  shows "(\<exists>i w'. step ev fe (EvThread i) w = Some w') \<or> wAttach w \<noteq> [] \<or> wDetach w \<noteq> []"
proof (rule ccontr)
  assume no: "\<not> ?thesis"
  then have none: "acts w = {#}"
    using waiting_thread [OF _ assms(3)] by (metis multiset_nonemptyE)
  have "InFlightIrps (wEng w) = 0" "\<not> PumpActive (wEng w)" "DataPathRefs (wGate w) = 0"
    using assms(1) no none by (auto simp: accounted_def irpsCounted_def pumpElected_def)
  then show False
    using blocked_cases [OF assms(5)] assms(2,4,6) none by (auto simp: wakes_def)
qed

end
