(* ===== verification/Capture_Drain.thy ===== *)
theory Capture_Drain
  imports Capture_Progress
begin

text \<open>
  A quiesce can always finish.  Once the engine is draining every act costs strictly more than the
  acts it is replaced by, so running the threads and letting the bus driver complete its IRPs
  empties the data plane, and an empty data plane lets the quiesce go through.
\<close>

section \<open>The cost of an act\<close>

fun actCost :: "act \<Rightarrow> nat" where
  "actCost (BusAttach d) = 19"
| "actCost (BusDetach d) = 12"
| "actCost (AttachComplete d st) = 17"
| "actCost (DetachComplete d st) = 10"
| "actCost (Deliver k b st) = 1"
| "actCost PumpElect = 5"
| "actCost PumpClear = 3"
| "actCost (LapClaim i) = 2"
| "actCost (LapAcquire i d) = 5"
| "actCost (LapEmpty d) = 2"
| "actCost (LapReject i d k) = 4"
| "actCost (LapPublish i d k) = 3"
| "actCost PumpFinish = 1"
| "actCost IrpDone = 3"
| "actCost DrainTest = 2"
| "actCost SetDrainDone = 1"
| "actCost SetFirstAttach = 1"
| "actCost RequestWork = 2"
| "actCost QueueWork = 1"
| "actCost SetCancel = 1"
| "actCost (Front ReceiveRead k) = 7"
| "actCost (Front ParkRead k) = 6"
| "actCost (Front CancelRead k) = 4"
| "actCost (Front RequeueRing k) = 6"
| "actCost (Front StartRing k) = 6"
| "actCost LeaveDataPath = 2"
| "actCost SetDataPathIdle = 1"

lemma actCost_pos: "0 < actCost a"
  by (cases a rule: actCost.cases) simp_all

definition pendingCount :: "capture \<Rightarrow> nat" where
  "pendingCount c = (\<Sum>d\<in>{0..<PHOTONIC_CAPTURE_FRAME_COUNT}. of_bool (State (Frames c d) = PhotonicFramePending))"

text \<open>A re-election already counted by a pending PumpClear costs nothing more.\<close>

definition againCost :: "capture \<Rightarrow> act multiset \<Rightarrow> nat" where
  "againCost c M = (if PumpAgain c \<and> PumpClear \<notin># M then 3 else 0)"

definition drainCost :: "('b, 'f) world \<Rightarrow> nat" where
  "drainCost w = weigh actCost (acts w) + 18 * length (wAttach w) + 11 * length (wDetach w) +
     13 * pendingCount (wEng w) + againCost (wEng w) (acts w)"

lemma pendingCount_le:
  assumes "\<And>x. x \<noteq> d \<Longrightarrow> State (Frames c' x) = State (Frames c x)"
  shows "pendingCount c' \<le> pendingCount c + 1"
    and "State (Frames c' d) \<noteq> PhotonicFramePending \<Longrightarrow> pendingCount c' \<le> pendingCount c"
    and "State (Frames c' d) \<noteq> PhotonicFramePending \<Longrightarrow> State (Frames c d) = PhotonicFramePending \<Longrightarrow>
      d < PHOTONIC_CAPTURE_FRAME_COUNT \<Longrightarrow> pendingCount c' + 1 \<le> pendingCount c"
proof -
  let ?p = "\<lambda>c d. of_bool (State (Frames c d) = PhotonicFramePending) :: nat"
  let ?S = "{0..<PHOTONIC_CAPTURE_FRAME_COUNT}"
  have rest: "sum (?p c') (?S - {d}) = sum (?p c) (?S - {d})"
    using assms by (intro sum.cong) auto
  have split: "pendingCount e = (if d \<in> ?S then ?p e d else 0) + sum (?p e) (?S - {d})" for e
    unfolding pendingCount_def by (cases "d \<in> ?S") (simp only: sum.remove if_True finite_atLeastLessThan, simp)
  show "pendingCount c' \<le> pendingCount c + 1"
    "State (Frames c' d) \<noteq> PhotonicFramePending \<Longrightarrow> pendingCount c' \<le> pendingCount c"
    "State (Frames c' d) \<noteq> PhotonicFramePending \<Longrightarrow> State (Frames c d) = PhotonicFramePending \<Longrightarrow>
      d < PHOTONIC_CAPTURE_FRAME_COUNT \<Longrightarrow> pendingCount c' + 1 \<le> pendingCount c"
    unfolding split [of c] split [of c'] rest by auto
qed

lemma pendingCount_same: "(\<And>x. State (Frames c' x) = State (Frames c x)) \<Longrightarrow> pendingCount c' = pendingCount c"
  by (simp add: pendingCount_def)

section \<open>Internal events\<close>

text \<open>The threads, the control program without any timeout, and the completions of the bus driver.\<close>

fun internal :: "event \<Rightarrow> bool" where
  "internal (EvThread i) = True"
| "internal (EvCtl t) = (\<not> t)"
| "internal (EvAttachDone d st) = True"
| "internal (EvDetachDone d st) = True"
| "internal _ = False"

fun quiesceRank :: "quiesce_act \<Rightarrow> bool \<Rightarrow> nat" where
  "quiesceRank QStop e = 8"
| "quiesceRank QClaim e = (if e then 7 else 1)"
| "quiesceRank QClear e = 6"
| "quiesceRank QSleep e = 6"
| "quiesceRank QTest e = 5"
| "quiesceRank QEmpty e = 4"
| "quiesceRank QPump e = 3"
| "quiesceRank QClearFirst e = 2"
| "quiesceRank QBegin e = 9"

section \<open>A quiet data plane\<close>

definition quietData :: "('b, 'f) world \<Rightarrow> bool" where
  "quietData w \<longleftrightarrow> acts w = {#} \<and> wAttach w = [] \<and> wDetach w = []"

lemma quiet_facts:
  assumes "accounted w" and "wakes w" and "quietData w"
  shows "InFlightIrps (wEng w) = 0" "\<not> PumpActive (wEng w)" "wCtlData w = []"
    "wCtl w = Quiesce QSleep # k \<Longrightarrow> DrainDone (wEng w)"
    "d \<in> set (PendingList (wEng w)) \<Longrightarrow> State (Frames (wEng w) d) = PhotonicFramePending"
proof -
  have none: "acts w = {#}" "wAttach w = []" "wDetach w = []"
    using assms(3) by (simp_all add: quietData_def)
  show fl: "InFlightIrps (wEng w) = 0" "\<not> PumpActive (wEng w)"
    using assms(1) none by (auto simp: accounted_def irpsCounted_def pumpElected_def)
  show "wCtlData w = []"
    using none by (simp add: acts_def)
  show "wCtl w = Quiesce QSleep # k \<Longrightarrow> DrainDone (wEng w)"
    using assms(2) fl none by (simp add: wakes_def)
  assume d: "d \<in> set (PendingList (wEng w))"
  have placed: "framesPlaced (wEng w) {#} {#} {#}"
    using assms(1) none by (simp add: accounted_def)
  have pend: "count (mset (PendingList (wEng w))) d =
       inState {PhotonicFrameAttaching, PhotonicFrameCompletedWhileAttaching, PhotonicFramePending} (wEng w) d"
    "0 = inState {PhotonicFrameAttaching, PhotonicFrameCompletedWhileAttaching} (wEng w) d"
    using spec [OF placed [unfolded framesPlaced_def], of d] by simp_all
  have "count (mset (PendingList (wEng w))) d \<noteq> 0"
    using d by simp
  then show "State (Frames (wEng w) d) = PhotonicFramePending"
    using pend by (auto simp: inState_def of_bool_def split: if_splits)
qed

lemma quiet_first:
  assumes "accounted w" and "wakes w" and "quietData w" and "PendingList (wEng w) \<noteq> []"
  obtains d where "firstPending (wEng w) = Some d" and "d < PHOTONIC_CAPTURE_FRAME_COUNT"
proof (cases "firstPending (wEng w)")
  case None
  then have "State (Frames (wEng w) (hd (PendingList (wEng w)))) \<noteq> PhotonicFramePending"
    using assms(4) by (auto simp: firstPending_def find_None_iff)
  then show thesis
    using quiet_facts(5) [OF assms(1-3)] assms(4) by simp
next
  case (Some d)
  have "framesPlaced (wEng w) (acts w) (mset (wAttach w)) (mset (wDetach w))"
    using assms(1) by (simp add: accounted_def)
  then show thesis
    using that [OF Some] pending_frame find_pending(1) [OF Some] by blast
qed

lemma drainCost_view:
  assumes "engView (wEng w') = engView (wEng w)" and "PumpAgain (wEng w') = PumpAgain (wEng w)"
    and "acts w' = acts w" "wAttach w' = wAttach w" "wDetach w' = wDetach w"
  shows "drainCost w' = drainCost w"
proof -
  have "pendingCount (wEng w') = pendingCount (wEng w)"
    by (rule pendingCount_same) (rule engView_fields(1) [OF assms(1)])
  then show ?thesis
    using assms(2-5) by (simp add: drainCost_def againCost_def)
qed

lemma stopContext_again: "PumpAgain (wEng (stopContext ev w)) = PumpAgain (wEng w)"
  by (auto simp: stopContext_def setEng_def eng_def PhotonicCaptureResourceIsochStop_def split: prod.splits)

lemma stopContext_bus:
  "wThreads (stopContext ev w) = wThreads w" "wCtlData (stopContext ev w) = wCtlData w"
  "wAttach (stopContext ev w) = wAttach w" "wDetach (stopContext ev w) = wDetach w"
  by (simp_all add: stopContext_def setEng_def)

section \<open>Every act of a draining engine costs more than what it leaves\<close>

lemma again_simps [simp]:
  "PumpAgain (withState d st c) = PumpAgain c" "PumpAgain (recycleTail d c) = PumpAgain c"
  "PumpAgain (returnHead d c) = PumpAgain c" "PumpAgain (claimDetach d cs c) = PumpAgain c"
  "PumpAgain (unlinkPending d c) = PumpAgain c" "PumpAgain (PhotonicCapturePumpPrime d k m c) = PumpAgain c"
  by (simp_all add: withState_def recycleTail_def returnHead_def claimDetach_def unlinkPending_def
      PhotonicCapturePumpPrime_def)

text \<open>The lock sections that move one descriptor.\<close>

lemma cost_attach:
  assumes "PhotonicCapturePumpAttachComplete d st c = (as, c')" and "Draining c"
  shows "weigh actCost (mset as) + 13 * pendingCount c' < 17 + 13 * pendingCount c"
proof -
  have "State (Frames c' x) = State (Frames c x)" if "x \<noteq> d" for x
    using assms(1) that by (auto simp: PhotonicCapturePumpAttachComplete_def Let_def split: if_splits)
  note le = pendingCount_le [of d c' c, OF this]
  show ?thesis
  proof (cases "as = [IrpDone]")
    case True
    then show ?thesis
      using le(1) by simp
  next
    case False
    then have "State (Frames c' d) \<noteq> PhotonicFramePending \<and> weigh actCost (mset as) \<le> 12"
      using assms by (auto simp: PhotonicCapturePumpAttachComplete_def Let_def split: if_splits)
    then show ?thesis
      using le(2) by simp
  qed
qed

lemma cost_freed:
  assumes "\<And>x. x \<noteq> d \<Longrightarrow> State (Frames c' x) = State (Frames c x)"
    and "State (Frames c' d) \<noteq> PhotonicFramePending" and "weigh actCost (mset as) < n"
  shows "weigh actCost (mset as) + 13 * pendingCount c' < n + 13 * pendingCount c"
  using pendingCount_le(2) [of d c' c, OF assms(1,2)] assms(3) by simp

lemma cost_detach:
  assumes "PhotonicCapturePumpDetachComplete d st c = (as, c')"
  shows "weigh actCost (mset as) + 13 * pendingCount c' < 10 + 13 * pendingCount c"
  by (rule cost_freed [of d]) (use assms in \<open>auto simp: PhotonicCapturePumpDetachComplete_def Let_def split: if_splits\<close>)

lemma cost_laps:
  "lapEmpty d c = (as, c') \<Longrightarrow> weigh actCost (mset as) + 13 * pendingCount c' < 2 + 13 * pendingCount c"
  "lapReject i d k c = (as, c') \<Longrightarrow> weigh actCost (mset as) + 13 * pendingCount c' < 4 + 13 * pendingCount c"
  "lapPublish i d k c = (as, c') \<Longrightarrow> Draining c \<Longrightarrow>
     weigh actCost (mset as) + 13 * pendingCount c' < 3 + 13 * pendingCount c"
  by (rule cost_freed [of d]; auto simp: lapEmpty_def lapReject_def lapPublish_def)+

lemma cost_acquired:
  assumes "lapAcquired i d r c = (as, c')"
  shows "weigh actCost (mset as) + 13 * pendingCount c' < 5 + 13 * pendingCount c"
proof -
  have "pendingCount c' = pendingCount c"
    by (rule pendingCount_same) (use lapAcquired_cases [OF assms] in auto)
  then show ?thesis
    using lapAcquired_cases [OF assms] by auto
qed

text \<open>The cost of an act's effect: what is left of it, at the bus driver and in the descriptors.\<close>

definition paid :: "act \<Rightarrow> act list \<Rightarrow> ('b, 'f) world \<Rightarrow> ('b, 'f) world \<Rightarrow> bool" where
  "paid a as w w' \<longleftrightarrow>
     weigh actCost (mset as) + 18 * length (wAttach w') + 11 * length (wDetach w') + 13 * pendingCount (wEng w')
       < actCost a + 18 * length (wAttach w) + 11 * length (wDetach w) + 13 * pendingCount (wEng w)"

lemma paidI:
  "wAttach w' = wAttach w \<Longrightarrow> wDetach w' = wDetach w \<Longrightarrow>
   weigh actCost (mset as) + 13 * pendingCount (wEng w') < actCost a + 13 * pendingCount (wEng w) \<Longrightarrow> paid a as w w'"
  by (simp add: paid_def)

lemma pendingCount_fields [simp]:
  "pendingCount (c\<lparr>PumpAgain := b\<rparr>) = pendingCount c" "pendingCount (c\<lparr>PumpActive := b\<rparr>) = pendingCount c"
  "pendingCount (c\<lparr>InFlightIrps := n\<rparr>) = pendingCount c" "pendingCount (c\<lparr>DrainDone := b\<rparr>) = pendingCount c"
  "pendingCount (c\<lparr>FirstAttachDone := b\<rparr>) = pendingCount c" "pendingCount (c\<lparr>CancelPending := b\<rparr>) = pendingCount c"
  "pendingCount (c\<lparr>Draining := b\<rparr>) = pendingCount c" "pendingCount (c\<lparr>Listening := b\<rparr>) = pendingCount c"
  by (simp_all add: pendingCount_def)

locale draining_front = front_end fe reads inv held ok for fe :: "'f front" and reads inv held ok +
  assumes step_cost: "feStep fe p k x s f = (as, f') \<Longrightarrow> weigh actCost (mset as) < actCost (Front p k)"
begin

lemma paid_exec:
  assumes "exec ev fe a w = (as, w')" and "Draining (wEng w)" and "a \<noteq> PumpElect" and "a \<noteq> PumpFinish"
  shows "paid a as w w'"
proof (cases a)
  case (AttachComplete d st)
  then show ?thesis
    using assms(1,2) cost_attach by (intro paidI) (auto simp: onEng_def split: prod.splits)
next
  case (DetachComplete d st)
  then show ?thesis
    using assms(1) cost_detach by (intro paidI) (auto simp: onEng_def split: prod.splits)
next
  case (LapEmpty d)
  then show ?thesis
    using assms(1) cost_laps by (intro paidI) (auto simp: onEng_def split: prod.splits)
next
  case (LapReject i d k)
  then show ?thesis
    using assms(1) cost_laps by (intro paidI) (auto simp: onEng_def split: prod.splits)
next
  case (LapPublish i d k)
  then show ?thesis
    using assms(1,2) cost_laps by (intro paidI) (auto simp: onEng_def split: prod.splits)
next
  case (LapAcquire i d)
  then show ?thesis
    using assms(1) cost_acquired by (intro paidI) (auto simp: onEng_def split: prod.splits)
next
  case (LapClaim i)
  then show ?thesis
    using assms(1,2) by (intro paidI) (auto simp: onEng_def dest!: lapClaim_cases split: prod.splits)
next
  case (Front p k)
  then show ?thesis
    using assms(1) step_cost by (intro paidI) (auto split: prod.splits)
next
  case LeaveDataPath
  then show ?thesis
    using assms(1) by (intro paidI) (auto simp: exec_sections split: if_splits)
next
  case RequestWork
  then show ?thesis
    using assms(1) by (intro paidI) (auto simp: exec_sections split: if_splits)
next
  case QueueWork
  then show ?thesis
    using assms(1) by (intro paidI) (auto simp: exec_sections split: if_splits prod.splits)
qed (use assms in \<open>auto simp: paid_def exec_sections split: if_splits\<close>)

lemma again_exec:
  assumes "exec ev fe a w = (as, w')" and "a \<noteq> PumpElect" and "a \<noteq> PumpFinish"
  shows "againCost (wEng w') (mset as + M) \<le> againCost (wEng w) (add_mset a M)"
proof (cases "a = PumpClear")
  case True
  then show ?thesis
    using assms(1) by (auto simp: againCost_def exec_sections)
next
  case False
  have "PumpAgain (wEng w') = PumpAgain (wEng w)"
    using assms False
    by (cases a) (auto simp: exec_sections PhotonicCapturePumpAttachComplete_def
        PhotonicCapturePumpDetachComplete_def lapEmpty_def lapReject_def lapPublish_def
        dest!: lapClaim_cases lapAcquired_cases split: prod.splits if_splits)
  then show ?thesis
    using False by (auto simp: againCost_def)
qed

lemma drainCost_exec:
  assumes "accounted w" and "Draining (wEng w)" and "acts w = add_mset a M" and "exec ev fe a w = (as, w1)"
    and "acts w' = mset as + M" and "wEng w' = wEng w1" "wAttach w' = wAttach w1" "wDetach w' = wDetach w1"
  shows "drainCost w' < drainCost w"
proof -
  consider "a = PumpElect" | "a = PumpFinish" | "a \<noteq> PumpElect" "a \<noteq> PumpFinish"
    by blast
  then show ?thesis
  proof cases
    case 1
    then show ?thesis
      using assms(4) by (auto simp: drainCost_def assms(3,5-8) exec_sections againCost_def split: if_splits)
  next
    case 2
    have "weigh pumpTok M = 0"
      using assms(1,3) 2 by (auto simp: accounted_def pumpElected_def of_bool_def split: if_splits)
    then have "PumpClear \<notin># M"
      using weigh_member [of PumpClear M pumpTok] by auto
    then show ?thesis
      using assms(4) 2 by (auto simp: drainCost_def assms(3,5-8) exec_sections againCost_def split: if_splits)
  next
    case 3
    show ?thesis
      using paid_exec [OF assms(4,2) 3] again_exec [OF assms(4) 3, of M]
      by (simp add: drainCost_def assms(3,5-8) paid_def)
  qed
qed

lemma thread_decreases:
  assumes "accounted w" and "Draining (wEng w)" and "a \<in># acts w" and "wCtlData w = []"
  obtains i w' where "step ev fe (EvThread i) w = Some w'" and "drainCost w' < drainCost w"
    and "wCtl w' = wCtl w" and "wCtlData w' = []"
proof -
  obtain i w' where st: "step ev fe (EvThread i) w = Some w'"
    using waiting_thread [OF assms(3,4)] by blast
  obtain a M as w1 where *: "acts w = add_mset a M" "exec ev fe a w = (as, w1)" "acts w' = mset as + M"
    "w' = w1\<lparr>wThreads := wThreads w'\<rparr>"
    using step_thread st by metis
  have same: "wEng w' = wEng w1" "wAttach w' = wAttach w1" "wDetach w' = wDetach w1"
    by (subst *(4), simp)+
  show thesis
    using that [OF st drainCost_exec [OF assms(1,2) *(1-3) same]] thread_frame [OF st] assms(4) by simp
qed

lemma control_decreases:
  assumes "accounted w" and "Draining (wEng w)" and "wCtlData w \<noteq> []"
  obtains w' where "step ev fe (EvCtl False) w = Some w'" and "drainCost w' < drainCost w"
    and "wCtl w' = wCtl w"
proof -
  obtain w' where st: "step ev fe (EvCtl False) w = Some w'"
    using assms(3) by (cases "wCtlData w"; cases "exec ev fe (hd (wCtlData w)) w") auto
  from st show thesis
  proof (cases rule: step_ctl)
    case (data a M as w1)
    have same: "wEng w' = wEng w1" "wAttach w' = wAttach w1" "wDetach w' = wDetach w1"
      by (subst data(4), simp)+
    show thesis
      using that [OF st drainCost_exec [OF assms(1,2) data(1-3) same]] data_frame [OF data(2,4)] by simp
  qed (use assms(3) in simp)
qed

lemma attach_decreases:
  assumes "wAttach w \<noteq> []" and "wCtlData w = []"
  obtains d st w' where "step ev fe (EvAttachDone d st) w = Some w'" and "drainCost w' < drainCost w"
    and "wCtl w' = wCtl w" and "wCtlData w' = []"
proof -
  let ?d = "hd (wAttach w)"
  let ?st = "if ?d \<in> wArmed w then STATUS_SUCCESS else STATUS_CANCELLED"
  let ?w = "spawn [AttachComplete ?d ?st] (w\<lparr>wAttach := remove1 ?d (wAttach w)\<rparr>)"
  have d: "?d \<in> set (wAttach w)"
    using assms(1) by simp
  have "drainCost ?w < drainCost w"
    using d assms(1) by (cases "wAttach w") (auto simp: drainCost_def spawn_def acts_def againCost_def)
  then show thesis
    using d assms(2) by (intro that [of ?d ?st ?w]) (simp_all add: spawn_def)
qed

lemma detach_decreases:
  assumes "wDetach w \<noteq> []" and "wCtlData w = []"
  obtains d st w' where "step ev fe (EvDetachDone d st) w = Some w'" and "drainCost w' < drainCost w"
    and "wCtl w' = wCtl w" and "wCtlData w' = []"
proof -
  let ?d = "hd (wDetach w)"
  let ?w = "spawn [DetachComplete ?d STATUS_SUCCESS]
    (w\<lparr>wDetach := remove1 ?d (wDetach w), wArmed := wArmed w - {?d}\<rparr>)"
  have d: "?d \<in> set (wDetach w)"
    using assms(1) by simp
  have "drainCost ?w < drainCost w"
    using d assms(1) by (cases "wDetach w") (auto simp: drainCost_def spawn_def acts_def againCost_def)
  then show thesis
    using d assms(2) by (intro that [of ?d STATUS_SUCCESS ?w]) (simp_all add: spawn_def)
qed

text \<open>One control step of the quiesce: it ends, claims a descriptor, or comes closer to its end.\<close>

lemma quiet_step:
  assumes "accounted w" and "wakes w" and "quietData w" and "wCtl w = Quiesce a # k" and "a \<noteq> QBegin"
  obtains w' where "step ev fe (EvCtl False) w = Some w'" and "wCtl w' = k" and "wCtlData w' = []"
  | w' b where "step ev fe (EvCtl False) w = Some w'" and "wCtl w' = Quiesce b # k" and "b \<noteq> QBegin"
    and "drainCost w' < drainCost w \<or> drainCost w' = drainCost w \<and>
      quiesceRank b (PendingList (wEng w') = []) < quiesceRank a (PendingList (wEng w) = [])"
proof -
  note q = quiet_facts [OF assms(1-3)] and closer = that(2)
  have moved: thesis if "step ev fe (EvCtl False) w = Some w1" and "wCtl w1 = Quiesce b # k" and "b \<noteq> QBegin"
    and "engView (wEng w1) = engView (wEng w)" and "PumpAgain (wEng w1) = PumpAgain (wEng w)"
    and "wCtlData w1 = []" and "wThreads w1 = wThreads w" and "wAttach w1 = wAttach w" and "wDetach w1 = wDetach w"
    and "quiesceRank b (PendingList (wEng w) = []) < quiesceRank a (PendingList (wEng w) = [])" for w1 b
  proof -
    have "drainCost w1 = drainCost w"
      using that q(3) by (intro drainCost_view) (simp_all add: acts_def)
    then show thesis
      using closer [of w1 b] that(1-3,10) engView_fields(4) [OF that(4)] by simp
  qed
  show thesis
  proof (cases a)
    case QClearFirst
    then show ?thesis
      using that(1) q(3) assms(4) by simp
  next
    case QPump
    show ?thesis
      by (rule moved [of "w\<lparr>wCtlData := [], wCtl := Quiesce QClearFirst # k\<rparr>" QClearFirst])
        (use q assms(4) QPump in simp_all)
  next
    case QEmpty
    show ?thesis
      by (rule moved [of "w\<lparr>wCtlData := [], wCtl := Quiesce (if PendingList (wEng w) = [] then QPump else QClaim) # k\<rparr>"])
        (use q assms(4) QEmpty in \<open>auto simp: quiesceEmpty_def split: if_splits\<close>)
  next
    case QTest
    show ?thesis
      by (rule moved [of "w\<lparr>wCtlData := [], wCtl := Quiesce QEmpty # k\<rparr>" QEmpty])
        (use q assms(4) QTest in simp_all)
  next
    case QSleep
    show ?thesis
      by (rule moved [of "w\<lparr>wCtlData := [], wCtl := Quiesce QTest # k\<rparr>" QTest])
        (use q assms(4) QSleep in simp_all)
  next
    case QClear
    show ?thesis
      by (rule moved [of "w\<lparr>wEng := (wEng w)\<lparr>DrainDone := False\<rparr>, wCtlData := [], wCtl := Quiesce QTest # k\<rparr>" QTest])
        (use q assms(4) QClear in simp_all)
  next
    case QStop
    let ?w = "(if ResourceAllocated (wEng w) then stopContext ev w else w)\<lparr>wCtlData := [], wCtl := Quiesce QClaim # k\<rparr>"
    show ?thesis
      by (rule moved [of ?w QClaim])
        (use q(3) assms(4) QStop in \<open>auto simp: view_stopContext stopContext_again stopContext_bus\<close>)
  next
    case QClaim
    show ?thesis
    proof (cases "PendingList (wEng w) = []")
      case True
      then have "firstPending (wEng w) = None"
        by (simp add: firstPending_def)
      then show ?thesis
        by (intro moved [of "w\<lparr>wCtlData := [], wCtl := Quiesce QClear # k\<rparr>" QClear])
          (use q assms(4) QClaim True in \<open>simp_all add: quiesceClaim_def\<close>)
    next
      case False
      obtain d where d: "firstPending (wEng w) = Some d" "d < PHOTONIC_CAPTURE_FRAME_COUNT"
        using quiet_first [OF assms(1-3) False] by blast
      let ?c = "(claimDetach d STATUS_CANCELLED (wEng w))\<lparr>InFlightIrps := InFlightIrps (wEng w) + 1\<rparr>"
      let ?w = "w\<lparr>wEng := ?c, wCtlData := [BusDetach d], wCtl := Quiesce QClaim # k\<rparr>"
      have "step ev fe (EvCtl False) w = Some ?w"
        using q(3) assms(4) QClaim d(1) by (simp add: quiesceClaim_def)
      moreover have "pendingCount ?c + 1 \<le> pendingCount (wEng w)"
        by (rule pendingCount_le(3) [of d]) (use find_pending(2) [OF d(1)] d(2) in auto)
      then have "drainCost ?w < drainCost w"
        using assms(3) q(3) by (simp add: drainCost_def quietData_def acts_def againCost_def)
      ultimately show ?thesis
        using that(2) [of ?w QClaim] by simp
    qed
  qed (use assms(5) in simp)
qed

section \<open>The quiesce finishes\<close>

lemma quiesce_can_finish:
  assumes "accounted w" and "bounded w" and "shaped w" and "wakes w"
    and "wCtl w = Quiesce a # k" and "a \<noteq> QBegin"
  shows "\<exists>es w'. list_all internal es \<and> runs ev fe es w = Some w' \<and> wCtl w' = k \<and> wCtlData w' = []"
  using assms
proof (induction "10 * drainCost w + quiesceRank a (PendingList (wEng w) = [])" arbitrary: w a rule: less_induct)
  case less
  have dr: "Draining (wEng w)"
    using less.prems(3,5,6) by (simp add: shaped_def)
  have rank: "quiesceRank b e < 10" for b e
    by (cases b) simp_all
  have continue: ?case if "internal e" and "step ev fe e w = Some w1" and "wCtl w1 = Quiesce b # k" and "b \<noteq> QBegin"
    and "drainCost w1 < drainCost w \<or> drainCost w1 = drainCost w \<and>
      quiesceRank b (PendingList (wEng w1) = []) < quiesceRank a (PendingList (wEng w) = [])" for e w1 b
  proof -
    have "10 * drainCost w1 + quiesceRank b (PendingList (wEng w1) = [])
        < 10 * drainCost w + quiesceRank a (PendingList (wEng w) = [])"
      using that(5) rank [of b "PendingList (wEng w1) = []"] by linarith
    then have "\<exists>es w'. list_all internal es \<and> runs ev fe es w1 = Some w' \<and> wCtl w' = k \<and> wCtlData w' = []"
      using less.hyps [of w1 b] less.prems(1-4) that(2-4) accounted_step bounded_step shaped_step by blast
    then obtain es w' where "list_all internal es" "runs ev fe es w1 = Some w'" "wCtl w' = k" "wCtlData w' = []"
      by blast
    then show ?thesis
      using that(1,2) by (intro exI [of _ "e # es"] exI [of _ w']) simp
  qed
  consider (data) "wCtlData w \<noteq> []" | (thread) b where "b \<in># acts w" "wCtlData w = []"
    | (attach) "wAttach w \<noteq> []" "wCtlData w = []" | (detach) "wDetach w \<noteq> []" "wCtlData w = []" | (quiet) "quietData w"
    unfolding quietData_def by (metis multiset_nonemptyE)
  then show ?case
  proof cases
    case data
    then show ?thesis
      using control_decreases [OF less.prems(1) dr] continue [of "EvCtl False" _ a] less.prems(5,6)
      by (metis internal.simps(2))
  next
    case thread
    then show ?thesis
      using thread_decreases [OF less.prems(1) dr thread] continue [of "EvThread _" _ a] less.prems(5,6)
      by (metis internal.simps(1))
  next
    case attach
    then show ?thesis
      using attach_decreases [OF attach] continue [of "EvAttachDone _ _" _ a] less.prems(5,6)
      by (metis internal.simps(3))
  next
    case detach
    then show ?thesis
      using detach_decreases [OF detach] continue [of "EvDetachDone _ _" _ a] less.prems(5,6)
      by (metis internal.simps(4))
  next
    case quiet
    from quiet_step [OF less.prems(1,4) quiet less.prems(5,6), where ev = ev] show ?thesis
    proof cases
      case (1 w')
      then show ?thesis
        by (intro exI [of _ "[EvCtl False]"] exI [of _ w']) simp
    next
      case (2 w' b)
      then show ?thesis
        using continue [of "EvCtl False" w' b] by simp
    qed
  qed
qed

end

end
