(* ===== verification/Stream_Read.thy ===== *)
theory Stream_Read
  imports Capture_Drain
begin

text \<open>
  photonic/stream/read.c: the read data path of the stream.  A read is named by its SRB; what the
  driver reads and writes of the SRB, of its per-request extension and of its stream header is the
  record \<open>srb\<close>.  The parked reads are the queue of the stream extension, guarded by PendingLock;
  each lock section is one function.  The last part shows that these callbacks keep the contract
  of \<open>Capture_Front\<close>.
\<close>

section \<open>Requests\<close>

abbreviation (input) KSSTREAM_HEADER_OPTIONSF_SPLICEPOINT :: ULONG
  where "KSSTREAM_HEADER_OPTIONSF_SPLICEPOINT \<equiv> 0x1"

text \<open>
  \<open>Queued\<close> and \<open>ExtSrb\<close> are the fields of PHOTONIC_SRB_EXTENSION; \<open>ExtSrb\<close> says whether the
  back-pointer names this SRB.  \<open>HasArray\<close> is a non-NULL DataBufferArray.
\<close>

record srb =
  Queued :: bool
  ExtSrb :: bool
  NumberOfBuffers :: ULONG
  HasArray :: bool
  HasIrp :: bool
  IrpCancel :: bool
  MdlAddress :: "mdl option"
  TimeoutCounter :: ULONG
  TimeoutOriginal :: ULONG
  SrbStatus :: NTSTATUS
  HeaderSize :: ULONG
  FrameExtent :: ULONG
  DataUsed :: ULONG
  Duration :: ULONG
  OptionsFlags :: ULONG
  PictureNumber :: "ULONG option"

text \<open>
  \<open>rqCompleted\<close> records the completions in order (read, bytes, status, frame number reported),
  \<open>rqReady\<close> counts the ready notifications.
\<close>

record read_queue =
  PendingReads :: "nat list"
  Srbs :: "nat \<Rightarrow> srb"
  FrameNumber :: ULONG
  rqCompleted :: "(nat \<times> ULONG \<times> NTSTATUS \<times> ULONG) list"
  rqReady :: nat

definition updSrb :: "nat \<Rightarrow> (srb \<Rightarrow> srb) \<Rightarrow> read_queue \<Rightarrow> read_queue" where
  "updSrb k f q = q\<lparr>Srbs := (Srbs q)(k := f (Srbs q k))\<rparr>"

section \<open>Completing a read\<close>

text \<open>
  The parameter \<open>extended\<close> is the size of a stream header that carries the frame-info extension,
  a constant of the Windows headers.
\<close>

definition PhotonicStreamCompleteRead ::
  "ULONG \<Rightarrow> stream \<Rightarrow> nat \<Rightarrow> ULONG \<Rightarrow> NTSTATUS \<Rightarrow> read_queue \<Rightarrow> read_queue" where
  "PhotonicStreamCompleteRead extended s k BytesWritten status q =
     (let frameNumber = (if BytesWritten \<noteq> 0 then FrameNumber q + 1 else FrameNumber q);
          q1 = q\<lparr>FrameNumber := frameNumber\<rparr>;
          q2 = updSrb k (\<lambda>r. r\<lparr>DataUsed := BytesWritten, Duration := FrameInterval s,
                 OptionsFlags := (if BytesWritten \<noteq> 0 then KSSTREAM_HEADER_OPTIONSF_SPLICEPOINT else 0),
                 PictureNumber := (if HeaderSize r \<ge> extended then Some frameNumber else PictureNumber r),
                 TimeoutCounter := TimeoutOriginal r, SrbStatus := status\<rparr>) q1
      in q2\<lparr>rqCompleted := rqCompleted q2 @ [(k, BytesWritten, status, frameNumber)]\<rparr>)"

definition PhotonicStreamDeliverFrame ::
  "ULONG \<Rightarrow> stream \<Rightarrow> nat \<Rightarrow> ULONG \<Rightarrow> NTSTATUS \<Rightarrow> read_queue \<Rightarrow> read_queue" where
  "PhotonicStreamDeliverFrame extended s k BytesUsed status q =
     (let used = (if BytesUsed > FrameExtent (Srbs q k) then FrameExtent (Srbs q k) else BytesUsed);
          used1 = (if NT_SUCCESS status then used else 0)
      in PhotonicStreamCompleteRead extended s k used1 status q)"

section \<open>The buffer source\<close>

text \<open>The loop pops parked reads until one has an MDL; the reads without are completed failed.\<close>

fun acquireLoop :: "ULONG \<Rightarrow> stream \<Rightarrow> nat list \<Rightarrow> read_queue \<Rightarrow> (nat \<times> mdl option) option \<times> read_queue" where
  "acquireLoop extended s [] q = (None, q)"
| "acquireLoop extended s (k # rest) q =
     (let q1 = updSrb k (\<lambda>r. r\<lparr>Queued := False\<rparr>) (q\<lparr>PendingReads := rest\<rparr>);
          m = (if HasIrp (Srbs q1 k) then MdlAddress (Srbs q1 k) else None)
      in case m of
           None \<Rightarrow> acquireLoop extended s rest (PhotonicStreamCompleteRead extended s k 0 STATUS_INVALID_PARAMETER q1)
         | Some d \<Rightarrow> (Some (k, Some d), q1))"

definition PhotonicStreamAcquireBuffer ::
  "ULONG \<Rightarrow> stream \<Rightarrow> read_queue \<Rightarrow> (nat \<times> mdl option) option \<times> read_queue" where
  "PhotonicStreamAcquireBuffer extended s q = acquireLoop extended s (PendingReads q) q"

section \<open>Drain, cancel, receive\<close>

text \<open>One iteration of PhotonicStreamCompletePendingReads, None when the queue is empty.\<close>

definition PhotonicStreamCompletePendingReads :: "ULONG \<Rightarrow> stream \<Rightarrow> read_queue \<Rightarrow> read_queue option" where
  "PhotonicStreamCompletePendingReads extended s q =
     (case PendingReads q of
        [] \<Rightarrow> None
      | k # rest \<Rightarrow> Some (PhotonicStreamCompleteRead extended s k 0 STATUS_SUCCESS
            (updSrb k (\<lambda>r. r\<lparr>Queued := False\<rparr>) (q\<lparr>PendingReads := rest\<rparr>))))"

definition PhotonicStreamCancelRead :: "ULONG \<Rightarrow> stream \<Rightarrow> nat \<Rightarrow> read_queue \<Rightarrow> act list \<times> read_queue" where
  "PhotonicStreamCancelRead extended s k q =
     (let owned = Queued (Srbs q k) \<and> ExtSrb (Srbs q k);
          stopped = (StreamState s = KSSTATE_STOP)
      in if owned
         then ([], PhotonicStreamCompleteRead extended s k 0 STATUS_CANCELLED
                 (updSrb k (\<lambda>r. r\<lparr>Queued := False\<rparr>) (q\<lparr>PendingReads := remove1 k (PendingReads q)\<rparr>)))
         else if stopped then ([], q)
         else ([SetCancel, RequestWork], q))"

definition finishRequest :: "nat \<Rightarrow> NTSTATUS \<Rightarrow> read_queue \<Rightarrow> read_queue" where
  "finishRequest k status q =
     (updSrb k (\<lambda>r. r\<lparr>SrbStatus := status\<rparr>) q)
       \<lparr>rqReady := rqReady q + 1, rqCompleted := rqCompleted q @ [(k, 0, status, FrameNumber q)]\<rparr>"

text \<open>
  PhotonicStreamReceiveReadData: the extension is initialized and the shape of the request is
  checked; then, in one lock hold, the read is parked or completed.
\<close>

definition receiveRead :: "nat \<Rightarrow> read_queue \<Rightarrow> act list \<times> read_queue" where
  "receiveRead k q =
     (let q1 = updSrb k (\<lambda>r. r\<lparr>Queued := False, ExtSrb := True\<rparr>) q in
      if NumberOfBuffers (Srbs q1 k) \<noteq> 1 \<or> \<not> HasArray (Srbs q1 k)
      then ([], finishRequest k STATUS_INVALID_PARAMETER q1)
      else ([Front ParkRead k],
            (updSrb k (\<lambda>r. r\<lparr>TimeoutCounter := 0\<rparr>) q1)\<lparr>rqReady := rqReady q1 + 1\<rparr>))"

definition parkRead :: "ULONG \<Rightarrow> extension \<Rightarrow> stream \<Rightarrow> nat \<Rightarrow> read_queue \<Rightarrow> act list \<times> read_queue" where
  "parkRead extended x s k q =
     (if Removed x then ([], PhotonicStreamCompleteRead extended s k 0 STATUS_DEVICE_REMOVED q)
      else if StreamState s = KSSTATE_STOP then ([], PhotonicStreamCompleteRead extended s k 0 STATUS_CANCELLED q)
      else if HasIrp (Srbs q k) \<and> IrpCancel (Srbs q k)
      then ([], PhotonicStreamCompleteRead extended s k 0 STATUS_CANCELLED q)
      else ([PumpElect], (updSrb k (\<lambda>r. r\<lparr>Queued := True\<rparr>) q)\<lparr>PendingReads := PendingReads q @ [k]\<rparr>))"

fun readStep :: "ULONG \<Rightarrow> front_step \<Rightarrow> nat \<Rightarrow> extension \<Rightarrow> stream \<Rightarrow> read_queue \<Rightarrow> act list \<times> read_queue" where
  "readStep extended ReceiveRead k x s q = receiveRead k q"
| "readStep extended ParkRead k x s q = parkRead extended x s k q"
| "readStep extended CancelRead k x s q = PhotonicStreamCancelRead extended s k q"
| "readStep extended RequeueRing k x s q = ([], q)"
| "readStep extended StartRing k x s q = ([], q)"

definition streamFront :: "ULONG \<Rightarrow> read_queue front" where
  "streamFront extended = \<lparr>feAcquire = PhotonicStreamAcquireBuffer extended,
     feDeliver = PhotonicStreamDeliverFrame extended,
     feDrain = PhotonicStreamCompletePendingReads extended, feRing = (\<lambda>_. None),
     feStep = readStep extended\<rparr>"

text \<open>
  PhotonicStreamReceiveDataPacket: a refused request is completed cancelled without touching the
  stream, a read runs its handler and leaves the gate, anything else completes synchronously.
\<close>

datatype srb_command = SRB_READ_DATA | SRB_WRITE_DATA | SRB_OTHER_COMMAND ULONG

definition PhotonicStreamReceiveDataPacket ::
  "srb_command \<Rightarrow> nat \<Rightarrow> gate \<Rightarrow> read_queue \<Rightarrow> act list \<times> gate \<times> read_queue" where
  "PhotonicStreamReceiveDataPacket cmd k g q =
     (case PhotonicStreamEnterDataPath g of
        (False, g1) \<Rightarrow> ([], g1, finishRequest k STATUS_CANCELLED q)
      | (True, g1) \<Rightarrow>
          if cmd = SRB_READ_DATA then ([Front ReceiveRead k, LeaveDataPath], g1, q)
          else ([LeaveDataPath], g1,
                finishRequest k (if cmd = SRB_WRITE_DATA then STATUS_NOT_SUPPORTED else STATUS_NOT_IMPLEMENTED) q))"

section \<open>The contract of the engine\<close>

definition streamReads :: "read_queue \<Rightarrow> nat multiset" where
  "streamReads q = mset (PendingReads q) + mset (map fst (rqCompleted q))"

text \<open>A read not yet parked is in the hands of its handler; a cancel only refers to a read.\<close>

fun streamHeld :: "front_step \<Rightarrow> nat \<Rightarrow> nat multiset" where
  "streamHeld ReceiveRead k = {#k#}"
| "streamHeld ParkRead k = {#k#}"
| "streamHeld _ k = {#}"

lemma handed_received: "sum_list (map (handed streamHeld) es) = mset (received es)"
proof (induction es)
  case (Cons e es)
  then show ?case
    by (cases e) simp_all
qed simp

text \<open>A read whose extension claims it is parked is on the queue.\<close>

definition queueOk :: "read_queue \<Rightarrow> bool" where
  "queueOk q \<longleftrightarrow> (\<forall>k. Queued (Srbs q k) \<and> ExtSrb (Srbs q k) \<longrightarrow> k \<in> set (PendingReads q))"

lemma updSrb_simps [simp]:
  "Srbs (updSrb k f q) x = (if x = k then f (Srbs q k) else Srbs q x)"
  "PendingReads (updSrb k f q) = PendingReads q" "rqCompleted (updSrb k f q) = rqCompleted q"
  "FrameNumber (updSrb k f q) = FrameNumber q" "rqReady (updSrb k f q) = rqReady q"
  by (simp_all add: updSrb_def)

lemma CompleteRead_simps [simp]:
  "PendingReads (PhotonicStreamCompleteRead e s k b st q) = PendingReads q"
  "rqCompleted (PhotonicStreamCompleteRead e s k b st q) =
     rqCompleted q @ [(k, b, st, if b \<noteq> 0 then FrameNumber q + 1 else FrameNumber q)]"
  "FrameNumber (PhotonicStreamCompleteRead e s k b st q) =
     (if b \<noteq> 0 then FrameNumber q + 1 else FrameNumber q)"
  "Queued (Srbs (PhotonicStreamCompleteRead e s k b st q) x) = Queued (Srbs q x)"
  "ExtSrb (Srbs (PhotonicStreamCompleteRead e s k b st q) x) = ExtSrb (Srbs q x)"
  "HasIrp (Srbs (PhotonicStreamCompleteRead e s k b st q) x) = HasIrp (Srbs q x)"
  "MdlAddress (Srbs (PhotonicStreamCompleteRead e s k b st q) x) = MdlAddress (Srbs q x)"
  by (simp_all add: PhotonicStreamCompleteRead_def Let_def)

lemma streamReads_complete [simp]:
  "streamReads (PhotonicStreamCompleteRead e s k b st q) = streamReads q + {#k#}"
  by (simp add: streamReads_def)

lemma queueOk_complete [simp]: "queueOk (PhotonicStreamCompleteRead e s k b st q) = queueOk q"
  by (simp add: queueOk_def)

lemma acquireLoop_keeps:
  assumes "acquireLoop e s xs q = (r, q')" and "PendingReads q = xs" and "queueOk q"
  shows "queueOk q' \<and> streamReads q = streamReads q' + (case r of None \<Rightarrow> {#} | Some (k, _) \<Rightarrow> {#k#})"
  using assms
proof (induction xs arbitrary: q)
  case Nil
  then show ?case
    by simp
next
  case (Cons k xs)
  let ?q = "updSrb k (\<lambda>r. r\<lparr>Queued := False\<rparr>) (q\<lparr>PendingReads := xs\<rparr>)"
  have ok: "queueOk ?q"
    using Cons.prems(2,3) by (auto simp: queueOk_def)
  have reads: "streamReads q = streamReads ?q + {#k#}"
    using Cons.prems(2) by (simp add: streamReads_def)
  show ?case
  proof (cases "HasIrp (Srbs q k) \<and> MdlAddress (Srbs q k) \<noteq> None")
    case True
    then show ?thesis
      using Cons.prems(1) ok reads by (auto simp: Let_def)
  next
    case False
    then have "acquireLoop e s xs (PhotonicStreamCompleteRead e s k 0 STATUS_INVALID_PARAMETER ?q) = (r, q')"
      using Cons.prems(1) by (auto simp: Let_def split: if_splits)
    then show ?thesis
      using Cons.IH [of "PhotonicStreamCompleteRead e s k 0 STATUS_INVALID_PARAMETER ?q"] ok reads by simp
  qed
qed

interpretation stream: front_end "streamFront extended" streamReads queueOk streamHeld "\<lambda>_. True" for extended
proof
  fix s p k m x b st as and f f' :: read_queue and M N :: "nat multiset"
  show "True \<Longrightarrow> N \<subseteq># M \<Longrightarrow> True" "streamHeld RequeueRing k = {#}" "streamHeld StartRing k = {#}"
    by simp_all
  show "queueOk f \<Longrightarrow> feAcquire (streamFront extended) s f = (Some (k, m), f') \<Longrightarrow>
      queueOk f' \<and> streamReads f = streamReads f' + {#k#}"
    using acquireLoop_keeps [of extended s "PendingReads f" f "Some (k, m)" f']
    by (simp add: streamFront_def PhotonicStreamAcquireBuffer_def)
  show "queueOk f \<Longrightarrow> feAcquire (streamFront extended) s f = (None, f') \<Longrightarrow>
      queueOk f' \<and> streamReads f = streamReads f'"
    using acquireLoop_keeps [of extended s "PendingReads f" f None f']
    by (simp add: streamFront_def PhotonicStreamAcquireBuffer_def)
  show "queueOk f \<Longrightarrow> True \<Longrightarrow> queueOk (feDeliver (streamFront extended) s k b st f) \<and>
      streamReads (feDeliver (streamFront extended) s k b st f) = streamReads f + {#k#}"
    by (simp add: streamFront_def PhotonicStreamDeliverFrame_def Let_def)
  show "queueOk f \<Longrightarrow> feDrain (streamFront extended) s f = Some f' \<Longrightarrow>
      queueOk f' \<and> streamReads f' = streamReads f"
    by (auto simp: streamFront_def PhotonicStreamCompletePendingReads_def queueOk_def streamReads_def
        split: list.splits if_splits)
  show "feStep (streamFront extended) p k x s f = (as, f') \<Longrightarrow> list_all frontAct as"
    by (cases p) (auto simp: streamFront_def receiveRead_def parkRead_def PhotonicStreamCancelRead_def
        Let_def split: if_splits)
  show "queueOk f \<Longrightarrow> feStep (streamFront extended) p k x s f = (as, f') \<Longrightarrow>
      queueOk f' \<and> streamReads f' + weigh (readTok streamHeld) (mset as) = streamReads f + streamHeld p k"
    by (cases p) (auto simp: streamFront_def receiveRead_def parkRead_def PhotonicStreamCancelRead_def
        finishRequest_def queueOk_def streamReads_def Let_def split: if_splits)
qed

interpretation stream: draining_front "streamFront extended" streamReads queueOk streamHeld "\<lambda>_. True" for extended
  by unfold_locales (auto simp: streamFront_def receiveRead_def parkRead_def PhotonicStreamCancelRead_def
      Let_def split: if_splits front_step.splits elim!: readStep.elims)

end
