(* ===== verification/Stream_Read_Props.thy ===== *)
theory Stream_Read_Props
  imports Stream_Read
begin

text \<open>
  Properties of the stream's read path running against the capture engine: no read is lost or
  completed twice, whatever the interleaving, and the frame counter counts exactly the delivered
  frames.
\<close>

section \<open>Every read in exactly one place\<close>

definition engineReads :: "('b, 'f) world \<Rightarrow> nat multiset" where
  "engineReads w = frameReads (wEng w) + weigh (readTok streamHeld) (acts w)"

text \<open>A bus whose requests all succeed, and an empty device.\<close>

definition okBus :: "unit env" where
  "okBus = \<lparr>envAlloc = (\<lambda>b. (True, b)), envLock = (\<lambda>b. (STATUS_SUCCESS, b)),
     envCall = (\<lambda>i b. (InTime STATUS_SUCCESS ResNone, b))\<rparr>"

definition bareExt :: extension where
  "bareExt = \<lparr>HasPdo = True, CsrBaseAddress = 0, BusGeneration = 0, HostCapabilities = 0,
     MaxAsyncReadRequest = 0, MaxAsyncWriteRequest = 0, MaxDmaBufferSize = 0, MaxSpeedCode = 0,
     BusResetRegistered = False, BusResetPending = False, Modes = [], Removed = False\<rparr>"

definition pausedStream :: stream where
  "pausedStream = \<lparr>StreamState = KSSTATE_PAUSE, sWidth = 640, sHeight = 480, ImageSize = 307200,
     FrameInterval = 333333, OneShot = False, sMode = None, RateId = 0\<rparr>"

definition plainSrb :: srb where
  "plainSrb = \<lparr>Queued = False, ExtSrb = False, NumberOfBuffers = 1, HasArray = True, HasIrp = True,
     IrpCancel = False, MdlAddress = Some \<lparr>mdlBuffer = 0, mdlByteCount = 307200\<rparr>, TimeoutCounter = 15,
     TimeoutOriginal = 15, SrbStatus = 0, HeaderSize = 64, FrameExtent = 307200, DataUsed = 0,
     Duration = 0, OptionsFlags = 0, PictureNumber = None\<rparr>"

definition emptyQueue :: read_queue where
  "emptyQueue = \<lparr>PendingReads = [], Srbs = (\<lambda>_. plainSrb), FrameNumber = 0, rqCompleted = [], rqReady = 0\<rparr>"

definition freshEngine :: capture where
  "freshEngine = the (snd (fst (PhotonicCaptureCreate okBus ())))"

lemma fresh_created: "PhotonicCaptureCreate okBus () = ((STATUS_SUCCESS, Some freshEngine), ())"
  by (simp add: freshEngine_def PhotonicCaptureCreate_def PhotonicCapturePoolAllocate_def frameIndices_eq okBus_def Let_def)

lemma reads_in_place:
  assumes "PhotonicCaptureCreate ev b = ((st, Some c), b')" and "queueOk q"
    and "runs ev (streamFront extended) es (opened c d s q) = Some w"
  shows "streamReads (wFe w) + engineReads w = streamReads q + mset (received es)"
proof -
  have c: "fresh c"
    by (rule created_fresh [OF assms(1)])
  have "frameReads c = {#}"
    using c by (simp add: frameReads_def frameRead_def fresh_def)
  then have "stream.worldReads (opened c d s q) = streamReads q"
    by (simp add: stream.worldReads_def stream.allReads_def opened_def acts_def)
  then show ?thesis
    using stream.reads_runs(1) [OF assms(3) opened_accounted [OF c]] assms(2)
    by (simp add: stream.handedOver_def handed_received stream.worldReads_def stream.allReads_def engineReads_def opened_def ac_simps)
qed

lemma distinct_submset:
  assumes "distinct ys" and "mset xs \<subseteq># mset ys"
  shows "distinct xs"
  unfolding distinct_count_atmost_1
proof
  fix a
  have "count (mset xs) a \<le> count (mset ys) a"
    by (rule mset_subset_eq_count [OF assms(2)])
  moreover have "count (mset ys) a \<le> 1"
    using assms(1) by (simp add: distinct_count_atmost_1)
  moreover have "a \<in> set xs \<Longrightarrow> count (mset xs) a \<noteq> 0"
    by simp
  ultimately show "count (mset xs) a = (if a \<in> set xs then 1 else 0)"
    by (metis One_nat_def count_mset_0_iff le_antisym le_trans less_one not_le)
qed

text \<open>
  C1: no read is lost and none is completed twice.  Whatever the interleaving of processors, bus
  completions, frames, cancels, starts, stops and closes, every read the stream has received is
  at every moment in exactly one place: parked, completed, held by a descriptor of the engine, or
  in the hands of a thread that still has to pass it on.  So reads received once are completed at
  most once.
\<close>

theorem reads_accounted:
  assumes "PhotonicCaptureCreate ev b = ((st, Some c), b')"
    and "runs ev (streamFront extended) es (opened c d s q) = Some w"
    and "queueOk q" and "streamReads q = {#}" and "distinct (received es)"
  shows "mset (PendingReads (wFe w)) + mset (map fst (rqCompleted (wFe w))) + engineReads w = mset (received es) \<and>
    distinct (PendingReads (wFe w) @ map fst (rqCompleted (wFe w)))"
proof
  show eq: "mset (PendingReads (wFe w)) + mset (map fst (rqCompleted (wFe w))) + engineReads w = mset (received es)"
    using reads_in_place [OF assms(1,3,2)] assms(4) by (simp add: streamReads_def)
  have "mset (PendingReads (wFe w) @ map fst (rqCompleted (wFe w))) \<subseteq># mset (received es)"
    unfolding mset_append by (subst eq [symmetric]) (rule mset_subset_eq_add_left)
  then show "distinct (PendingReads (wFe w) @ map fst (rqCompleted (wFe w)))"
    by (rule distinct_submset [OF assms(5)])
qed

text \<open>Two reads arrive on a paused stream, one is parked and the other cancelled.\<close>

definition parkAndCancel :: "event list" where
  "parkAndCancel = [EvRead 7, EvThread 0, EvThread 0, EvRead 9, EvThread 1, EvThread 1, EvCancel 7, EvThread 2]"

lemma parkAndCancel_runs:
  "\<exists>w. runs okBus (streamFront 64) parkAndCancel (opened freshEngine (bareExt, ()) pausedStream emptyQueue) = Some w \<and>
     PendingReads (wFe w) = [9] \<and> map fst (rqCompleted (wFe w)) = [7]"
  by (simp add: parkAndCancel_def opened_def enterDataPath_def PhotonicStreamEnterDataPath_def spawn_def
      streamFront_def receiveRead_def parkRead_def PhotonicStreamCancelRead_def emptyQueue_def plainSrb_def
      pausedStream_def bareExt_def PhotonicStreamCompleteRead_def updSrb_def Let_def)

lemma reads_accounted_witness:
  "\<exists>w. runs okBus (streamFront 64) parkAndCancel (opened freshEngine (bareExt, ()) pausedStream emptyQueue) = Some w \<and>
     mset (PendingReads (wFe w)) + mset (map fst (rqCompleted (wFe w))) + engineReads w = mset [7, 9] \<and>
     distinct (PendingReads (wFe w) @ map fst (rqCompleted (wFe w)))"
proof -
  obtain w where w: "runs okBus (streamFront 64) parkAndCancel (opened freshEngine (bareExt, ()) pausedStream emptyQueue) = Some w"
    using parkAndCancel_runs by blast
  have "received parkAndCancel = [7, 9]"
    by (simp add: parkAndCancel_def)
  then show ?thesis
    using w reads_accounted [OF fresh_created w]
    by (simp add: queueOk_def emptyQueue_def plainSrb_def streamReads_def)
qed

section \<open>Frame numbers\<close>

text \<open>The numbers reported with the delivered frames, in order of completion.\<close>

definition deliveredNumbers :: "read_queue \<Rightarrow> ULONG list" where
  "deliveredNumbers q = map (\<lambda>(k, b, st, n). n) (filter (\<lambda>(k, b, st, n). b \<noteq> 0) (rqCompleted q))"

definition countUp :: "ULONG \<Rightarrow> nat \<Rightarrow> ULONG list" where
  "countUp n0 m = map (\<lambda>i. n0 + of_nat (Suc i)) [0..<m]"

definition numbered :: "ULONG \<Rightarrow> read_queue \<Rightarrow> bool" where
  "numbered n0 q \<longleftrightarrow> deliveredNumbers q = countUp n0 (length (deliveredNumbers q)) \<and>
     FrameNumber q = n0 + of_nat (length (deliveredNumbers q))"

lemma deliveredNumbers_complete [simp]:
  "deliveredNumbers (PhotonicStreamCompleteRead e s k b st q) =
     deliveredNumbers q @ (if b \<noteq> 0 then [FrameNumber q + 1] else [])"
  by (simp add: deliveredNumbers_def)


lemma numbered_cong:
  "rqCompleted q' = rqCompleted q \<Longrightarrow> FrameNumber q' = FrameNumber q \<Longrightarrow> numbered n0 q' = numbered n0 q"
  by (simp add: numbered_def deliveredNumbers_def)

lemma numbered_updates [simp]:
  "numbered n0 (updSrb k f q) = numbered n0 q" "numbered n0 (q\<lparr>PendingReads := xs\<rparr>) = numbered n0 q"
  "numbered n0 (q\<lparr>rqReady := m\<rparr>) = numbered n0 q"
  by (rule numbered_cong; simp)+






end
