(* ===== verification/Capture_Session.thy ===== *)
theory Capture_Session
  imports Capture_Teardown Stream_Read_Props
begin

text \<open>
  A concrete camera, bus and engine on which the machine of \<open>Capture_Machine\<close> runs: the session
  the witnesses use.  The camera is in a Format 7 mode with a region of interest and answers every
  register read with one value; the parameters say whether the bus accepts the stop of the
  isochronous context and the free of the resource handle.
\<close>

section \<open>The bus\<close>

definition roiBus :: "bool \<Rightarrow> bool \<Rightarrow> unit env" where
  "roiBus accepted frees = (reg_bus 0x0004000C)\<lparr>envCall := (\<lambda>i b. case i of
       ISOCH_STOP h \<Rightarrow> (InTime (if accepted then STATUS_SUCCESS else STATUS_CANCELLED) ResNone, b)
     | ISOCH_FREE_RESOURCES h \<Rightarrow> (InTime (if frees then STATUS_SUCCESS else STATUS_CANCELLED) ResNone, b)
     | _ \<Rightarrow> envCall (reg_bus 0x0004000C) i b)\<rparr>"

abbreviation stopBus :: "bool \<Rightarrow> unit env" where "stopBus accepted \<equiv> roiBus accepted True"

lemma stopBus_accepts: "stopsAccepted (roiBus True f)"
  by (simp add: stopsAccepted_def submit_def PhotonicSubmitIrb_def PhotonicSubmitIrbEx_def roiBus_def
      reg_bus_def cam_bus_def split: prod.splits)

lemma stopBus_transfer:
  assumes "HasPdo x" and "\<not> BusResetPending x"
  shows
    "PhotonicAsyncTransfer (roiBus a f) adr (XWrite (le_bytes w)) t (x, ()) = (Inr [], (x, ()))"
    "PhotonicAsyncTransfer (roiBus a f) adr (XRead 4) t (x, ()) =
       (Inr (le_bytes (RtlUlongByteSwap 0x0004000C)), (x, ()))"
  using assms
  by (simp_all add: PhotonicAsyncTransfer_def refreshIfPending_def submitRetry_def
      PhotonicSubmitIrbEx_def roiBus_def reg_bus_def cam_bus_def xferIrb_def)

lemma stopBus_register:
  assumes "HasPdo x" and "\<not> BusResetPending x"
  shows
    "Photonic1394WriteRegister (roiBus a f) off w (x, ()) = (Inr (), (x, ()))"
    "Photonic1394ReadRegister (roiBus a f) off (x, ()) = (Inr 0x0004000C, (x, ()))"
  using assms
  by (simp_all add: Photonic1394WriteRegister_def writeQuadlet_def Photonic1394ReadRegister_def
      readQuadlet_def stopBus_transfer)

lemma stopBus_submit:
  assumes "HasPdo x"
  shows
  "PhotonicSubmitIrb (roiBus a f) x (ISOCH_ALLOCATE_CHANNEL n) () = ((STATUS_SUCCESS, ResNone), ())"
  "PhotonicSubmitIrb (roiBus a f) x (ISOCH_ALLOCATE_BANDWIDTH n k) () = ((STATUS_SUCCESS, ResNone), ())"
  "PhotonicSubmitIrb (roiBus a f) x (ISOCH_ALLOCATE_RESOURCES rq) () = ((STATUS_SUCCESS, ResNone), ())"
  "PhotonicSubmitIrb (roiBus a f) x (ISOCH_LISTEN h) () = ((STATUS_SUCCESS, ResNone), ())"
  "PhotonicSubmitIrb (roiBus a f) x (ISOCH_STOP h) () =
     ((if a then STATUS_SUCCESS else STATUS_CANCELLED, ResNone), ())"
  "PhotonicSubmitIrb (roiBus a f) x (ISOCH_FREE_RESOURCES h) () =
     ((if f then STATUS_SUCCESS else STATUS_CANCELLED, ResNone), ())"
  "PhotonicSubmitIrb (roiBus a f) x (ISOCH_FREE_BANDWIDTH h) () = ((STATUS_SUCCESS, ResNone), ())"
  "PhotonicSubmitIrb (roiBus a f) x (ISOCH_FREE_CHANNEL n) () = ((STATUS_SUCCESS, ResNone), ())"
  using assms by (simp_all add: PhotonicSubmitIrb_def PhotonicSubmitIrbEx_def roiBus_def reg_bus_def cam_bus_def)

lemma stopBus_tracked:
  "HasPdo x \<Longrightarrow> PhotonicSubmitIrbTracked (roiBus a f) x (ISOCH_FREE_RESOURCES h) () =
    ((if f then STATUS_SUCCESS else STATUS_CANCELLED, True), ())"
  "HasPdo x \<Longrightarrow> PhotonicSubmitIrbTracked (roiBus a f) x (ISOCH_FREE_BANDWIDTH h) () = ((STATUS_SUCCESS, True), ())"
  "HasPdo x \<Longrightarrow> PhotonicSubmitIrbTracked (roiBus a f) x (ISOCH_FREE_CHANNEL n) () = ((STATUS_SUCCESS, True), ())"
  by (simp_all add: PhotonicSubmitIrbTracked_def PhotonicSubmitIrbEx_def roiBus_def reg_bus_def cam_bus_def)

lemma ext0_present [simp]: "\<not> Removed ext0"
  by (simp add: ext0_def)

lemma stopBus_parts [simp]:
  "envAlloc (roiBus a f) b = (True, b)" "envLock (roiBus a f) b = (STATUS_SUCCESS, b)"
  by (simp_all add: roiBus_def reg_bus_def cam_bus_def)

section \<open>The engine before and after the bring-up\<close>

definition bootEngine :: capture where
  "bootEngine = newCapture\<lparr>Frames := (\<lambda>i. if i < 4 then zeroFrame\<lparr>Irp := True\<rparr> else zeroFrame),
     FreeList := [0, 1, 2, 3]\<rparr>"

lemma boot_created: "PhotonicCaptureCreate (roiBus a f) () = ((STATUS_SUCCESS, Some bootEngine), ())"
  by (simp add: bootEngine_def PhotonicCaptureCreate_def PhotonicCapturePoolAllocate_def frameIndices_eq
      Let_def updFrame_def newCapture_def fun_eq_iff zeroFrame_def)

definition liveEngine :: capture where
  "liveEngine = bootEngine\<lparr>BytesPerPacket := 8, PacketsPerFrame := 3, FrameBytes := 24, ChunkBytes := 24,
     ChunkCount := 1, ChannelAllocated := True, BandwidthAllocated := True, ResourceAllocated := True\<rparr>"

lemma stopBus_configured:
  "PhotonicDcamConfigureStream (roiBus a f) (roi_stream, (ext0, ())) = (Inr (8, 3), (roi_stream, (ext0, ())))"
  using ext0_payload
  by (simp add: PhotonicDcamConfigureStream_def PhotonicDcamConfigureFormat7_def roi_stream_def
      roi_mode_def onDrv_def Let_def stopBus_register choosePacket_def capPacket_def
      targetPacket_def drop_bit_eq_div divisorScan_numeral)

lemma live_brought_up:
  "bringUpSession (roiBus a f) (roi_stream, (bootEngine, (ext0, ()))) =
     (STATUS_SUCCESS, (roi_stream, (liveEngine, (ext0, ()))))"
proof -
  have dma: "MaxDmaBufferSize ext0 = 0" "Photonic1394StreamScode ext0 = 2"
    by (simp_all add: ext0_def Photonic1394StreamScode_def)
  show ?thesis
    by (simp add: bringUpSession_def stopBus_configured sessionResources_def thenStep_def sessionChunks_def
        PhotonicCapturePoolSetupChunks_def chunkGeometry_def bufferLimit_def dma Let_def
        PhotonicCaptureResourceAllocateChannel_def setCameraChannel_def submit_def stopBus_submit
        PhotonicDcamSetIsochChannel_def stopBus_register PhotonicCaptureResourceAllocateBandwidth_def
        PhotonicCaptureResourceAllocateHandle_def liveEngine_def FreeChunkMdls_eq newCapture_def
        bootEngine_def zeroFrame_def fun_eq_iff)
qed

section \<open>Runs\<close>

definition openedRoi :: "(unit, read_queue) world" where
  "openedRoi = opened bootEngine (ext0, ()) roi_stream emptyQueue"

lemma runs_append:
  "runs ev fe (es @ fs) w = (case runs ev fe es w of None \<Rightarrow> None | Some w' \<Rightarrow> runs ev fe fs w')"
  by (induction es arbitrary: w) (auto split: option.splits)

lemma repeated: "replicate (numeral k) x = x # replicate (pred_numeral k) x"
  by (simp add: numeral_eq_Suc)

lemmas run_simps = repeated opened_def enterDataPath_def PhotonicStreamEnterDataPath_def spawn_def startControl_def
  streamFront_def receiveRead_def parkRead_def emptyQueue_def plainSrb_def updSrb_def Let_def exec_sections
  control_programs lapClaim_def lapAcquired_def lapEmpty_def lapReject_def lapPublish_def
  PhotonicStreamAcquireBuffer_def PhotonicStreamCompleteRead_def PhotonicStreamDeliverFrame_def
  PhotonicStreamCompletePendingReads_def startOpen_def listenBlocked_def
  returnHead_def withState_def recycleTail_def unlinkPending_def updFrame_def claimDetach_def firstPending_def
  PhotonicCapturePumpPrime_def PhotonicCapturePumpAttachComplete_def PhotonicCapturePumpDetachComplete_def
  PhotonicCapturePumpIsochCallback_def recordFrame_def chunkStatus_def frameOutcome_def
  setEng_def eng_def submit_def stopBus_submit stopBus_register workEnable_def workRetry_def
  PhotonicDcamSetIsochEnable_def PhotonicCaptureTeardownDisableCamera_def stopContext_def
  stopAccepted_def PhotonicCaptureResourceIsochStop_def

lemmas engine_simps = liveEngine_def bootEngine_def newCapture_def zeroFrame_def

text \<open>Start: the bring-up, the pump, the listen that finds nothing pending, the enable.\<close>

definition sessionUp :: "event list" where
  "sessionUp = [EvStart False] @ replicate 13 (EvCtl False)"

definition streaming :: "(unit, read_queue) world" where
  "streaming = (opened (liveEngine\<lparr>Draining := False, IsoEnabled := True, PumpActive := False\<rparr>) (ext0, ())
     (roi_stream\<lparr>StreamState := KSSTATE_RUN\<rparr>) emptyQueue)\<lparr>wReturned := [STATUS_SUCCESS]\<rparr>"

lemma session_opens:
  "runs (roiBus a f) (streamFront 64) [EvStart False, EvCtl False, EvCtl False] openedRoi =
     Some ((opened liveEngine (ext0, ()) roi_stream emptyQueue)\<lparr>wCtl := [Start (StartOpen False)]\<rparr>)"
proof -
  have "Draining bootEngine" "\<not> PhotonicCaptureNeedsReleaseRetry bootEngine" "sMode roi_stream \<noteq> None"
    "\<not> Removed ext0"
    by (simp_all add: bootEngine_def newCapture_def PhotonicCaptureNeedsReleaseRetry_def
        PhotonicCaptureHasQuarantinedFrames_def roi_stream_def ext0_def zeroFrame_def)
  then show ?thesis
    by (simp add: openedRoi_def opened_def startControl_def startCheck_def eng_def live_brought_up setEng_def)
qed

lemma session_streams: "runs (roiBus a f) (streamFront 64) sessionUp openedRoi = Some streaming"
proof -
  have up: "sessionUp = [EvStart False, EvCtl False, EvCtl False] @ replicate 11 (EvCtl False)"
    by (simp add: sessionUp_def numeral_eq_Suc)
  have "runs (roiBus a f) (streamFront 64) (replicate 11 (EvCtl False))
    ((opened liveEngine (ext0, ()) roi_stream emptyQueue)\<lparr>wCtl := [Start (StartOpen False)]\<rparr>) = Some streaming"
    by (simp add: streaming_def run_simps engine_simps roi_stream_def fun_upd_idem_iff)
  then show ?thesis
    unfolding up runs_append session_opens by simp
qed


definition readAttached :: "event list" where
  "readAttached = [EvRead 7] @ replicate 13 (EvThread 0)"

definition attachFails :: "event list" where
  "attachFails = [EvAttachDone 0 STATUS_CANCELLED] @ replicate 3 (EvThread 1)"

definition closes :: "event list" where
  "closes = [EvClose] @ replicate 23 (EvCtl False)"

text \<open>The release and the destruction, for the runs that end a session.\<close>

lemmas teardown_simps = releaseIsoch_def PhotonicCaptureResourceReleaseIsoch_def freeHandle_def freeBandwidth_def
  freeChannel_def PhotonicCaptureResourceFreeOne_def stopBus_tracked PhotonicCaptureHasQuarantinedFrames_def
  PhotonicCaptureDestroy_def FreeChunkMdls_eq PhotonicCapturePoolFree_def frameIndices_eq releaseFrame_def

lemmas session_simps = streaming_def run_simps engine_simps roi_stream_def acts_def teardown_simps

lemma closed_early:
  "\<exists>w. runs (stopBus True) (streamFront 64) (readAttached @ attachFails @ closes) streaming = Some w \<and>
     wLife w = EngineFreed \<and> DrainTest \<in># acts w"
  by (simp add: readAttached_def attachFails_def closes_def session_simps)

text \<open>A frame is attached and armed, then the stream is stopped up to the release.\<close>

definition readArmed :: "event list" where
  "readArmed = [EvArm 0, EvAttachDone 0 STATUS_SUCCESS] @ replicate 5 (EvThread 1)"

definition stops :: "event list" where
  "stops = [EvStop] @ replicate 8 (EvCtl False)"

definition drains :: "event list" where
  "drains = [EvDetachDone 0 STATUS_SUCCESS] @ replicate 9 (EvThread 2) @ replicate 6 (EvCtl False)"

lemma stopped_early:
  "\<exists>w. runs (stopBus True) (streamFront 64) (readAttached @ readArmed @ stops @ drains) streaming = Some w \<and>
     wCtl w = [Release RelIsoch, Stop DrainReads]"
  by (simp add: readAttached_def readArmed_def stops_def drains_def session_simps)

lemma claims_early:
  "\<exists>w. runs (stopBus True) (streamFront 64) (readAttached @ readArmed @ [EvStop] @ replicate 6 (EvCtl False)) streaming = Some w \<and>
     wCtl w = [Quiesce QClaim, Release RelIsoch, Stop DrainReads]"
  by (simp add: readAttached_def readArmed_def session_simps)

lemma armed_early:
  "\<exists>w. runs (stopBus True) (streamFront 64) (readAttached @ readArmed) streaming = Some w \<and> wArmed w = {0}"
  by (simp add: readAttached_def readArmed_def session_simps)
end
