(* ===== verification/Capture_Teardown_Props.thy ===== *)
theory Capture_Teardown_Props
  imports Capture_Session
begin

text \<open>
  Properties of the engine's teardown and accounting, in every interleaving of processors, bus
  completions, frames and control requests; and two runs in which the code breaks its own rules.
\<close>

section \<open>Accounting\<close>

lemma inState_exclusive:
  "inState {PhotonicFrameFree} c d +
     inState {PhotonicFrameAttaching, PhotonicFrameCompletedWhileAttaching, PhotonicFramePending} c d +
     inState {PhotonicFrameDetaching} c d \<le> 1"
  "inState {PhotonicFrameAttaching, PhotonicFrameCompletedWhileAttaching} c d \<le>
     inState {PhotonicFrameAttaching, PhotonicFrameCompletedWhileAttaching, PhotonicFramePending} c d"
  "inState S c d \<noteq> 0 \<Longrightarrow> d < PHOTONIC_CAPTURE_FRAME_COUNT"
  by (cases "State (Frames c d)"; simp add: inState_def)+

lemma distinct_counts: "(\<And>d. count (mset xs) d \<le> 1) \<Longrightarrow> distinct xs"
  by (metis distinct_submset distinct_remdups mset_subset_eqI count_mset_0_iff le_0_eq less_one
      linorder_not_le mset_set_set mset_set.infinite set_remdups count_mset_set(1) finite_set)

lemma placed_lists:
  assumes "framesPlaced c M (mset as) (mset ds)"
  shows "distinct (FreeList c @ PendingList c @ ds)" "mset as \<subseteq># mset (PendingList c)"
    "set (FreeList c @ PendingList c @ ds) \<subseteq> {0..<PHOTONIC_CAPTURE_FRAME_COUNT}"
proof -
  have at: "count (mset (FreeList c)) d \<le> inState {PhotonicFrameFree} c d"
    "count (mset (PendingList c)) d =
       inState {PhotonicFrameAttaching, PhotonicFrameCompletedWhileAttaching, PhotonicFramePending} c d"
    "count (mset as) d \<le> inState {PhotonicFrameAttaching, PhotonicFrameCompletedWhileAttaching} c d"
    "count (mset ds) d \<le> inState {PhotonicFrameDetaching} c d" for d
    using assms unfolding framesPlaced_def by (metis le_add1 order_refl)+
  have all: "count (mset (FreeList c @ PendingList c @ ds)) d \<le> 1" for d
    unfolding mset_append count_union using at [of d] inState_exclusive(1) [of c d] by linarith
  then show "distinct (FreeList c @ PendingList c @ ds)"
    by (rule distinct_counts)
  show "mset as \<subseteq># mset (PendingList c)"
    using at(2,3) inState_exclusive(2) by (intro mset_subset_eqI) (metis order_trans)
  have "d < PHOTONIC_CAPTURE_FRAME_COUNT" if "d \<in> set (FreeList c @ PendingList c @ ds)" for d
  proof -
    have "count (mset (FreeList c)) d \<noteq> 0 \<or> count (mset (PendingList c)) d \<noteq> 0 \<or> count (mset ds) d \<noteq> 0"
      using that by auto
    then show ?thesis
      using at [of d] inState_exclusive(3) by (metis le_0_eq)
  qed
  then show "set (FreeList c @ PendingList c @ ds) \<subseteq> {0..<PHOTONIC_CAPTURE_FRAME_COUNT}"
    by auto
qed

text \<open>
  C18: the books of the engine are exact.  In every interleaving, InFlightIrps is the number of
  attach and detach IRPs between their count-up and their count-down; at most one processor runs
  the pump, and PumpActive says whether one does; and no descriptor is in two places: the free
  list, the pending list and the detaches at the bus driver never share one, and every attach at
  the bus driver belongs to a pending descriptor.
\<close>

theorem engine_accounts:
  assumes "PhotonicCaptureCreate ev b = ((st, Some c), b')"
    and "runs ev (streamFront extended) es (opened c d s q) = Some w"
  shows "InFlightIrps (wEng w) = int (weigh irpTok (acts w) + length (wAttach w) + length (wDetach w)) \<and>
    weigh pumpTok (acts w) = of_bool (PumpActive (wEng w)) \<and>
    distinct (FreeList (wEng w) @ PendingList (wEng w) @ wDetach w) \<and>
    mset (wAttach w) \<subseteq># mset (PendingList (wEng w)) \<and>
    set (FreeList (wEng w) @ PendingList (wEng w) @ wDetach w) \<subseteq> {0..<PHOTONIC_CAPTURE_FRAME_COUNT}"
proof -
  have a: "accounted w"
    by (rule stream.created_runs [OF assms])
  then have placed: "framesPlaced (wEng w) (acts w) (mset (wAttach w)) (mset (wDetach w))"
    by (simp add: accounted_def)
  show ?thesis
    using a placed_lists [OF placed] by (simp add: accounted_def irpsCounted_def pumpElected_def)
qed

lemma streaming_runs:
  "runs (stopBus a) (streamFront 64) es streaming = Some w \<Longrightarrow>
   runs (stopBus a) (streamFront 64) (sessionUp @ es) (opened bootEngine (ext0, ()) roi_stream emptyQueue) = Some w"
  using session_streams [of a] by (simp add: runs_append openedRoi_def)

lemma engine_accounts_witness:
  "\<exists>w. runs (stopBus True) (streamFront 64) (readAttached @ readArmed) streaming = Some w \<and> wArmed w = {0} \<and>
     InFlightIrps (wEng w) = int (weigh irpTok (acts w) + length (wAttach w) + length (wDetach w)) \<and>
     distinct (FreeList (wEng w) @ PendingList (wEng w) @ wDetach w)"
  using armed_early engine_accounts [OF boot_created streaming_runs] by blast

section \<open>The order of the teardown\<close>






section \<open>DMA and completed reads\<close>



section \<open>Progress\<close>

lemma shaped_facts:
  assumes "PhotonicCaptureCreate ev b = ((st, Some c), b')"
    and "runs ev (streamFront extended) es (opened c d s q) = Some w"
  shows "accounted w" "bounded w" "shaped w" "wakes w"
  using stream.created_runs [OF assms] stream.created_shaped [OF assms] by simp_all

text \<open>
  C19: no wait of the control plane loses its wakeup.  In every run, when the control program is
  blocked in a wait other than the bounded wait for the first attach, a processor still has an act
  to perform or an IRP is at the bus driver; a quiesce, a stop or a close never sleeps in a world
  in which nothing else is going on.
\<close>

theorem waits_have_a_waker:
  assumes "PhotonicCaptureCreate ev b = ((st, Some c), b')"
    and "runs ev (streamFront extended) es (opened c d s q) = Some w"
    and "wCtlData w = []" and "wCtl w = a # k"
    and "ctlStep ev (streamFront extended) a False w = None" and "a \<noteq> Listen LWait"
  shows "(\<exists>i w'. step ev (streamFront extended) (EvThread i) w = Some w') \<or> wAttach w \<noteq> [] \<or> wDetach w \<noteq> []"
  using shaped_facts [OF assms(1,2)] blocked_has_waker assms(3-6) by blast

lemma sleeping_early:
  "\<exists>w. runs (stopBus True) (streamFront 64) (readAttached @ readArmed @ stops @ replicate 3 (EvCtl False)) streaming = Some w \<and>
     wCtl w = [Quiesce QSleep, Release RelIsoch, Stop DrainReads] \<and> wCtlData w = [] \<and>
     ctlStep (stopBus True) (streamFront 64) (Quiesce QSleep) False w = None"
  by (simp add: readAttached_def readArmed_def stops_def session_simps)

lemma waits_have_a_waker_witness:
  "\<exists>w. runs (stopBus True) (streamFront 64) (readAttached @ readArmed @ stops @ replicate 3 (EvCtl False)) streaming = Some w \<and>
     wCtl w = [Quiesce QSleep, Release RelIsoch, Stop DrainReads] \<and>
     ((\<exists>i w'. step (stopBus True) (streamFront 64) (EvThread i) w = Some w') \<or> wAttach w \<noteq> [] \<or> wDetach w \<noteq> [])"
proof -
  obtain w where w: "runs (stopBus True) (streamFront 64) (readAttached @ readArmed @ stops @ replicate 3 (EvCtl False)) streaming = Some w"
    "wCtl w = [Quiesce QSleep, Release RelIsoch, Stop DrainReads]" "wCtlData w = []"
    "ctlStep (stopBus True) (streamFront 64) (Quiesce QSleep) False w = None"
    using sleeping_early by blast
  then show ?thesis
    using waits_have_a_waker [OF boot_created streaming_runs [OF w(1)] w(3,2,4)] by simp
qed

text \<open>
  C6: a quiesce can always finish.  From every reachable world in which a quiesce is in progress,
  running the threads and letting the bus driver complete its IRPs, with no timeout expiring, no
  further request and no further frame, leads to the end of the quiesce with the rest of the
  control program still to come.
\<close>

theorem quiesce_finishes:
  assumes "PhotonicCaptureCreate ev b = ((st, Some c), b')"
    and "runs ev (streamFront extended) es (opened c d s q) = Some w"
    and "wCtl w = Quiesce a # k" and "a \<noteq> QBegin"
  shows "\<exists>fs w'. list_all internal fs \<and> runs ev (streamFront extended) fs w = Some w' \<and>
    wCtl w' = k \<and> wCtlData w' = []"
  using stream.quiesce_can_finish shaped_facts [OF assms(1,2)] assms(3,4) by blast

lemma quiesce_finishes_witness:
  "\<exists>w fs w'. runs (stopBus True) (streamFront 64) (readAttached @ readArmed @ [EvStop] @ replicate 6 (EvCtl False)) streaming = Some w \<and>
     wCtl w = [Quiesce QClaim, Release RelIsoch, Stop DrainReads] \<and> list_all internal fs \<and>
     runs (stopBus True) (streamFront 64) fs w = Some w' \<and> wCtl w' = [Release RelIsoch, Stop DrainReads]"
proof -
  obtain w where w: "runs (stopBus True) (streamFront 64) (readAttached @ readArmed @ [EvStop] @ replicate 6 (EvCtl False)) streaming = Some w"
    "wCtl w = [Quiesce QClaim, Release RelIsoch, Stop DrainReads]"
    using claims_early by blast
  then show ?thesis
    using quiesce_finishes [OF boot_created streaming_runs [OF w(1)] w(2)] by blast
qed

section \<open>Two runs against the rules\<close>

text \<open>
  C35: the close can free the engine under a completion routine.  PhotonicCapturePumpIrpDone
  decrements InFlightIrps and only then reads Draining and sets DrainDone, but the quiesce watches
  the count itself: in this run an attach fails, its completion routine is preempted right after
  the decrement, the close quiesces, releases and frees the engine, and the test of Draining is
  still to come.
\<close>

theorem drain_test_after_free:
  "\<exists>es w. runs (stopBus True) (streamFront 64) es (opened bootEngine (ext0, ()) roi_stream emptyQueue) = Some w \<and>
     wLife w = EngineFreed \<and> DrainTest \<in># acts w"
  using closed_early streaming_runs by blast

text \<open>
  Two reads are attached, the context listens, and the stream is stopped on a bus that refuses
  the stop of the context; the second frame completes between the drain and the check of the
  pending list.
\<close>

definition listens :: "event list" where
  "listens = [EvArm 0, EvAttachDone 0 STATUS_SUCCESS] @ replicate 6 (EvThread 1) @ [EvWorker, EvService] @
     replicate 9 (EvCtl False)"

definition secondRead :: "event list" where
  "secondRead = [EvRead 9] @ replicate 13 (EvThread 2) @ [EvArm 1, EvAttachDone 1 STATUS_SUCCESS, EvStop] @
     replicate 10 (EvCtl False)"

definition lateFrame :: "event list" where
  "lateFrame = [EvDetachDone 0 STATUS_SUCCESS] @ replicate 7 (EvThread 4) @ replicate 2 (EvThread 3) @
     [EvCtl False, EvFrame 1 STATUS_SUCCESS] @ replicate 3 (EvCtl False)"

lemma frame_slips_through:
  "\<exists>w. runs (stopBus False) (streamFront 64) (readAttached @ listens @ secondRead @ lateFrame) streaming = Some w \<and>
     wCtl w = [Release RelIsoch, Stop DrainReads] \<and> InFlightIrps (wEng w) = 1 \<and> wRunning w \<and>
     BusDetach 1 \<in># acts w"
  by (simp add: readAttached_def listens_def secondRead_def lateFrame_def session_simps)

text \<open>
  C36: without an accepted stop the teardown's order breaks.  PhotonicCaptureResourceIsochStop
  ignores the status of the stop, so on a bus that refuses it (or when the request cannot be
  allocated) there is a run in which the quiesce ends and the isochronous resources are about to
  be released while the context still runs and a detach is in flight on them.
\<close>

theorem release_during_detach:
  "\<exists>es w. runs (stopBus False) (streamFront 64) es (opened bootEngine (ext0, ()) roi_stream emptyQueue) = Some w \<and>
     wCtl w = [Release RelIsoch, Stop DrainReads] \<and> wRunning w \<and> InFlightIrps (wEng w) = 1 \<and>
     BusDetach 1 \<in># acts w"
  using frame_slips_through streaming_runs by blast

end
