(* ===== verification/Return_Code.thy ===== *)
theory Return_Code
  imports Prelude
begin

text \<open>
  photonic/return_code.h: the return codes shared by the driver and the client library, with their
  numbers.  A model that reports an error names its code; the number is what GET_LAST_ERROR returns.
\<close>

datatype pl_error =
    PL_SUCCESS | PL_ERROR | PL_ERROR_INVALID_PARAM | PL_ERROR_DEVICE_NOT_FOUND | PL_ERROR_WDM_INIT
  | PL_ERROR_INVALID_COUNT | PL_ERROR_OUT_OF_MEMORY | PL_ERROR_NO_PREVIEW | PL_ERROR_NO_STREAM
  | PL_ERROR_FEATURE_NOT_PRESENT | PL_ERROR_NOT_PREPARED | PL_ERROR_HARDWARE | PL_ERROR_UNSUPPORTED_XPORT
  | PL_ERROR_TIMEOUT | PL_ERROR_OVERFLOW | PL_ERROR_OUT_OF_RANGE | PL_ERROR_UNSUPPORTED_FORMAT
  | PL_ERROR_NO_RESOURCES | PL_ERROR_INVALID_STATE | PL_ERROR_BAD_FRAME_SIZE | PL_ERROR_LOCK_FAILED
  | PL_ERROR_ISOCH_ATTACH | PL_ERROR_NOT_STREAMING | PL_ERROR_FORMAT_UNAVAILABLE | PL_ERROR_SIZE_MISMATCH

fun plCode :: "pl_error \<Rightarrow> ULONG" where
  "plCode PL_SUCCESS = 0x00"
| "plCode PL_ERROR = 0x01"
| "plCode PL_ERROR_INVALID_PARAM = 0x02"
| "plCode PL_ERROR_DEVICE_NOT_FOUND = 0x03"
| "plCode PL_ERROR_WDM_INIT = 0x04"
| "plCode PL_ERROR_INVALID_COUNT = 0x07"
| "plCode PL_ERROR_OUT_OF_MEMORY = 0x09"
| "plCode PL_ERROR_NO_PREVIEW = 0x0A"
| "plCode PL_ERROR_NO_STREAM = 0x0B"
| "plCode PL_ERROR_FEATURE_NOT_PRESENT = 0x0C"
| "plCode PL_ERROR_NOT_PREPARED = 0x0D"
| "plCode PL_ERROR_HARDWARE = 0x0E"
| "plCode PL_ERROR_UNSUPPORTED_XPORT = 0x0F"
| "plCode PL_ERROR_TIMEOUT = 0x12"
| "plCode PL_ERROR_OVERFLOW = 0x13"
| "plCode PL_ERROR_OUT_OF_RANGE = 0x14"
| "plCode PL_ERROR_UNSUPPORTED_FORMAT = 0x15"
| "plCode PL_ERROR_NO_RESOURCES = 0x16"
| "plCode PL_ERROR_INVALID_STATE = 0x17"
| "plCode PL_ERROR_BAD_FRAME_SIZE = 0x19"
| "plCode PL_ERROR_LOCK_FAILED = 0x1A"
| "plCode PL_ERROR_ISOCH_ATTACH = 0x1B"
| "plCode PL_ERROR_NOT_STREAMING = 0x1F"
| "plCode PL_ERROR_FORMAT_UNAVAILABLE = 0x20"
| "plCode PL_ERROR_SIZE_MISMATCH = 0x24"

lemma plCode_inject [simp]: "plCode a = plCode b \<longleftrightarrow> a = b"
  by (cases a; cases b) simp_all

text \<open>Ordered by their numbers, as the header lists them.\<close>

instantiation pl_error :: linorder
begin

definition less_eq_pl_error :: "pl_error \<Rightarrow> pl_error \<Rightarrow> bool" where
  "less_eq_pl_error a b \<longleftrightarrow> plCode a \<le> plCode b"

definition less_pl_error :: "pl_error \<Rightarrow> pl_error \<Rightarrow> bool" where
  "less_pl_error a b \<longleftrightarrow> plCode a < plCode b"

instance
proof
  fix a b c :: pl_error
  show "a < b \<longleftrightarrow> a \<le> b \<and> \<not> b \<le> a"
    by (simp add: less_eq_pl_error_def less_pl_error_def order.strict_iff_not)
  show "a \<le> a" "a \<le> b \<or> b \<le> a"
    by (auto simp: less_eq_pl_error_def)
  show "a \<le> b \<Longrightarrow> b \<le> c \<Longrightarrow> a \<le> c"
    by (auto simp: less_eq_pl_error_def)
  show "a \<le> b \<Longrightarrow> b \<le> a \<Longrightarrow> a = b"
    by (simp add: less_eq_pl_error_def flip: plCode_inject)
qed

end

lemma plCode_zero [simp]: "plCode a = 0 \<longleftrightarrow> a = PL_SUCCESS"
  using plCode_inject [of a PL_SUCCESS] by simp

end
