(* ===== verification/Frame_Ring.thy ===== *)
theory Frame_Ring
  imports Capture_Drain Return_Code
begin

text \<open>
  photonic/ioctl/frames.c: the mapped DMA ring and the completion events of the IOCTL capture slot.
  The slot PHOTONIC_IOCTL_CAPTURE without its stream is the record \<open>ring\<close>; every lock section of the
  acquire and delivery callbacks is one function.  The ring is the engine's second front-end: its
  buffers are named by their index, and the last part shows that its callbacks keep the contract of
  \<open>Capture_Front\<close>.
\<close>

section \<open>The slot\<close>

abbreviation (input) PHOTONIC_IOCTL_MAX_VIDEO_FRAMES :: nat where "PHOTONIC_IOCTL_MAX_VIDEO_FRAMES \<equiv> 256"

datatype slot_state = PhotonicIoctlFrameQueued | PhotonicIoctlFrameInFlight | PhotonicIoctlFrameDelivered

record ring_slot =
  slotMdl :: "mdl option"
  slotState :: slot_state

text \<open>An event object is named by a number; the registration holds one reference to it.\<close>

record ioctl_event =
  evObject :: nat
  evHandle :: ULONG
  evType :: ULONG
  evCountdown :: ULONG

text \<open>
  \<open>Slots\<close> is the array Frames, meaningful below PHOTONIC_IOCTL_MAX_VIDEO_FRAMES; \<open>Signalled\<close> and
  \<open>Dereferenced\<close> record the events set and the object references dropped, in order.
\<close>

record ring =
  Slots :: "nat \<Rightarrow> ring_slot"
  MappedFrameCount :: ULONG
  NextSubmitIndex :: ULONG
  CurrentFrameIndex :: ULONG
  TotalFrameCount :: ULONG
  PumpRingOnStart :: bool
  EventList :: "ioctl_event list"
  Signalled :: "nat list"
  Dereferenced :: "nat list"

definition updSlot :: "nat \<Rightarrow> (ring_slot \<Rightarrow> ring_slot) \<Rightarrow> ring \<Rightarrow> ring" where
  "updSlot i f r = r\<lparr>Slots := (Slots r)(i := f (Slots r i))\<rparr>"

section \<open>The buffer source\<close>

definition PhotonicIoctlFramesAcquire :: "ring \<Rightarrow> (nat \<times> mdl option) option \<times> ring" where
  "PhotonicIoctlFramesAcquire r =
     (let index = NextSubmitIndex r; k = unat index in
      if \<not> PumpRingOnStart r then (None, r)
      else if MappedFrameCount r \<noteq> 0 \<and> slotState (Slots r k) = PhotonicIoctlFrameQueued
      then (Some (k, slotMdl (Slots r k)),
            (updSlot k (\<lambda>s. s\<lparr>slotState := PhotonicIoctlFrameInFlight\<rparr>) r)
              \<lparr>NextSubmitIndex := (index + 1) mod MappedFrameCount r\<rparr>)
      else (None, r))"

text \<open>The loop of PhotonicIoctlFramesRequeue; the pump it ends with is an act of the engine.\<close>

definition PhotonicIoctlFramesRequeue :: "ring \<Rightarrow> ring" where
  "PhotonicIoctlFramesRequeue r = r\<lparr>Slots := (\<lambda>i.
     if i < unat (MappedFrameCount r) \<and> slotState (Slots r i) = PhotonicIoctlFrameDelivered
     then (Slots r i)\<lparr>slotState := PhotonicIoctlFrameQueued\<rparr> else Slots r i)\<rparr>"

section \<open>Events\<close>

definition countedDown :: "ioctl_event \<Rightarrow> ioctl_event" where
  "countedDown e = e\<lparr>evCountdown := evCountdown e - 1\<rparr>"

definition PhotonicIoctlFramesSignalEvents :: "ring \<Rightarrow> ring" where
  "PhotonicIoctlFramesSignalEvents r =
     (let counted = map countedDown (EventList r);
          fired = map evObject (filter (\<lambda>e. evCountdown e = 0) counted)
      in r\<lparr>EventList := filter (\<lambda>e. evCountdown e \<noteq> 0) counted,
           Signalled := Signalled r @ fired, Dereferenced := Dereferenced r @ fired\<rparr>)"

definition PhotonicIoctlFramesFlushEvents :: "ring \<Rightarrow> ring" where
  "PhotonicIoctlFramesFlushEvents r =
     r\<lparr>EventList := [], Dereferenced := Dereferenced r @ map evObject (EventList r)\<rparr>"

section \<open>Delivery\<close>

definition PhotonicIoctlFramesDeliver :: "stream \<Rightarrow> nat \<Rightarrow> ULONG \<Rightarrow> NTSTATUS \<Rightarrow> ring \<Rightarrow> ring" where
  "PhotonicIoctlFramesDeliver s index BytesUsed status r =
     (if index \<ge> PHOTONIC_IOCTL_MAX_VIDEO_FRAMES then r
      else let callerOwned = NT_SUCCESS status \<and> OneShot s;
               r1 = updSlot index (\<lambda>f. f\<lparr>slotState :=
                      (if callerOwned then PhotonicIoctlFrameDelivered else PhotonicIoctlFrameQueued)\<rparr>) r;
               r2 = (if NT_SUCCESS status
                     then r1\<lparr>CurrentFrameIndex := of_nat index, TotalFrameCount := TotalFrameCount r1 + 1\<rparr>
                     else r1)
           in if NT_SUCCESS status then PhotonicIoctlFramesSignalEvents r2 else r2)"

text \<open>The video start commits the ring; the imager start leaves it out of play.\<close>

definition startRing :: "bool \<Rightarrow> ring \<Rightarrow> act list \<times> ring" where
  "startRing pumpRing r =
     (let r1 = r\<lparr>PumpRingOnStart := pumpRing\<rparr> in
      if pumpRing then ([PumpElect], PhotonicIoctlFramesRequeue r1) else ([], r1))"

fun ringStep :: "front_step \<Rightarrow> nat \<Rightarrow> extension \<Rightarrow> stream \<Rightarrow> ring \<Rightarrow> act list \<times> ring" where
  "ringStep RequeueRing k x s r = ([PumpElect], PhotonicIoctlFramesRequeue r)"
| "ringStep StartRing k x s r = startRing (k \<noteq> 0) r"
| "ringStep ReceiveRead k x s r = ([], r)"
| "ringStep ParkRead k x s r = ([], r)"
| "ringStep CancelRead k x s r = ([], r)"

definition ringFront :: "ring front" where
  "ringFront = \<lparr>feAcquire = (\<lambda>s. PhotonicIoctlFramesAcquire), feDeliver = PhotonicIoctlFramesDeliver,
     feDrain = (\<lambda>s r. None), feRing = (\<lambda>r. Some (PumpRingOnStart r)), feStep = ringStep\<rparr>"

section \<open>Unmapping\<close>

definition unmapSlot :: "capture option \<Rightarrow> bool \<Rightarrow> nat \<Rightarrow> ring \<Rightarrow> ring" where
  "unmapSlot engine Force i r =
     (if slotMdl (Slots r i) \<noteq> None \<and>
         (case engine of None \<Rightarrow> False | Some c \<Rightarrow> PhotonicCaptureCookieQuarantined c i) \<and> \<not> Force
      then r
      else updSlot i (\<lambda>s. s\<lparr>slotMdl := None, slotState := PhotonicIoctlFrameQueued\<rparr>) r)"

definition PhotonicIoctlFramesUnmap :: "capture option \<Rightarrow> bool \<Rightarrow> ring \<Rightarrow> ring" where
  "PhotonicIoctlFramesUnmap engine Force r =
     (fold (unmapSlot engine Force) [0..<PHOTONIC_IOCTL_MAX_VIDEO_FRAMES] r)
       \<lparr>MappedFrameCount := 0, NextSubmitIndex := 0, CurrentFrameIndex := - 1, TotalFrameCount := 0\<rparr>"

section \<open>Mapping\<close>

text \<open>
  One iteration of the mapping loop: allocate an MDL for the frame, lock its pages.  The parameters
  are the kernel's IoAllocateMdl and MmProbeAndLockPages, the second with the code of the exception
  it raised or STATUS_SUCCESS; the loop stops at the first failure and says how many frames it mapped.
\<close>

type_synonym mdl_source = "ULONG64 \<Rightarrow> ULONG \<Rightarrow> mdl option"
type_synonym page_lock = "mdl \<Rightarrow> NTSTATUS"

definition frameVa :: "ULONG \<Rightarrow> nat \<Rightarrow> ULONG \<Rightarrow> ULONG64" where
  "frameVa base i sz = ucast base + of_nat i * ucast sz"

fun mapLoop :: "mdl_source \<Rightarrow> page_lock \<Rightarrow> ULONG \<Rightarrow> ULONG \<Rightarrow> nat list \<Rightarrow> ring \<Rightarrow>
    (NTSTATUS \<times> pl_error \<times> nat) \<times> ring" where
  "mapLoop alloc lock base sz [] r = ((STATUS_SUCCESS, PL_SUCCESS, 0), r)"
| "mapLoop alloc lock base sz (i # is) r =
     (case alloc (frameVa base i sz) sz of
        None \<Rightarrow> ((STATUS_INSUFFICIENT_RESOURCES, PL_ERROR_OUT_OF_MEMORY, i), r)
      | Some m \<Rightarrow>
          if lock m \<noteq> STATUS_SUCCESS then ((lock m, PL_ERROR_LOCK_FAILED, i), r)
          else mapLoop alloc lock base sz is
                 (updSlot i (\<lambda>s. s\<lparr>slotMdl := Some m, slotState := PhotonicIoctlFrameQueued\<rparr>) r))"

text \<open>
  The part of PhotonicIoctlMapVideoFrame that deals with the ring, from the check for mapped frames to
  the publication of the new ring: the status, the error reported and the ring.  The checks before it
  and the pump after it are in \<open>Ioctl_Handlers\<close>.
\<close>

definition mapRing ::
  "mdl_source \<Rightarrow> page_lock \<Rightarrow> capture option \<Rightarrow> ULONG \<Rightarrow> ULONG \<Rightarrow> ULONG \<Rightarrow> ULONG \<Rightarrow> ring \<Rightarrow>
    (NTSTATUS \<times> pl_error) \<times> ring" where
  "mapRing alloc lock engine imageSize FrameCount FrameSize BaseVA r =
     (if MappedFrameCount r \<noteq> 0 then ((STATUS_INVALID_DEVICE_STATE, PL_ERROR_INVALID_STATE), r)
      else if (case engine of None \<Rightarrow> False | Some c \<Rightarrow> PhotonicCaptureHasQuarantinedFrames c)
      then ((STATUS_DEVICE_NOT_READY, PL_ERROR_INVALID_STATE), r)
      else let r1 = PhotonicIoctlFramesUnmap engine False r in
        if FrameCount = 0 \<or> unat FrameCount > PHOTONIC_IOCTL_MAX_VIDEO_FRAMES
        then ((STATUS_INVALID_PARAMETER, PL_ERROR_INVALID_COUNT), r1)
        else if FrameSize \<noteq> imageSize then ((STATUS_INVALID_PARAMETER, PL_ERROR_BAD_FRAME_SIZE), r1)
        else if (ucast BaseVA :: ULONG64) + ucast FrameCount * ucast FrameSize > 0x100000000
        then ((STATUS_INVALID_PARAMETER, PL_ERROR_INVALID_COUNT), r1)
        else case mapLoop alloc lock BaseVA FrameSize [0..<unat FrameCount] r1 of
            ((status, err, mapped), r2) \<Rightarrow>
              if \<not> NT_SUCCESS status
              then ((status, err), PhotonicIoctlFramesUnmap engine False (r2\<lparr>MappedFrameCount := of_nat mapped\<rparr>))
              else ((STATUS_SUCCESS, err),
                    r2\<lparr>NextSubmitIndex := 0, CurrentFrameIndex := - 1, TotalFrameCount := 0,
                       MappedFrameCount := FrameCount\<rparr>))"

section \<open>Registering events\<close>

text \<open>
  The kernel's ExAllocatePoolZero result and ObReferenceObjectByHandle are parameters: whether the
  allocation succeeded, and the object the handle names or the status of the failure.
\<close>

definition registerEvent ::
  "bool \<Rightarrow> (ULONG \<Rightarrow> NTSTATUS + nat) \<Rightarrow> ULONG \<Rightarrow> ULONG \<Rightarrow> ring \<Rightarrow> (NTSTATUS \<times> pl_error) \<times> ring" where
  "registerEvent allocated reference Handle Type r =
     (if MappedFrameCount r = 0 then ((STATUS_UNSUCCESSFUL, PL_ERROR_NOT_STREAMING), r)
      else if Type \<noteq> 0 \<and> Type \<noteq> 1 then ((STATUS_INVALID_PARAMETER, PL_ERROR_FORMAT_UNAVAILABLE), r)
      else if \<not> allocated then ((STATUS_INSUFFICIENT_RESOURCES, PL_ERROR_OUT_OF_MEMORY), r)
      else case reference Handle of
          Inl status \<Rightarrow> ((status, PL_ERROR_INVALID_COUNT), r)
        | Inr ob \<Rightarrow>
            ((STATUS_SUCCESS, PL_SUCCESS),
             r\<lparr>EventList := EventList r @ [\<lparr>evObject = ob, evHandle = Handle, evType = Type,
                  evCountdown = (if Type = 0 then 1 else MappedFrameCount r)\<rparr>]\<rparr>))"

definition eventMatches :: "ULONG \<Rightarrow> ULONG \<Rightarrow> ioctl_event \<Rightarrow> bool" where
  "eventMatches Handle Type e \<longleftrightarrow> evHandle e = Handle \<and> evType e = Type"

definition unregisterEvent :: "ULONG \<Rightarrow> ULONG \<Rightarrow> ring \<Rightarrow> NTSTATUS \<times> ring" where
  "unregisterEvent Handle Type r =
     (case find (eventMatches Handle Type) (EventList r) of
        None \<Rightarrow> (STATUS_NOT_FOUND, r)
      | Some e \<Rightarrow> (STATUS_SUCCESS,
          r\<lparr>EventList := remove1 e (EventList r), Dereferenced := Dereferenced r @ [evObject e]\<rparr>))"

definition transferInfo :: "ring \<Rightarrow> ULONG \<times> ULONG" where
  "transferInfo r = (CurrentFrameIndex r, TotalFrameCount r)"

section \<open>The contract of the engine\<close>

text \<open>The buffers with the ring are the slots not in flight.\<close>

definition ringReads :: "ring \<Rightarrow> nat multiset" where
  "ringReads r = mset_set {i. i < PHOTONIC_IOCTL_MAX_VIDEO_FRAMES \<and> slotState (Slots r i) \<noteq> PhotonicIoctlFrameInFlight}"

definition allSlots :: "nat multiset" where
  "allSlots = mset_set {0..<PHOTONIC_IOCTL_MAX_VIDEO_FRAMES}"

definition ringFits :: "nat multiset \<Rightarrow> bool" where
  "ringFits M \<longleftrightarrow> M \<subseteq># allSlots"

definition ringOk :: "ring \<Rightarrow> bool" where
  "ringOk r \<longleftrightarrow> unat (MappedFrameCount r) \<le> PHOTONIC_IOCTL_MAX_VIDEO_FRAMES \<and>
     (MappedFrameCount r \<noteq> 0 \<longrightarrow> NextSubmitIndex r < MappedFrameCount r) \<and>
     (\<forall>i < unat (MappedFrameCount r). slotMdl (Slots r i) \<noteq> None) \<and>
     (\<forall>i. slotState (Slots r i) = PhotonicIoctlFrameInFlight \<longrightarrow> slotMdl (Slots r i) \<noteq> None) \<and>
     (\<forall>e \<in> set (EventList r). evCountdown e \<noteq> 0)"

lemma updSlot_simps [simp]:
  "Slots (updSlot i f r) x = (if x = i then f (Slots r i) else Slots r x)"
  "MappedFrameCount (updSlot i f r) = MappedFrameCount r" "NextSubmitIndex (updSlot i f r) = NextSubmitIndex r"
  "EventList (updSlot i f r) = EventList r" "PumpRingOnStart (updSlot i f r) = PumpRingOnStart r"
  "TotalFrameCount (updSlot i f r) = TotalFrameCount r" "CurrentFrameIndex (updSlot i f r) = CurrentFrameIndex r"
  "Signalled (updSlot i f r) = Signalled r" "Dereferenced (updSlot i f r) = Dereferenced r"
  by (simp_all add: updSlot_def)

lemma SignalEvents_simps [simp]:
  "Slots (PhotonicIoctlFramesSignalEvents r) = Slots r"
  "MappedFrameCount (PhotonicIoctlFramesSignalEvents r) = MappedFrameCount r"
  "NextSubmitIndex (PhotonicIoctlFramesSignalEvents r) = NextSubmitIndex r"
  "TotalFrameCount (PhotonicIoctlFramesSignalEvents r) = TotalFrameCount r"
  "CurrentFrameIndex (PhotonicIoctlFramesSignalEvents r) = CurrentFrameIndex r"
  "PumpRingOnStart (PhotonicIoctlFramesSignalEvents r) = PumpRingOnStart r"
  by (simp_all add: PhotonicIoctlFramesSignalEvents_def Let_def)

lemma ringReads_cong:
  "(\<And>i. slotState (Slots r' i) = PhotonicIoctlFrameInFlight \<longleftrightarrow> slotState (Slots r i) = PhotonicIoctlFrameInFlight) \<Longrightarrow>
   ringReads r' = ringReads r"
  by (simp add: ringReads_def)

text \<open>A slot leaves the ring when it goes in flight, and comes back when it is settled.\<close>

lemma ringReads_leave:
  assumes "i < PHOTONIC_IOCTL_MAX_VIDEO_FRAMES" and "slotState (Slots r i) \<noteq> PhotonicIoctlFrameInFlight"
    and "slotState (Slots r' i) = PhotonicIoctlFrameInFlight" and "\<And>x. x \<noteq> i \<Longrightarrow> Slots r' x = Slots r x"
  shows "ringReads r = ringReads r' + {#i#}"
proof -
  let ?F = "\<lambda>r. {x. x < PHOTONIC_IOCTL_MAX_VIDEO_FRAMES \<and> slotState (Slots r x) \<noteq> PhotonicIoctlFrameInFlight}"
  have eq: "?F r = insert i (?F r')"
  proof (rule set_eqI)
    fix x
    show "x \<in> ?F r \<longleftrightarrow> x \<in> insert i (?F r')"
      using assms by (cases "x = i") auto
  qed
  show ?thesis
    unfolding ringReads_def eq using assms(3) by (subst mset_set.insert) simp_all
qed

lemma count_allSlots: "count allSlots i = of_bool (i < PHOTONIC_IOCTL_MAX_VIDEO_FRAMES)"
  by (simp add: allSlots_def count_mset_set')

lemma ringReads_back:
  assumes "ringFits (add_mset i (ringReads r))"
  shows "i < PHOTONIC_IOCTL_MAX_VIDEO_FRAMES \<and> slotState (Slots r i) = PhotonicIoctlFrameInFlight"
proof -
  have "count (add_mset i (ringReads r)) i \<le> count allSlots i"
    using assms unfolding ringFits_def by (rule mset_subset_eq_count)
  then have "i < PHOTONIC_IOCTL_MAX_VIDEO_FRAMES \<and> count (ringReads r) i = 0"
    by (auto simp: count_allSlots of_bool_def split: if_splits)
  then show ?thesis
    by (auto simp: ringReads_def count_mset_set' split: if_splits)
qed

lemma next_index:
  assumes "MappedFrameCount r \<noteq> 0"
  shows "(NextSubmitIndex r + 1) mod MappedFrameCount r < MappedFrameCount r"
  using assms by (simp add: word_mod_less_divisor word_gt_0)

lemma acquire_cases:
  assumes "PhotonicIoctlFramesAcquire r = (b, r')"
  shows "b = None \<and> r' = r \<or>
    (\<exists>k. k = unat (NextSubmitIndex r) \<and> b = Some (k, slotMdl (Slots r k)) \<and> MappedFrameCount r \<noteq> 0 \<and>
       slotState (Slots r k) = PhotonicIoctlFrameQueued \<and>
       r' = (updSlot k (\<lambda>s. s\<lparr>slotState := PhotonicIoctlFrameInFlight\<rparr>) r)
              \<lparr>NextSubmitIndex := (NextSubmitIndex r + 1) mod MappedFrameCount r\<rparr>)"
  using assms by (auto simp: PhotonicIoctlFramesAcquire_def Let_def split: if_splits)

lemma acquire_slot:
  assumes "ringOk r" and "PhotonicIoctlFramesAcquire r = (Some (k, m), r')"
  shows "ringOk r' \<and> ringReads r = ringReads r' + {#k#}"
proof -
  have k: "k = unat (NextSubmitIndex r)" "MappedFrameCount r \<noteq> 0" "slotState (Slots r k) = PhotonicIoctlFrameQueued"
    and r': "r' = (updSlot k (\<lambda>s. s\<lparr>slotState := PhotonicIoctlFrameInFlight\<rparr>) r)
              \<lparr>NextSubmitIndex := (NextSubmitIndex r + 1) mod MappedFrameCount r\<rparr>"
    using acquire_cases [OF assms(2)] by auto
  have mapped: "k < unat (MappedFrameCount r)"
    using assms(1) k by (simp add: ringOk_def word_less_nat_alt)
  then have lim: "k < PHOTONIC_IOCTL_MAX_VIDEO_FRAMES"
    using assms(1) by (simp add: ringOk_def)
  have "ringOk r'"
    using assms(1) mapped next_index [OF k(2)] by (auto simp: ringOk_def r')
  moreover have "ringReads r = ringReads r' + {#k#}"
    by (rule ringReads_leave [OF lim]) (use k in \<open>simp_all add: r'\<close>)
  ultimately show ?thesis
    by blast
qed

lemma signal_counts:
  assumes "\<forall>e \<in> set (EventList r). evCountdown e \<noteq> 0"
  shows "\<forall>e \<in> set (EventList (PhotonicIoctlFramesSignalEvents r)). evCountdown e \<noteq> 0"
  by (simp add: PhotonicIoctlFramesSignalEvents_def Let_def)

lemma deliver_slot:
  assumes "ringOk r" and "ringFits (add_mset k (ringReads r))"
  shows "ringOk (PhotonicIoctlFramesDeliver s k b st r)"
    and "ringReads (PhotonicIoctlFramesDeliver s k b st r) = ringReads r + {#k#}"
proof -
  have k: "k < PHOTONIC_IOCTL_MAX_VIDEO_FRAMES" "slotState (Slots r k) = PhotonicIoctlFrameInFlight"
    using ringReads_back [OF assms(2)] by simp_all
  show "ringOk (PhotonicIoctlFramesDeliver s k b st r)"
    using assms(1) k signal_counts
    by (auto simp: ringOk_def PhotonicIoctlFramesDeliver_def Let_def PhotonicIoctlFramesSignalEvents_def split: if_splits)
  show "ringReads (PhotonicIoctlFramesDeliver s k b st r) = ringReads r + {#k#}"
    by (rule ringReads_leave [OF k(1)]) (use k in \<open>auto simp: PhotonicIoctlFramesDeliver_def Let_def\<close>)
qed

lemma requeue_slots: "ringReads (PhotonicIoctlFramesRequeue r) = ringReads r"
  by (rule ringReads_cong) (simp add: PhotonicIoctlFramesRequeue_def)

lemma requeue_ok: "ringOk r \<Longrightarrow> ringOk (PhotonicIoctlFramesRequeue r)"
  by (auto simp: ringOk_def PhotonicIoctlFramesRequeue_def)

lemma ringStep_keeps:
  assumes "ringStep p k x s r = (as, r')"
  shows "ringOk r \<Longrightarrow> ringOk r'" "ringReads r' = ringReads r" "as = [] \<or> as = [PumpElect]"
proof -
  have cong: "ringReads (r\<lparr>PumpRingOnStart := b\<rparr>) = ringReads r" "ringOk (r\<lparr>PumpRingOnStart := b\<rparr>) = ringOk r" for b
    by (simp_all add: ringReads_def ringOk_def)
  show "ringOk r \<Longrightarrow> ringOk r'" "ringReads r' = ringReads r" "as = [] \<or> as = [PumpElect]"
    using assms by (cases p; auto simp: startRing_def Let_def requeue_slots requeue_ok cong split: if_splits)+
qed

abbreviation ringHeld :: "front_step \<Rightarrow> nat \<Rightarrow> nat multiset" where "ringHeld \<equiv> \<lambda>_ _. {#}"

interpretation ring: front_end ringFront ringReads ringOk ringHeld ringFits
proof
  fix s p k m x b st as and f f' :: ring and M N :: "nat multiset"
  show "ringOk f \<Longrightarrow> feAcquire ringFront s f = (Some (k, m), f') \<Longrightarrow> ringOk f' \<and> ringReads f = ringReads f' + {#k#}"
    using acquire_slot by (simp add: ringFront_def)
  show "ringOk f \<Longrightarrow> feAcquire ringFront s f = (None, f') \<Longrightarrow> ringOk f' \<and> ringReads f = ringReads f'"
    using acquire_cases [of f None f'] by (auto simp: ringFront_def)
  show "ringFits M \<Longrightarrow> N \<subseteq># M \<Longrightarrow> ringFits N"
    unfolding ringFits_def by (rule subset_mset.order_trans)
  show "ringOk f \<Longrightarrow> ringFits (add_mset k (ringReads f)) \<Longrightarrow> ringOk (feDeliver ringFront s k b st f) \<and>
      ringReads (feDeliver ringFront s k b st f) = ringReads f + {#k#}"
    using deliver_slot [of f k s b st] by (simp add: ringFront_def)
  show "ringOk f \<Longrightarrow> feDrain ringFront s f = Some f' \<Longrightarrow> ringOk f' \<and> ringReads f' = ringReads f"
    by (simp add: ringFront_def)
  show "feStep ringFront p k x s f = (as, f') \<Longrightarrow> list_all frontAct as"
    using ringStep_keeps(3) [of p k x s f as f'] by (auto simp: ringFront_def)
  show "ringOk f \<Longrightarrow> feStep ringFront p k x s f = (as, f') \<Longrightarrow>
      ringOk f' \<and> ringReads f' + weigh (readTok ringHeld) (mset as) = ringReads f + {#}"
    using ringStep_keeps [of p k x s f as f'] by (auto simp: ringFront_def)
qed simp_all

interpretation ring: draining_front ringFront ringReads ringOk ringHeld ringFits
  by unfold_locales (auto simp: ringFront_def startRing_def Let_def split: if_splits elim!: ringStep.elims)

section \<open>Unmapped slots\<close>

text \<open>What an unmap does to one slot.\<close>

definition heldSlot :: "capture option \<Rightarrow> nat \<Rightarrow> ring \<Rightarrow> bool" where
  "heldSlot engine i r \<longleftrightarrow> slotMdl (Slots r i) \<noteq> None \<and>
     (case engine of None \<Rightarrow> False | Some c \<Rightarrow> PhotonicCaptureCookieQuarantined c i)"

lemma unmapSlot_simps [simp]:
  "Slots (unmapSlot e F i r) x =
     (if x = i \<and> \<not> (heldSlot e i r \<and> \<not> F) then \<lparr>slotMdl = None, slotState = PhotonicIoctlFrameQueued\<rparr> else Slots r x)"
  "EventList (unmapSlot e F i r) = EventList r" "PumpRingOnStart (unmapSlot e F i r) = PumpRingOnStart r"
  by (auto simp: unmapSlot_def heldSlot_def)

lemma unmap_fold:
  "Slots (fold (unmapSlot e F) [0..<n] r) x =
     (if x < n \<and> \<not> (heldSlot e x r \<and> \<not> F) then \<lparr>slotMdl = None, slotState = PhotonicIoctlFrameQueued\<rparr> else Slots r x)"
proof (induction n arbitrary: x)
  case (Suc n)
  have "heldSlot e n (fold (unmapSlot e F) [0..<n] r) = heldSlot e n r"
    by (simp add: heldSlot_def Suc.IH)
  then show ?case
    using Suc.IH [of x] by (cases F; cases "x = n"; cases "x < n") simp_all
qed simp

lemma unmapped_slots:
  "Slots (PhotonicIoctlFramesUnmap e F r) x =
     (if x < PHOTONIC_IOCTL_MAX_VIDEO_FRAMES \<and> \<not> (heldSlot e x r \<and> \<not> F)
      then \<lparr>slotMdl = None, slotState = PhotonicIoctlFrameQueued\<rparr> else Slots r x)"
  using unmap_fold [of e F PHOTONIC_IOCTL_MAX_VIDEO_FRAMES r x] by (simp add: PhotonicIoctlFramesUnmap_def)

end
