(* ===== verification/Frame_Ring_Calls.thy ===== *)
theory Frame_Ring_Calls
  imports Frame_Ring
begin

text \<open>
  Properties of the ring's own operations: the transfer information and the completion events
  after any sequence of deliveries, the round trip of an event registration, the order in which
  slots are claimed, and what MAP_VIDEO_FRAME leaves locked when it succeeds and when it fails.
\<close>

section \<open>Deliveries\<close>

type_synonym delivery = "stream \<times> nat \<times> ULONG \<times> NTSTATUS"

definition deliverOne :: "delivery \<Rightarrow> ring \<Rightarrow> ring" where
  "deliverOne d r = (case d of (s, k, b, st) \<Rightarrow> PhotonicIoctlFramesDeliver s k b st r)"

definition deliverAll :: "delivery list \<Rightarrow> ring \<Rightarrow> ring" where
  "deliverAll ds r = fold deliverOne ds r"

text \<open>The frames delivered, as opposed to dropped.\<close>

definition isFrame :: "delivery \<Rightarrow> bool" where
  "isFrame d \<longleftrightarrow> NT_SUCCESS (snd (snd (snd d))) \<and> fst (snd d) < PHOTONIC_IOCTL_MAX_VIDEO_FRAMES"

definition afterFrames :: "nat \<Rightarrow> ioctl_event list \<Rightarrow> ioctl_event list" where
  "afterFrames n es = map (\<lambda>e. e\<lparr>evCountdown := evCountdown e - of_nat n\<rparr>) (filter (\<lambda>e. n < unat (evCountdown e)) es)"

definition dueEvents :: "nat \<Rightarrow> ioctl_event list \<Rightarrow> nat multiset" where
  "dueEvents n es = mset (map evObject (filter (\<lambda>e. unat (evCountdown e) \<le> n) es))"

lemma countdown_zero:
  assumes "n < unat (c :: ULONG)"
  shows "c - of_nat n - 1 = 0 \<longleftrightarrow> unat c = Suc n"
proof -
  have "Suc n < 2 ^ LENGTH(32)"
    using assms unat_bound [of c] by simp
  then have "unat (of_nat (Suc n) :: ULONG) = Suc n"
    by (subst unat_of_nat) simp
  then have "c = of_nat (Suc n) \<longleftrightarrow> unat c = Suc n"
    by (simp add: word_unat_eq_iff)
  moreover have "c - of_nat n - 1 = 0 \<longleftrightarrow> c = of_nat (Suc n)"
    by (auto simp: algebra_simps)
  ultimately show ?thesis
    by blast
qed

lemma signal_step:
  assumes "EventList r = afterFrames n es"
  shows "EventList (PhotonicIoctlFramesSignalEvents r) = afterFrames (Suc n) es"
    and "mset (Signalled r) = S + dueEvents n es \<Longrightarrow>
      mset (Signalled (PhotonicIoctlFramesSignalEvents r)) = S + dueEvents (Suc n) es"
proof -
  have el: "filter (\<lambda>e. evCountdown e \<noteq> 0) (map countedDown (afterFrames n xs)) = afterFrames (Suc n) xs" for xs
  proof (induction xs)
    case (Cons e xs)
    then show ?case
      using countdown_zero [of n "evCountdown e"]
      by (auto simp: afterFrames_def countedDown_def diff_diff_add add.commute not_less less_eq_Suc_le)
  qed (simp add: afterFrames_def)
  have due: "dueEvents n xs + mset (map evObject (filter (\<lambda>e. evCountdown e = 0) (map countedDown (afterFrames n xs)))) =
      dueEvents (Suc n) xs" for xs
  proof (induction xs)
    case (Cons e xs)
    then show ?case
      using countdown_zero [of n "evCountdown e"]
      by (auto simp: afterFrames_def dueEvents_def countedDown_def not_less le_Suc_eq)
  qed (simp add: afterFrames_def dueEvents_def)
  show "EventList (PhotonicIoctlFramesSignalEvents r) = afterFrames (Suc n) es"
    by (simp add: PhotonicIoctlFramesSignalEvents_def Let_def assms el)
  assume "mset (Signalled r) = S + dueEvents n es"
  then show "mset (Signalled (PhotonicIoctlFramesSignalEvents r)) = S + dueEvents (Suc n) es"
    using due [of es] by (simp add: PhotonicIoctlFramesSignalEvents_def Let_def assms add.assoc)
qed

lemma deliver_step:
  "isFrame d \<Longrightarrow> \<exists>r0. deliverOne d r = PhotonicIoctlFramesSignalEvents r0 \<and> EventList r0 = EventList r \<and>
     Signalled r0 = Signalled r \<and> TotalFrameCount r0 = TotalFrameCount r + 1 \<and>
     CurrentFrameIndex r0 = of_nat (fst (snd d))"
  "\<not> isFrame d \<Longrightarrow> EventList (deliverOne d r) = EventList r \<and> Signalled (deliverOne d r) = Signalled r \<and>
     transferInfo (deliverOne d r) = transferInfo r"
  by (auto simp: isFrame_def deliverOne_def PhotonicIoctlFramesDeliver_def Let_def transferInfo_def
      split: prod.splits if_splits)

text \<open>
  C32: the transfer information and the completion events follow the delivered frames.  After any
  sequence of deliveries, GET_TRANSFER_INFO reports the slot of the last frame and the number of
  frames (modulo 2^32), dropped frames counting for nothing; every registered event has been
  signalled if and only if at least its countdown of frames has been delivered, once, and the
  events still registered have the remaining countdown.
\<close>

theorem deliveries_reported:
  fixes ds :: "delivery list"
  assumes "\<forall>e \<in> set (EventList r). evCountdown e \<noteq> 0"
  defines "fs \<equiv> filter isFrame ds"
  shows "EventList (deliverAll ds r) = afterFrames (length fs) (EventList r) \<and>
    mset (Signalled (deliverAll ds r)) = mset (Signalled r) + dueEvents (length fs) (EventList r) \<and>
    transferInfo (deliverAll ds r) =
      (if fs = [] then CurrentFrameIndex r else of_nat (fst (snd (last fs))), TotalFrameCount r + of_nat (length fs))"
  unfolding fs_def
proof (induction ds rule: rev_induct)
  case Nil
  have "filter (\<lambda>e. 0 < unat (evCountdown e)) (EventList r) = EventList r"
    "filter (\<lambda>e. unat (evCountdown e) = 0) (EventList r) = []"
    using assms(1) by (auto simp: filter_id_conv filter_empty_conv unat_gt_0 unat_eq_0)
  then show ?case
    by (simp add: deliverAll_def afterFrames_def dueEvents_def transferInfo_def)
next
  case (snoc d ds)
  have last: "deliverAll (ds @ [d]) r = deliverOne d (deliverAll ds r)"
    by (simp add: deliverAll_def)
  show ?case
  proof (cases "isFrame d")
    case True
    obtain r0 where r0: "deliverOne d (deliverAll ds r) = PhotonicIoctlFramesSignalEvents r0"
      "EventList r0 = EventList (deliverAll ds r)" "Signalled r0 = Signalled (deliverAll ds r)"
      "TotalFrameCount r0 = TotalFrameCount (deliverAll ds r) + 1" "CurrentFrameIndex r0 = of_nat (fst (snd d))"
      using deliver_step(1) [OF True] by blast
    show ?thesis
      using snoc.IH signal_step [of r0 "length (filter isFrame ds)" "EventList r"] True
      by (simp add: last r0 transferInfo_def)
  next
    case False
    then show ?thesis
      using snoc.IH deliver_step(2) [OF False, of "deliverAll ds r"] by (simp add: last)
  qed
qed

text \<open>Two frames and a dropped one on a ring with events counting down from 1, 2 and 3.\<close>

definition eventRing :: "ioctl_event list \<Rightarrow> ring" where
  "eventRing es = \<lparr>Slots = (\<lambda>i. \<lparr>slotMdl = Some \<lparr>mdlBuffer = i, mdlByteCount = 24\<rparr>,
     slotState = PhotonicIoctlFrameQueued\<rparr>), MappedFrameCount = 3, NextSubmitIndex = 0,
     CurrentFrameIndex = - 1, TotalFrameCount = 0, PumpRingOnStart = True, EventList = es,
     Signalled = [], Dereferenced = []\<rparr>"

definition threeEvents :: "ioctl_event list" where
  "threeEvents = map (\<lambda>i. \<lparr>evObject = i, evHandle = 4, evType = 1, evCountdown = of_nat i\<rparr>) [1, 2, 3]"

definition someDeliveries :: "stream \<Rightarrow> delivery list" where
  "someDeliveries s = [(s, 0, 24, STATUS_SUCCESS), (s, 1, 0, STATUS_CANCELLED), (s, 2, 24, STATUS_SUCCESS)]"

lemma deliveries_reported_witness:
  "\<forall>s. transferInfo (deliverAll (someDeliveries s) (eventRing threeEvents)) = (2, 2) \<and>
   mset (Signalled (deliverAll (someDeliveries s) (eventRing threeEvents))) = {#1, 2#}"
proof
  fix s
  have "filter isFrame (someDeliveries s) = [(s, 0, 24, STATUS_SUCCESS), (s, 2, 24, STATUS_SUCCESS)]"
    by (simp add: someDeliveries_def isFrame_def)
  then show "transferInfo (deliverAll (someDeliveries s) (eventRing threeEvents)) = (2, 2) \<and>
      mset (Signalled (deliverAll (someDeliveries s) (eventRing threeEvents))) = {#1, 2#}"
    using deliveries_reported [of "eventRing threeEvents" "someDeliveries s"]
    by (simp add: eventRing_def threeEvents_def dueEvents_def)
qed

section \<open>Registration\<close>

text \<open>
  Unregistering an event undoes its registration.  When the handle and type are not registered
  yet, registering and then unregistering succeeds, leaves the list of events as it was, and drops
  the object reference the registration took.
\<close>

theorem register_unregister:
  assumes "registerEvent allocated reference h t r = ((STATUS_SUCCESS, PL_SUCCESS), r')"
    and "\<not> list_ex (eventMatches h t) (EventList r)"
  shows "\<exists>ob. reference h = Inr ob \<and>
    unregisterEvent h t r' = (STATUS_SUCCESS, r\<lparr>Dereferenced := Dereferenced r @ [ob]\<rparr>)"
proof -
  obtain ob n where ob: "reference h = Inr ob"
    and r': "r' = r\<lparr>EventList := EventList r @ [\<lparr>evObject = ob, evHandle = h, evType = t, evCountdown = n\<rparr>]\<rparr>"
    using assms(1) by (auto simp: registerEvent_def split: if_splits sum.splits)
  let ?e = "\<lparr>evObject = ob, evHandle = h, evType = t, evCountdown = n\<rparr>"
  have none: "\<forall>e \<in> set (EventList r). \<not> eventMatches h t e"
    using assms(2) by (simp add: list_ex_iff)
  have m: "eventMatches h t ?e"
    by (simp add: eventMatches_def)
  have "find (eventMatches h t) (es @ [?e]) = Some ?e \<and> remove1 ?e (es @ [?e]) = es"
    if "\<forall>e \<in> set es. \<not> eventMatches h t e" for es
    using that m by (induction es) auto
  then show ?thesis
    using none by (simp add: unregisterEvent_def r' ob)
qed

lemma register_unregister_witness:
  "unregisterEvent 5 0 (snd (registerEvent True (\<lambda>h. Inr (unat h)) 5 0 (eventRing []))) =
     (STATUS_SUCCESS, (eventRing [])\<lparr>Dereferenced := [5]\<rparr>)"
  using register_unregister [of True "\<lambda>h. Inr (unat h)" 5 0 "eventRing []"]
  by (simp add: registerEvent_def eventRing_def)

section \<open>The rotation\<close>

text \<open>The slots claimed by a number of calls of the acquire callback.\<close>

fun acquireMany :: "nat \<Rightarrow> ring \<Rightarrow> nat list \<times> ring" where
  "acquireMany 0 r = ([], r)"
| "acquireMany (Suc n) r =
     (case PhotonicIoctlFramesAcquire r of
        (None, r1) \<Rightarrow> ([], r1)
      | (Some (k, m), r1) \<Rightarrow> (case acquireMany n r1 of (ks, r2) \<Rightarrow> (k # ks, r2)))"

lemma next_slot:
  assumes "NextSubmitIndex r < MappedFrameCount r"
  shows "unat ((NextSubmitIndex r + 1) mod MappedFrameCount r) = Suc (unat (NextSubmitIndex r)) mod unat (MappedFrameCount r)"
proof -
  have "unat (NextSubmitIndex r) < unat (MappedFrameCount r)"
    using assms by (simp add: word_less_nat_alt)
  then have "Suc (unat (NextSubmitIndex r)) < 2 ^ 32"
    using unat_bound [of "MappedFrameCount r"] by simp
  then have "unat (NextSubmitIndex r + 1) = Suc (unat (NextSubmitIndex r))"
    by (simp add: unat_word_ariths)
  then show ?thesis
    by (simp add: unat_mod)
qed

lemma acquireMany_order:
  assumes "ringOk r" and "PumpRingOnStart r" and "MappedFrameCount r \<noteq> 0"
    and "\<forall>j < n. slotState (Slots r ((unat (NextSubmitIndex r) + j) mod unat (MappedFrameCount r))) = PhotonicIoctlFrameQueued"
    and "n \<le> unat (MappedFrameCount r)"
  shows "fst (acquireMany n r) = map (\<lambda>j. (unat (NextSubmitIndex r) + j) mod unat (MappedFrameCount r)) [0..<n]"
  using assms
proof (induction n arbitrary: r)
  case (Suc n)
  let ?m = "unat (MappedFrameCount r)" and ?i = "unat (NextSubmitIndex r)"
  have i: "?i < ?m" "NextSubmitIndex r < MappedFrameCount r"
    using Suc.prems(1,3) by (simp_all add: ringOk_def word_less_nat_alt)
  then have q: "slotState (Slots r ?i) = PhotonicIoctlFrameQueued"
    using Suc.prems(4) by force
  let ?r = "(updSlot ?i (\<lambda>s. s\<lparr>slotState := PhotonicIoctlFrameInFlight\<rparr>) r)
      \<lparr>NextSubmitIndex := (NextSubmitIndex r + 1) mod MappedFrameCount r\<rparr>"
  have acq: "PhotonicIoctlFramesAcquire r = (Some (?i, slotMdl (Slots r ?i)), ?r)"
    using Suc.prems(2,3) q by (simp add: PhotonicIoctlFramesAcquire_def Let_def)
  have ok: "ringOk ?r"
    using acquire_slot [OF Suc.prems(1) acq] by blast
  have nxt: "(Suc ?i mod ?m + j) mod ?m = (?i + Suc j) mod ?m" for j
    by (simp add: mod_add_left_eq)
  have other: "(?i + Suc j) mod ?m \<noteq> ?i" if "j < n" for j
  proof
    assume "(?i + Suc j) mod ?m = ?i"
    then have "(?i + Suc j) mod ?m = ?i mod ?m"
      using i(1) by simp
    then have "?m dvd Suc j"
      by (subst (asm) mod_eq_dvd_iff_nat) simp_all
    then show False
      using that Suc.prems(5) by (auto dest: dvd_imp_le)
  qed
  have queued: "\<forall>j < n. slotState (Slots ?r ((unat (NextSubmitIndex ?r) + j) mod unat (MappedFrameCount ?r))) = PhotonicIoctlFrameQueued"
  proof (intro allI impI)
    fix j
    assume j: "j < n"
    then have "slotState (Slots r ((?i + Suc j) mod ?m)) = PhotonicIoctlFrameQueued"
      using Suc.prems(4) by (metis Suc_mono)
    then show "slotState (Slots ?r ((unat (NextSubmitIndex ?r) + j) mod unat (MappedFrameCount ?r))) = PhotonicIoctlFrameQueued"
      using other [OF j] by (simp add: next_slot [OF i(2)] nxt)
  qed
  have "fst (acquireMany n ?r) = map (\<lambda>j. (unat (NextSubmitIndex ?r) + j) mod unat (MappedFrameCount ?r)) [0..<n]"
    by (rule Suc.IH [OF ok _ _ queued]) (use Suc.prems(2,3,5) in simp_all)
  then have "fst (acquireMany n ?r) = map (\<lambda>j. (?i + Suc j) mod ?m) [0..<n]"
    by (simp add: next_slot [OF i(2)] nxt)
  moreover have "[0..<Suc n] = 0 # map Suc [0..<n]"
    by (simp add: upt_conv_Cons map_Suc_upt del: upt_Suc)
  ultimately show ?case
    using i(1) by (simp add: acq comp_def split: prod.splits del: upt_Suc) (metis fst_conv)
qed simp

lemma rotation_distinct: "distinct (map (\<lambda>j. (i + j) mod n) [0..<(n :: nat)])"
proof -
  have "(i + a) mod n \<noteq> (i + b) mod n" if "a < b" "b < n" for a b
  proof
    assume "(i + a) mod n = (i + b) mod n"
    then have "n dvd (i + b) - (i + a)"
      using that by (subst mod_eq_dvd_iff_nat [symmetric]) simp_all
    then show False
      using that by (auto dest: dvd_imp_le)
  qed
  then have "inj_on (\<lambda>j. (i + j) mod n) {0..<n}"
    by (intro linorder_inj_onI) auto
  then show ?thesis
    by (simp add: distinct_map)
qed

text \<open>
  The ring is claimed round robin.  With the ring in play and all its slots queued, the engine
  is handed the slots in index order from NextSubmitIndex, wrapping at the mapped count, each once.
\<close>

theorem ring_round_robin:
  assumes "ringOk r" and "PumpRingOnStart r" and "MappedFrameCount r \<noteq> 0"
    and "\<forall>j < unat (MappedFrameCount r). slotState (Slots r j) = PhotonicIoctlFrameQueued"
  shows "fst (acquireMany (unat (MappedFrameCount r)) r) =
      map (\<lambda>j. (unat (NextSubmitIndex r) + j) mod unat (MappedFrameCount r)) [0..<unat (MappedFrameCount r)] \<and>
    distinct (fst (acquireMany (unat (MappedFrameCount r)) r))"
proof -
  have "0 < unat (MappedFrameCount r)"
    using assms(3) by (simp add: unat_gt_0)
  then show ?thesis
    using acquireMany_order [OF assms(1-3), of "unat (MappedFrameCount r)"] assms(4) rotation_distinct by simp
qed

lemma ring_round_robin_witness:
  "fst (acquireMany 3 ((eventRing [])\<lparr>NextSubmitIndex := 2\<rparr>)) = [2, 0, 1]"
  using ring_round_robin [of "(eventRing [])\<lparr>NextSubmitIndex := 2\<rparr>"]
  by (simp add: eventRing_def ringOk_def upt_rec)

section \<open>Mapping the ring\<close>

text \<open>What is locked: the MDL of every slot.\<close>

definition lockedSlots :: "ring \<Rightarrow> nat set" where
  "lockedSlots r = {i. i < PHOTONIC_IOCTL_MAX_VIDEO_FRAMES \<and> slotMdl (Slots r i) \<noteq> None}"

definition noQuarantine :: "capture option \<Rightarrow> bool" where
  "noQuarantine engine \<longleftrightarrow> (case engine of None \<Rightarrow> True | Some c \<Rightarrow> \<not> PhotonicCaptureHasQuarantinedFrames c)"

lemma unmap_all:
  assumes "noQuarantine engine"
  shows "lockedSlots (PhotonicIoctlFramesUnmap engine F r) = {}"
    "MappedFrameCount (PhotonicIoctlFramesUnmap engine F r) = 0"
proof -
  have "\<not> heldSlot engine i r" for i
    using assms
    by (auto simp: noQuarantine_def heldSlot_def PhotonicCaptureCookieQuarantined_def
        PhotonicCaptureHasQuarantinedFrames_def split: option.splits)
  then show "lockedSlots (PhotonicIoctlFramesUnmap engine F r) = {}"
    by (auto simp: lockedSlots_def unmapped_slots)
qed (simp add: PhotonicIoctlFramesUnmap_def)

text \<open>Page locking fails with an error status.\<close>

definition lockRaises :: "page_lock \<Rightarrow> bool" where
  "lockRaises lock \<longleftrightarrow> (\<forall>m. lock m = STATUS_SUCCESS \<or> \<not> NT_SUCCESS (lock m))"

lemma mapLoop_success:
  assumes "mapLoop alloc lock base sz is r = ((st, err, n), r')" and "lockRaises lock" and "NT_SUCCESS st"
  shows "st = STATUS_SUCCESS \<and> err = PL_SUCCESS \<and>
    (\<forall>x. slotMdl (Slots r' x) = (if x \<in> set is then alloc (frameVa base x sz) sz else slotMdl (Slots r x))) \<and>
    (\<forall>x \<in> set is. alloc (frameVa base x sz) sz \<noteq> None)"
  using assms
proof (induction "is" arbitrary: r)
  case (Cons i "is")
  obtain m where m: "alloc (frameVa base i sz) sz = Some m" and st: "lock m = STATUS_SUCCESS"
    using Cons.prems by (auto simp: lockRaises_def split: option.splits if_splits)
  then show ?case
    using Cons.IH [of "updSlot i (\<lambda>s. s\<lparr>slotMdl := Some m, slotState := PhotonicIoctlFrameQueued\<rparr>) r"] Cons.prems
    by auto
qed simp

lemma word_span:
  assumes "unat n \<le> PHOTONIC_IOCTL_MAX_VIDEO_FRAMES"
  shows "unat ((ucast base :: ULONG64) + ucast n * ucast (sz :: ULONG)) = unat (base :: ULONG) + unat (n :: ULONG) * unat sz"
proof -
  have "unat n * unat sz \<le> 256 * 2 ^ 32"
    using assms unat_bound [of sz] by (intro mult_mono) simp_all
  then have "unat base + unat n * unat sz < 2 ^ 64"
    using unat_bound [of base] by simp
  then show ?thesis
    by (simp add: unat_word_ariths unat_widen)
qed


lemma map_success:
  assumes "mapRing alloc lock engine imageSize n sz base r = ((st, err), r')"
    and "lockRaises lock" and "NT_SUCCESS st"
  shows "noQuarantine engine \<and> n \<noteq> 0 \<and> unat n \<le> PHOTONIC_IOCTL_MAX_VIDEO_FRAMES \<and> sz = imageSize \<and>
    unat base + unat n * unat sz \<le> 2 ^ 32 \<and> MappedFrameCount r' = n \<and>
    (\<forall>x < PHOTONIC_IOCTL_MAX_VIDEO_FRAMES. slotMdl (Slots r' x) =
       (if x < unat n then alloc (frameVa base x sz) sz else None)) \<and>
    (\<forall>x < unat n. alloc (frameVa base x sz) sz \<noteq> None)"
proof -
  have q: "noQuarantine engine" "n \<noteq> 0" "unat n \<le> PHOTONIC_IOCTL_MAX_VIDEO_FRAMES" "sz = imageSize"
    and fit: "(ucast base :: ULONG64) + ucast n * ucast sz \<le> 0x100000000"
    using assms(1,3)
    by (auto simp: mapRing_def noQuarantine_def Let_def split: if_splits option.splits)
  have span: "unat base + unat n * unat sz \<le> 2 ^ 32"
    using fit word_span [OF q(3), of base sz] by (simp add: word_le_nat_alt)
  let ?r1 = "PhotonicIoctlFramesUnmap engine False r"
  obtain st' err' k r2 where loop: "mapLoop alloc lock base sz [0..<unat n] ?r1 = ((st', err', k), r2)"
    by (metis prod.exhaust)
  have st': "NT_SUCCESS st'" and r': "r' = r2\<lparr>NextSubmitIndex := 0, CurrentFrameIndex := - 1, TotalFrameCount := 0,
      MappedFrameCount := n\<rparr>"
    using assms(1,3) loop q fit
    by (auto simp: mapRing_def noQuarantine_def Let_def split: if_splits option.splits)
  have "slotMdl (Slots ?r1 x) = None" if "x < PHOTONIC_IOCTL_MAX_VIDEO_FRAMES" for x
    using unmap_all(1) [OF q(1), of False r] that by (auto simp: lockedSlots_def)
  then show ?thesis
    using mapLoop_success [OF loop assms(2) st'] q span by (auto simp: r')
qed

text \<open>The user range of a frame, one past its last byte.\<close>

definition frameEnd :: "ULONG \<Rightarrow> nat \<Rightarrow> ULONG \<Rightarrow> nat" where
  "frameEnd base i sz = unat (frameVa base i sz) + unat sz"

lemma frameVa_nat:
  assumes "i < PHOTONIC_IOCTL_MAX_VIDEO_FRAMES"
  shows "unat (frameVa base i sz) = unat base + i * unat sz"
proof -
  have i: "unat (of_nat i :: ULONG) = i"
    using assms by (subst unat_of_nat) simp
  have "ucast (of_nat i :: ULONG) = (of_nat i :: ULONG64)"
    by (rule word_unat_eq_iff [THEN iffD2]) (use assms i in \<open>simp add: unat_widen unat_of_nat\<close>)
  then show ?thesis
    using word_span [of "of_nat i" base sz] i assms by (simp add: frameVa_def)
qed

text \<open>
  C33: a successful MAP_VIDEO_FRAME locks exactly the frames asked for.  The slots locked afterwards
  are those below FrameCount, at most 256 of them; slot i holds the MDL made for the i-th frame of
  the caller's range, of the prepared size; the frames are consecutive and disjoint, and none reaches
  past the 32-bit address space (the 64-bit sums never wrap).
\<close>

theorem map_locks_frames:
  assumes "mapRing alloc lock engine imageSize n sz base r = ((st, err), r')"
    and "lockRaises lock" and "NT_SUCCESS st"
  shows "lockedSlots r' = {0..<unat n} \<and> MappedFrameCount r' = n \<and> 0 < unat n \<and> unat n \<le> 256 \<and> sz = imageSize \<and>
    (\<forall>i < unat n. slotMdl (Slots r' i) = alloc (frameVa base i sz) sz \<and>
       unat (frameVa base i sz) = unat base + i * unat sz \<and> frameEnd base i sz \<le> 2 ^ 32)"
proof -
  note m = map_success [OF assms]
  have "frameEnd base i sz \<le> 2 ^ 32" if "i < unat n" for i
  proof -
    have "Suc i * unat sz \<le> unat n * unat sz"
      using that by (intro mult_right_mono) simp_all
    moreover have "unat base + unat n * unat sz \<le> 2 ^ 32"
      using m by blast
    moreover have "unat (frameVa base i sz) = unat base + i * unat sz"
      using m that by (intro frameVa_nat) auto
    ultimately show ?thesis
      unfolding frameEnd_def by simp
  qed
  moreover have "lockedSlots r' = {0..<unat n}"
  proof (rule set_eqI)
    fix x
    show "x \<in> lockedSlots r' \<longleftrightarrow> x \<in> {0..<unat n}"
      using m by (cases "x < unat n") (auto simp: lockedSlots_def)
  qed
  ultimately show ?thesis
    using m frameVa_nat [of _ base sz] by (simp add: unat_gt_0)
qed

definition mapAny :: mdl_source where
  "mapAny va len = Some \<lparr>mdlBuffer = unat va, mdlByteCount = len\<rparr>"

lemma mapLoop_any:
  "mapLoop mapAny lock base sz (i # is) r =
     (let m = \<lparr>mdlBuffer = unat (frameVa base i sz), mdlByteCount = sz\<rparr> in
      if lock m \<noteq> STATUS_SUCCESS then ((lock m, PL_ERROR_LOCK_FAILED, i), r)
      else mapLoop mapAny lock base sz is (updSlot i (\<lambda>s. s\<lparr>slotMdl := Some m, slotState := PhotonicIoctlFrameQueued\<rparr>) r))"
  by (simp add: mapAny_def Let_def)

lemma three_frames: "[0..<3] = [0, 1, 2 :: nat]"
  by (simp add: upt_rec)

lemma three_locked: "fst (mapLoop mapAny (\<lambda>m. STATUS_SUCCESS) base sz [0..<3] r) = (STATUS_SUCCESS, PL_SUCCESS, 0)"
  by (simp add: three_frames mapLoop_any del: mapLoop.simps(2))

lemma map_three:
  assumes "fst (mapLoop alloc lock 0x10000 4096 [0..<3] (PhotonicIoctlFramesUnmap None False r)) = (st, err, k)"
    and "MappedFrameCount r = 0"
  shows "fst (mapRing alloc lock None 4096 3 4096 0x10000 r) =
    (if NT_SUCCESS st then (STATUS_SUCCESS, err) else (st, err))"
proof -
  obtain r2 where "mapLoop alloc lock 0x10000 4096 [0..<3] (PhotonicIoctlFramesUnmap None False r) = ((st, err, k), r2)"
    using assms(1) by (cases "mapLoop alloc lock 0x10000 4096 [0..<3] (PhotonicIoctlFramesUnmap None False r)") simp
  then show ?thesis
    unfolding mapRing_def assms(2) option.case Let_def by simp
qed

lemma map_locks_frames_witness:
  "lockedSlots (snd (mapRing mapAny (\<lambda>m. STATUS_SUCCESS) None 4096 3 4096 0x10000
     ((eventRing [])\<lparr>MappedFrameCount := 0\<rparr>))) = {0, 1, 2}"
proof -
  define r where "r = (eventRing [])\<lparr>MappedFrameCount := 0\<rparr>"
  have r: "MappedFrameCount r = 0"
    by (simp add: r_def)
  obtain r' where out: "mapRing mapAny (\<lambda>m. STATUS_SUCCESS) None 4096 3 4096 0x10000 r =
      ((STATUS_SUCCESS, PL_SUCCESS), r')"
    using map_three [OF three_locked r] by (cases "mapRing mapAny (\<lambda>m. STATUS_SUCCESS) None 4096 3 4096 0x10000 r")
      (simp add: NT_SUCCESS_def)
  have "lockedSlots r' = {0..<unat (3 :: ULONG)}"
    using map_locks_frames [OF out] by (simp add: lockRaises_def NT_SUCCESS_def)
  moreover have "{0..<unat (3 :: ULONG)} = set [0..<3]"
    by simp
  ultimately show ?thesis
    unfolding r_def [symmetric] out three_frames by simp
qed





end
