(* ===== verification/Ioctl.thy ===== *)
theory Ioctl
  imports Frame_Ring Stream_Read
begin

text \<open>
  photonic/ioctl.h and photonic/ioctl/ioctl_private.h: the wire contract of the IOCTL interface and
  the request the handlers work on.  The shared METHOD_BUFFERED system buffer is a function from byte
  offsets to bytes, so what lies past the caller's input is whatever the pool held; the packed
  structures are the fields at their offsets, little-endian.
\<close>

abbreviation (input) STATUS_DEVICE_BUSY :: NTSTATUS where "STATUS_DEVICE_BUSY \<equiv> 0x80000011"
abbreviation (input) STATUS_BUFFER_TOO_SMALL :: NTSTATUS where "STATUS_BUFFER_TOO_SMALL \<equiv> 0xC0000023"
abbreviation (input) STATUS_INVALID_BUFFER_SIZE :: NTSTATUS where "STATUS_INVALID_BUFFER_SIZE \<equiv> 0xC0000206"

lemma NT_SUCCESS_more [simp, status_simps]:
  "\<not> NT_SUCCESS STATUS_DEVICE_BUSY" "\<not> NT_SUCCESS STATUS_BUFFER_TOO_SMALL"
  "\<not> NT_SUCCESS STATUS_INVALID_BUFFER_SIZE"
  by (simp_all add: NT_SUCCESS_def)

section \<open>IOCTL codes\<close>

abbreviation (input) FILE_DEVICE_UNKNOWN :: ULONG where "FILE_DEVICE_UNKNOWN \<equiv> 0x22"
abbreviation (input) METHOD_BUFFERED :: ULONG where "METHOD_BUFFERED \<equiv> 0"
abbreviation (input) FILE_ANY_ACCESS :: ULONG where "FILE_ANY_ACCESS \<equiv> 0"

definition CTL_CODE :: "ULONG \<Rightarrow> ULONG \<Rightarrow> ULONG \<Rightarrow> ULONG \<Rightarrow> ULONG" where
  "CTL_CODE DeviceType Function Method Access =
     push_bit 16 DeviceType OR push_bit 14 Access OR push_bit 2 Function OR Method"

definition DEVICE_TYPE_FROM_CTL_CODE :: "ULONG \<Rightarrow> ULONG" where
  "DEVICE_TYPE_FROM_CTL_CODE code = drop_bit 16 (code AND 0xFFFF0000)"

datatype ioctl =
    SDK_VERSION_1 | SDK_VERSION_2 | SERIAL_NUMBER | SET_CANCEL_TIMEOUT | GET_VENDOR_NAME | GET_MODEL_NAME
  | SUBWINDOW_GET | SUBWINDOW_SET | START_VIDEO | STOP_VIDEO | REGISTER_EVENT | UNREGISTER_EVENT
  | GET_TRANSFER_INFO | PREPARE_VIDEO | UNPREPARE_VIDEO | MAP_VIDEO_FRAME | UNMAP_VIDEO_FRAME
  | INITIALIZE | PROPERTY_GET | PROPERTY_SET | TRIGGER_SET | STROBE_SET | SW_TRIGGER | ENUM_FRAME_RATE
  | SET_FRAME_RATE | IMAGE_FLIP | GET_FRAME_RATE | GET_CHANNEL | GET_PACKET_SIZE | GET_PIXEL_FORMAT
  | SET_PIXEL_FORMAT | PREPARE_IMAGER | UNPREPARE_IMAGER | START_IMAGER | STOP_IMAGER
  | GET_DCAM_VERSION | GET_NAMES_LENGTH | INVALIDATE_FORMAT | GET_NAMES | GET_LAST_ERROR | MAILBOX

fun functionCode :: "ioctl \<Rightarrow> ULONG" where
  "functionCode SDK_VERSION_1 = 0x806"
| "functionCode SDK_VERSION_2 = 0x807"
| "functionCode SERIAL_NUMBER = 0x809"
| "functionCode SET_CANCEL_TIMEOUT = 0x80B"
| "functionCode GET_VENDOR_NAME = 0x80C"
| "functionCode GET_MODEL_NAME = 0x80D"
| "functionCode SUBWINDOW_GET = 0x835"
| "functionCode SUBWINDOW_SET = 0x836"
| "functionCode START_VIDEO = 0x837"
| "functionCode STOP_VIDEO = 0x838"
| "functionCode REGISTER_EVENT = 0x839"
| "functionCode UNREGISTER_EVENT = 0x83A"
| "functionCode GET_TRANSFER_INFO = 0x83B"
| "functionCode PREPARE_VIDEO = 0x83C"
| "functionCode UNPREPARE_VIDEO = 0x83D"
| "functionCode MAP_VIDEO_FRAME = 0x83E"
| "functionCode UNMAP_VIDEO_FRAME = 0x83F"
| "functionCode INITIALIZE = 0x845"
| "functionCode PROPERTY_GET = 0x846"
| "functionCode PROPERTY_SET = 0x847"
| "functionCode TRIGGER_SET = 0x848"
| "functionCode STROBE_SET = 0x849"
| "functionCode SW_TRIGGER = 0x84A"
| "functionCode ENUM_FRAME_RATE = 0x84B"
| "functionCode SET_FRAME_RATE = 0x84C"
| "functionCode IMAGE_FLIP = 0x84D"
| "functionCode GET_FRAME_RATE = 0x84F"
| "functionCode GET_CHANNEL = 0x850"
| "functionCode GET_PACKET_SIZE = 0x854"
| "functionCode GET_PIXEL_FORMAT = 0x856"
| "functionCode SET_PIXEL_FORMAT = 0x857"
| "functionCode PREPARE_IMAGER = 0x858"
| "functionCode UNPREPARE_IMAGER = 0x859"
| "functionCode START_IMAGER = 0x85A"
| "functionCode STOP_IMAGER = 0x85B"
| "functionCode GET_DCAM_VERSION = 0x85C"
| "functionCode GET_NAMES_LENGTH = 0x85D"
| "functionCode INVALIDATE_FORMAT = 0x85E"
| "functionCode GET_NAMES = 0x8F3"
| "functionCode GET_LAST_ERROR = 0x8FE"
| "functionCode MAILBOX = 0xDC6"

definition ioctlCode :: "ioctl \<Rightarrow> ULONG" where
  "ioctlCode i = CTL_CODE FILE_DEVICE_UNKNOWN (functionCode i) METHOD_BUFFERED FILE_ANY_ACCESS"

lemma functionCode_inject [simp]: "functionCode i = functionCode j \<longleftrightarrow> i = j"
  by (cases i; cases j) simp_all

section \<open>The shared buffer\<close>

type_synonym buffer = "nat \<Rightarrow> byte"

definition getDword :: "nat \<Rightarrow> buffer \<Rightarrow> ULONG" where
  "getDword ofs b = of_le_bytes [b ofs, b (ofs + 1), b (ofs + 2), b (ofs + 3)]"

definition getWord :: "nat \<Rightarrow> buffer \<Rightarrow> USHORT" where
  "getWord ofs b = ucast (b ofs) OR push_bit 8 (ucast (b (ofs + 1)))"

definition putBytes :: "nat \<Rightarrow> byte list \<Rightarrow> buffer \<Rightarrow> buffer" where
  "putBytes ofs bs b = (\<lambda>i. if ofs \<le> i \<and> i < ofs + length bs then bs ! (i - ofs) else b i)"

definition putDword :: "nat \<Rightarrow> ULONG \<Rightarrow> buffer \<Rightarrow> buffer" where
  "putDword ofs v = putBytes ofs (le_bytes v)"

section \<open>Requests\<close>

text \<open>A file object is named by a number.\<close>

record request =
  rqFileObject :: nat
  Buffer :: buffer
  InputLength :: ULONG
  OutputLength :: ULONG
  Information :: ULONG64
  Error :: pl_error

section \<open>Structures\<close>

text \<open>The fields a handler reads.  Each structure starts with a Status or Command word it skips.\<close>

definition getSubwindow :: "buffer \<Rightarrow> subwindow" where
  "getSubwindow b = \<lparr>swScale = getDword 4 b, swOffsetX = getDword 8 b, swOffsetY = getDword 12 b,
     swWidth = getDword 16 b, swHeight = getDword 20 b\<rparr>"

definition putSubwindow :: "subwindow \<Rightarrow> buffer \<Rightarrow> buffer" where
  "putSubwindow w b = putDword 20 (swHeight w) (putDword 16 (swWidth w) (putDword 12 (swOffsetY w)
     (putDword 8 (swOffsetX w) (putDword 4 (swScale w) (putDword 0 (plCode PL_SUCCESS) b)))))"

record map_video_frame_in =
  mvFrameCount :: ULONG
  mvFrameSize :: ULONG
  mvBaseVA :: ULONG

definition getMapVideoFrame :: "buffer \<Rightarrow> map_video_frame_in" where
  "getMapVideoFrame b = \<lparr>mvFrameCount = getDword 0 b, mvFrameSize = getDword 4 b, mvBaseVA = getDword 8 b\<rparr>"

text \<open>PHOTONIC_REGISTER_EVENT_IN32 and PHOTONIC_UNREGISTER_EVENT_IN32 have one layout: (Handle, Type).\<close>

definition getRegisterEvent :: "buffer \<Rightarrow> ULONG \<times> ULONG" where
  "getRegisterEvent b = (getDword 4 b, getDword 8 b)"

text \<open>The index of the three frame-rate structures, and the dwords of the frame-rate outputs.\<close>

definition getRateIndex :: "buffer \<Rightarrow> ULONG" where
  "getRateIndex b = getDword 4 b"

record mailbox_register =
  mrFlags :: USHORT
  mrAddress :: ULONG
  mrValue :: ULONG

definition getMailboxRegister :: "buffer \<Rightarrow> mailbox_register" where
  "getMailboxRegister b = \<lparr>mrFlags = getWord 4 b, mrAddress = getDword 8 b, mrValue = getDword 12 b\<rparr>"

definition putTransferInfo :: "ULONG \<times> ULONG \<Rightarrow> buffer \<Rightarrow> buffer" where
  "putTransferInfo info b = putDword 0 (plCode PL_SUCCESS) (putDword 8 (snd info) (putDword 4 (fst info) b))"

section \<open>The device\<close>

text \<open>
  The device as the two interfaces share it.  An open DirectShow pin (\<open>VideoStream\<close>) and the prepared
  slot PHOTONIC_IOCTL_CAPTURE (\<open>IoctlCapture\<close>) each hold a world of \<open>Capture_Machine\<close>: its stream, its
  engine and its front-end's state; ActiveCaptureStream points to the stream of one of them or is NULL.
  While a session exists the register state of the device (\<open>'b drv\<close>) is that of its world, so there is
  one extension at any time.  \<open>Retired\<close> records the slots given up.
\<close>

datatype active_stream = NoStream | DirectShowStream | IoctlStream

record 'b ioctl_capture =
  icWorld :: "('b, ring) world"
  icFrameCount :: ULONG
  icFileObject :: nat

record 'b device =
  dvDrv :: "'b drv"
  LastError :: pl_error
  VideoStream :: "('b, read_queue) world option"
  ActiveCaptureStream :: active_stream
  IoctlCapture :: "'b ioctl_capture option"
  Retired :: "'b ioctl_capture list"

definition drvOf :: "'b device \<Rightarrow> 'b drv" where
  "drvOf dv = (case IoctlCapture dv of
      Some c \<Rightarrow> wDrv (icWorld c)
    | None \<Rightarrow> (case VideoStream dv of Some w \<Rightarrow> wDrv w | None \<Rightarrow> dvDrv dv))"

definition setWorld :: "('b, ring) world \<Rightarrow> 'b device \<Rightarrow> 'b device" where
  "setWorld w dv = dv\<lparr>IoctlCapture := map_option (\<lambda>c. c\<lparr>icWorld := w\<rparr>) (IoctlCapture dv)\<rparr>"

definition setDrv :: "'b drv \<Rightarrow> 'b device \<Rightarrow> 'b device" where
  "setDrv d dv = (case IoctlCapture dv of
      Some c \<Rightarrow> setWorld ((icWorld c)\<lparr>wDrv := d\<rparr>) dv
    | None \<Rightarrow> (case VideoStream dv of
          Some w \<Rightarrow> dv\<lparr>VideoStream := Some (w\<lparr>wDrv := d\<rparr>)\<rparr>
        | None \<Rightarrow> dv\<lparr>dvDrv := d\<rparr>))"

definition isRemoved :: "'b device \<Rightarrow> bool" where
  "isRemoved dv \<longleftrightarrow> Removed (fst (drvOf dv))"

text \<open>A register-level operation of the device.\<close>

definition onDevice :: "('b drv, 'a) comp \<Rightarrow> 'b device \<Rightarrow> (NTSTATUS + 'a) \<times> 'b device" where
  "onDevice m dv = (case m (drvOf dv) of (r, d) \<Rightarrow> (r, setDrv d dv))"

section \<open>Calls into the capture engine\<close>

text \<open>
  A call into the engine is a control request of \<open>Capture_Machine\<close>.  The caller holds InterfaceMutex
  until the call returns, while the rest of the machine runs in any interleaving: \<open>es\<close> is the schedule
  of the steps taken in the meantime.  There is a result when the schedule is one the machine admits
  and the control program has ended.
\<close>

definition engineIdle :: "('b, 'f) world \<Rightarrow> bool" where
  "engineIdle w \<longleftrightarrow> wCtl w = [] \<and> wCtlData w = []"

text \<open>The events of the machine that take InterfaceMutex cannot happen while it is held.\<close>

fun takesMutex :: "event \<Rightarrow> bool" where
  "takesMutex (EvStart ex) = True"
| "takesMutex EvStop = True"
| "takesMutex EvClose = True"
| "takesMutex EvService = True"
| "takesMutex EvRemove = True"
| "takesMutex (EvStartRing one ex) = True"
| "takesMutex EvTrigger = True"
| "takesMutex _ = False"

definition engineRun ::
  "'b env \<Rightarrow> 'f front \<Rightarrow> event list \<Rightarrow> ('b, 'f) world option \<Rightarrow> ('b, 'f) world option" where
  "engineRun ev fe es r =
     (case r of
        None \<Rightarrow> None
      | Some w \<Rightarrow>
          if list_ex takesMutex es then None
          else (case runs ev fe es w of
              None \<Rightarrow> None
            | Some w' \<Rightarrow> if engineIdle w' then Some w' else None))"

text \<open>PhotonicCaptureStop, PhotonicCaptureStart, PhotonicCapturePump and the trigger's engine part.\<close>

definition engineCall ::
  "'b env \<Rightarrow> 'f front \<Rightarrow> event list \<Rightarrow> event \<Rightarrow> ('b, 'f) world \<Rightarrow> ('b, 'f) world option" where
  "engineCall ev fe es e w = engineRun ev fe es (step ev fe e w)"

definition enginePump :: "'b env \<Rightarrow> 'f front \<Rightarrow> event list \<Rightarrow> ('b, 'f) world \<Rightarrow> ('b, 'f) world option" where
  "enginePump ev fe es w = engineRun ev fe es (withData [PumpElect] (startControl [] w))"

text \<open>The status the last call returned.\<close>

definition returned :: "('b, 'f) world \<Rightarrow> NTSTATUS" where
  "returned w = (case rev (wReturned w) of [] \<Rightarrow> STATUS_SUCCESS | st # _ \<Rightarrow> st)"

end
