(* ===== verification/Ioctl_Handlers.thy ===== *)
theory Ioctl_Handlers
  imports Ioctl
begin

text \<open>
  photonic/ioctl/*.c: the handlers of the IOCTL interface.  A handler takes the decoded request and the
  device and gives the status with both updated; it runs under InterfaceMutex.  \<open>es\<close> is the schedule of
  the capture engine during the handler's one call into it; the result is None when that schedule is not
  one the machine admits, or ends before the call returns.
\<close>

section \<open>Results\<close>

type_synonym 'b outcome = "(NTSTATUS \<times> request \<times> 'b device) option"

text \<open>
  The kernel services the handlers call: IoAllocateMdl, MmProbeAndLockPages,
  ObReferenceObjectByHandle, KeSaveFloatingPointState, IoIs32bitProcess.  Pool allocations are those of
  the transport's environment.
\<close>

record kernel =
  kMdl :: mdl_source
  kLock :: page_lock
  kEvent :: "ULONG \<Rightarrow> NTSTATUS + nat"
  kFpState :: NTSTATUS
  kIs32bitProcess :: bool

definition finish :: "NTSTATUS \<Rightarrow> request \<Rightarrow> 'b device \<Rightarrow> 'b outcome" where
  "finish status rq dv = Some (status, rq, dv)"

definition failed :: "pl_error \<Rightarrow> NTSTATUS \<Rightarrow> request \<Rightarrow> 'b device \<Rightarrow> 'b outcome" where
  "failed err status rq dv = Some (status, rq\<lparr>Error := err\<rparr>, dv)"

text \<open>Request->Information is set with the buffer it counts the bytes of.\<close>

definition reply :: "ULONG64 \<Rightarrow> buffer \<Rightarrow> request \<Rightarrow> request" where
  "reply n b rq = rq\<lparr>Buffer := b, Information := n\<rparr>"

definition PhotonicIoctlEchoStatus :: "request \<Rightarrow> request" where
  "PhotonicIoctlEchoStatus rq =
     (if OutputLength rq \<ge> 4 then reply 4 (putDword 0 (plCode PL_SUCCESS) (Buffer rq)) rq else rq)"

definition succeed :: "request \<Rightarrow> 'b device \<Rightarrow> 'b outcome" where
  "succeed rq dv = finish STATUS_SUCCESS (PhotonicIoctlEchoStatus rq) dv"

section \<open>identity.c\<close>

text \<open>Handlers not implemented yet fail the request and touch nothing.\<close>

definition PhotonicIoctlSdkVersion :: "request \<Rightarrow> 'b device \<Rightarrow> 'b outcome" where
  "PhotonicIoctlSdkVersion rq dv = finish STATUS_NOT_IMPLEMENTED rq dv"

definition PhotonicIoctlSerialNumber :: "request \<Rightarrow> 'b device \<Rightarrow> 'b outcome" where
  "PhotonicIoctlSerialNumber rq dv = finish STATUS_NOT_IMPLEMENTED rq dv"

definition PhotonicIoctlSetCancelTimeout :: "request \<Rightarrow> 'b device \<Rightarrow> 'b outcome" where
  "PhotonicIoctlSetCancelTimeout rq dv = finish STATUS_NOT_IMPLEMENTED rq dv"

definition PhotonicIoctlGetVendorName :: "request \<Rightarrow> 'b device \<Rightarrow> 'b outcome" where
  "PhotonicIoctlGetVendorName rq dv = finish STATUS_NOT_IMPLEMENTED rq dv"

definition PhotonicIoctlGetModelName :: "request \<Rightarrow> 'b device \<Rightarrow> 'b outcome" where
  "PhotonicIoctlGetModelName rq dv = finish STATUS_NOT_IMPLEMENTED rq dv"

definition PhotonicIoctlGetDcamVersion :: "request \<Rightarrow> 'b device \<Rightarrow> 'b outcome" where
  "PhotonicIoctlGetDcamVersion rq dv = finish STATUS_NOT_IMPLEMENTED rq dv"

definition PhotonicIoctlGetNamesLength :: "request \<Rightarrow> 'b device \<Rightarrow> 'b outcome" where
  "PhotonicIoctlGetNamesLength rq dv = finish STATUS_NOT_IMPLEMENTED rq dv"

definition PhotonicIoctlGetLastError :: "request \<Rightarrow> 'b device \<Rightarrow> 'b outcome" where
  "PhotonicIoctlGetLastError rq dv =
     (let dv1 = (if isRemoved dv then dv\<lparr>LastError := PL_ERROR_DEVICE_NOT_FOUND\<rparr> else dv) in
      finish STATUS_SUCCESS (reply 4 (putDword 0 (plCode (LastError dv1)) (Buffer rq)) rq) dv1)"

section \<open>format.c\<close>

definition PhotonicIoctlSubwindowGet :: "'b env \<Rightarrow> request \<Rightarrow> 'b device \<Rightarrow> 'b outcome" where
  "PhotonicIoctlSubwindowGet ev rq dv =
     (if isRemoved dv then failed PL_ERROR_DEVICE_NOT_FOUND STATUS_DEVICE_REMOVED rq dv
      else case onDevice (PhotonicDcamGetCurrentSubwindow ev) dv of
          (Inl status, dv1) \<Rightarrow> failed PL_ERROR_HARDWARE status rq dv1
        | (Inr w, dv1) \<Rightarrow> finish STATUS_SUCCESS (reply 24 (putSubwindow w (Buffer rq)) rq) dv1)"

definition isDefaultWindow :: "subwindow \<Rightarrow> video_mode list \<Rightarrow> bool" where
  "isDefaultWindow w modes \<longleftrightarrow> swScale w = 1 \<and> swOffsetX w = 0 \<and> swOffsetY w = 0 \<and>
     list_ex (\<lambda>m. swWidth w = DefaultWidth m \<and> swHeight w = DefaultHeight m) modes"

definition PhotonicIoctlSubwindowSet :: "request \<Rightarrow> 'b device \<Rightarrow> 'b outcome" where
  "PhotonicIoctlSubwindowSet rq dv =
     (if isRemoved dv then failed PL_ERROR_DEVICE_NOT_FOUND STATUS_DEVICE_REMOVED rq dv
      else if \<not> isDefaultWindow (getSubwindow (Buffer rq)) (Modes (fst (drvOf dv)))
      then failed PL_ERROR_OUT_OF_RANGE STATUS_INVALID_PARAMETER rq dv
      else succeed rq dv)"

definition PhotonicIoctlGetPixelFormat :: "'b env \<Rightarrow> request \<Rightarrow> 'b device \<Rightarrow> 'b outcome" where
  "PhotonicIoctlGetPixelFormat ev rq dv =
     (if isRemoved dv then failed PL_ERROR_DEVICE_NOT_FOUND STATUS_DEVICE_REMOVED rq dv
      else case onDevice (PhotonicDcamGetCurrentPixelFormat ev) dv of
          (Inl status, dv1) \<Rightarrow> failed PL_ERROR_HARDWARE status rq dv1
        | (Inr pixelFormat, dv1) \<Rightarrow>
            finish STATUS_SUCCESS (reply 4 (putDword 0 pixelFormat (Buffer rq)) rq) dv1)"

definition sessionActive :: "'b device \<Rightarrow> bool" where
  "sessionActive dv \<longleftrightarrow> VideoStream dv \<noteq> None \<or> IoctlCapture dv \<noteq> None"

definition PhotonicIoctlSetPixelFormat :: "'b env \<Rightarrow> request \<Rightarrow> 'b device \<Rightarrow> 'b outcome" where
  "PhotonicIoctlSetPixelFormat ev rq dv =
     (if isRemoved dv then failed PL_ERROR_DEVICE_NOT_FOUND STATUS_DEVICE_REMOVED rq dv
      else if sessionActive dv then failed PL_ERROR_INVALID_STATE STATUS_INVALID_DEVICE_STATE rq dv
      else case onDevice (PhotonicDcamSelectPixelFormat ev (getDword 0 (Buffer rq))) dv of
          (Inl status, dv1) \<Rightarrow>
            if status = STATUS_NOT_FOUND then failed PL_ERROR_INVALID_COUNT STATUS_INVALID_PARAMETER rq dv1
            else failed PL_ERROR_HARDWARE status rq dv1
        | (Inr _, dv1) \<Rightarrow> succeed rq dv1)"

definition PhotonicIoctlInvalidateCurrentFormat :: "request \<Rightarrow> 'b device \<Rightarrow> 'b outcome" where
  "PhotonicIoctlInvalidateCurrentFormat rq dv = finish STATUS_SUCCESS rq dv"

definition PhotonicIoctlImageFlip :: "request \<Rightarrow> 'b device \<Rightarrow> 'b outcome" where
  "PhotonicIoctlImageFlip rq dv = finish STATUS_NOT_IMPLEMENTED rq dv"

definition PhotonicIoctlGetChannel :: "request \<Rightarrow> 'b device \<Rightarrow> 'b outcome" where
  "PhotonicIoctlGetChannel rq dv = finish STATUS_NOT_IMPLEMENTED rq dv"

definition PhotonicIoctlGetPacketSize :: "request \<Rightarrow> 'b device \<Rightarrow> 'b outcome" where
  "PhotonicIoctlGetPacketSize rq dv = finish STATUS_NOT_IMPLEMENTED rq dv"

section \<open>property.c\<close>

definition PhotonicIoctlInitialize :: "request \<Rightarrow> 'b device \<Rightarrow> 'b outcome" where
  "PhotonicIoctlInitialize rq dv = finish STATUS_NOT_IMPLEMENTED rq dv"

definition PhotonicIoctlPropertyGet :: "request \<Rightarrow> 'b device \<Rightarrow> 'b outcome" where
  "PhotonicIoctlPropertyGet rq dv = finish STATUS_NOT_IMPLEMENTED rq dv"

definition PhotonicIoctlPropertySet :: "request \<Rightarrow> 'b device \<Rightarrow> 'b outcome" where
  "PhotonicIoctlPropertySet rq dv = finish STATUS_NOT_IMPLEMENTED rq dv"

section \<open>framerate.c\<close>

text \<open>
  Single-precision arithmetic, rounding to nearest with ties to even: the value p / q is the integer
  mantissa m of 24 bits times 2 ^ e, and the IEEE encoding of that (in the normal range, which covers
  all quotients below).
\<close>

fun bitLength :: "nat \<Rightarrow> nat" where
  "bitLength n = (if n = 0 then 0 else Suc (bitLength (n div 2)))"

declare bitLength.simps [simp del]

definition roundDiv :: "nat \<Rightarrow> nat \<Rightarrow> nat" where
  "roundDiv p q =
     (let m = p div q; r = p mod q in if q < 2 * r \<or> q = 2 * r \<and> odd m then m + 1 else m)"

definition floatExp :: "nat \<Rightarrow> nat \<Rightarrow> int" where
  "floatExp p q =
     (let d = int (bitLength p) - int (bitLength q) in
      (if p * 2 ^ nat (- d) < q * 2 ^ nat d then d - 1 else d) - 23)"

definition floatMant :: "nat \<Rightarrow> nat \<Rightarrow> nat" where
  "floatMant p q = roundDiv (p * 2 ^ nat (- floatExp p q)) (q * 2 ^ nat (floatExp p q))"

definition floatBits :: "nat \<Rightarrow> nat \<Rightarrow> ULONG" where
  "floatBits p q = of_int ((floatExp p q + 149) * 2 ^ 23 + int (floatMant p q))"

text \<open>(float) Interval is a fraction; 10000000.0f is exact.\<close>

definition fpsBits :: "ULONG \<Rightarrow> ULONG" where
  "fpsBits Interval =
     (let i = unat Interval; e = floatExp i 1; m = floatMant i 1 in
      floatBits (10000000 * 2 ^ nat (- e)) (m * 2 ^ nat e))"

definition PhotonicIntervalToFps :: "kernel \<Rightarrow> ULONG \<Rightarrow> NTSTATUS + ULONG" where
  "PhotonicIntervalToFps k Interval =
     (if Interval = 0 then Inl STATUS_DEVICE_DATA_ERROR
      else if \<not> NT_SUCCESS (kFpState k) then Inl (kFpState k)
      else Inr (fpsBits Interval))"

definition PhotonicIoctlEnumFrameRate ::
  "'b env \<Rightarrow> kernel \<Rightarrow> request \<Rightarrow> 'b device \<Rightarrow> 'b outcome" where
  "PhotonicIoctlEnumFrameRate ev k rq dv =
     (if isRemoved dv then failed PL_ERROR_DEVICE_NOT_FOUND STATUS_DEVICE_REMOVED rq dv
      else case onDevice (PhotonicDcamEnumFrameRate ev (getRateIndex (Buffer rq))) dv of
          (Inl status, dv1) \<Rightarrow>
            if status = STATUS_NO_MORE_ENTRIES
            then finish STATUS_SUCCESS (reply 12 (putDword 0 (plCode PL_ERROR_OUT_OF_RANGE) (Buffer rq)) rq) dv1
            else failed PL_ERROR_HARDWARE status rq dv1
        | (Inr interval, dv1) \<Rightarrow> (case PhotonicIntervalToFps k interval of
              Inl status \<Rightarrow> failed PL_ERROR status rq dv1
            | Inr fps \<Rightarrow> finish STATUS_SUCCESS
                (reply 12 (putDword 0 (plCode PL_SUCCESS) (putDword 8 fps (Buffer rq))) rq) dv1))"

definition PhotonicIoctlSetFrameRate :: "'b env \<Rightarrow> request \<Rightarrow> 'b device \<Rightarrow> 'b outcome" where
  "PhotonicIoctlSetFrameRate ev rq dv =
     (if isRemoved dv then failed PL_ERROR_DEVICE_NOT_FOUND STATUS_DEVICE_REMOVED rq dv
      else if sessionActive dv then failed PL_ERROR_INVALID_STATE STATUS_INVALID_DEVICE_STATE rq dv
      else case onDevice (PhotonicDcamSetFrameRate ev (getRateIndex (Buffer rq))) dv of
          (Inl status, dv1) \<Rightarrow>
            if status = STATUS_NO_MORE_ENTRIES
            then failed PL_ERROR_INVALID_COUNT STATUS_INVALID_PARAMETER rq dv1
            else failed PL_ERROR_HARDWARE status rq dv1
        | (Inr _, dv1) \<Rightarrow> succeed rq dv1)"

definition PhotonicIoctlGetFrameRate ::
  "'b env \<Rightarrow> kernel \<Rightarrow> request \<Rightarrow> 'b device \<Rightarrow> 'b outcome" where
  "PhotonicIoctlGetFrameRate ev k rq dv =
     (if isRemoved dv then failed PL_ERROR_DEVICE_NOT_FOUND STATUS_DEVICE_REMOVED rq dv
      else case onDevice (PhotonicDcamGetFrameRate ev) dv of
          (Inl status, dv1) \<Rightarrow> failed PL_ERROR_NO_PREVIEW status rq dv1
        | (Inr interval, dv1) \<Rightarrow> (case PhotonicIntervalToFps k interval of
              Inl status \<Rightarrow> failed PL_ERROR status rq dv1
            | Inr fps \<Rightarrow> finish STATUS_SUCCESS
                (reply 12 (putDword 4 0 (putDword 0 (plCode PL_SUCCESS) (putDword 8 fps (Buffer rq)))) rq) dv1))"

section \<open>mailbox.c\<close>

definition PhotonicMailboxRegisterAccess ::
  "'b env \<Rightarrow> bool \<Rightarrow> request \<Rightarrow> 'b device \<Rightarrow> 'b outcome" where
  "PhotonicMailboxRegisterAccess ev IsWrite rq dv =
     (let reg = getMailboxRegister (Buffer rq) in
      if (if IsWrite then InputLength rq < 16 else InputLength rq < 12 \<or> OutputLength rq < 16)
      then failed PL_ERROR_INVALID_COUNT STATUS_BUFFER_TOO_SMALL rq dv
      else if mrFlags reg \<noteq> 0xFFFF then failed PL_ERROR STATUS_INVALID_PARAMETER rq dv
      else if IsWrite then
        (case onDevice (Photonic1394WriteRegister ev (mrAddress reg) (mrValue reg)) dv of
           (Inl status, dv1) \<Rightarrow> failed PL_ERROR_HARDWARE status rq dv1
         | (Inr _, dv1) \<Rightarrow> finish STATUS_SUCCESS rq dv1)
      else
        (case onDevice (Photonic1394ReadRegister ev (mrAddress reg)) dv of
           (Inl status, dv1) \<Rightarrow> failed PL_ERROR_HARDWARE status rq dv1
         | (Inr value, dv1) \<Rightarrow> finish STATUS_SUCCESS (reply 16 (putDword 12 value (Buffer rq)) rq) dv1))"

abbreviation (input) MAILBOX_CMD_GET_ADDRESSES :: ULONG where "MAILBOX_CMD_GET_ADDRESSES \<equiv> 0"
abbreviation (input) MAILBOX_CMD_WRITE_REGISTER :: ULONG where "MAILBOX_CMD_WRITE_REGISTER \<equiv> 0x10"
abbreviation (input) MAILBOX_CMD_READ_REGISTER :: ULONG where "MAILBOX_CMD_READ_REGISTER \<equiv> 0x14"
abbreviation (input) MAILBOX_CMD_RAW_MIN :: ULONG where "MAILBOX_CMD_RAW_MIN \<equiv> 0x1000"
abbreviation (input) PHOTONIC_MAILBOX_MAX_PACKET_BYTES :: ULONG where "PHOTONIC_MAILBOX_MAX_PACKET_BYTES \<equiv> 4096"

text \<open>The mailbox of the camera, 0xFFFF:F0204000.\<close>

definition mailboxAddress :: ULONG64 where
  "mailboxAddress = push_bit 32 0xFFFF OR 0xF0204000"

text \<open>The first n dwords of the buffer, byte-swapped in place.\<close>

definition swapDwords :: "nat \<Rightarrow> buffer \<Rightarrow> buffer" where
  "swapDwords n b = fold (\<lambda>i b. putDword (4 * i) (RtlUlongByteSwap (getDword (4 * i) b)) b) [0..<n] b"

definition PhotonicMailboxRawPacket :: "'b env \<Rightarrow> request \<Rightarrow> 'b device \<Rightarrow> 'b outcome" where
  "PhotonicMailboxRawPacket ev rq dv =
     (if InputLength rq mod 4 \<noteq> 0 \<or> OutputLength rq mod 4 \<noteq> 0
      then failed PL_ERROR_INVALID_COUNT STATUS_INVALID_BUFFER_SIZE rq dv
      else if InputLength rq > PHOTONIC_MAILBOX_MAX_PACKET_BYTES \<or> OutputLength rq > PHOTONIC_MAILBOX_MAX_PACKET_BYTES
      then failed PL_ERROR_INVALID_COUNT STATUS_INVALID_BUFFER_SIZE rq dv
      else let b1 = swapDwords (unat (InputLength rq div 4)) (Buffer rq);
               rq1 = rq\<lparr>Buffer := b1\<rparr> in
        (case onDevice (Photonic1394WriteBlock ev mailboxAddress (map b1 [0..<unat (InputLength rq)])) dv of
           (Inl status, dv1) \<Rightarrow> failed PL_ERROR_HARDWARE status rq1 dv1
         | (Inr _, dv1) \<Rightarrow>
             if OutputLength rq > 0 then
               (case onDevice (Photonic1394ReadBlock ev mailboxAddress (unat (OutputLength rq))) dv1 of
                  (Inl status, dv2) \<Rightarrow> failed PL_ERROR_HARDWARE status rq1 dv2
                | (Inr bs, dv2) \<Rightarrow> finish STATUS_SUCCESS
                    (reply (ucast (OutputLength rq)) (swapDwords (unat (OutputLength rq div 4)) (putBytes 0 bs b1)) rq) dv2)
             else finish STATUS_SUCCESS rq1 dv1))"

definition PhotonicIoctlMailbox :: "'b env \<Rightarrow> request \<Rightarrow> 'b device \<Rightarrow> 'b outcome" where
  "PhotonicIoctlMailbox ev rq dv =
     (let command = getDword 0 (Buffer rq) in
      if isRemoved dv then failed PL_ERROR_DEVICE_NOT_FOUND STATUS_DEVICE_REMOVED rq dv
      else if command = MAILBOX_CMD_GET_ADDRESSES then finish STATUS_NOT_IMPLEMENTED rq dv
      else if command = MAILBOX_CMD_WRITE_REGISTER then PhotonicMailboxRegisterAccess ev True rq dv
      else if command = MAILBOX_CMD_READ_REGISTER then PhotonicMailboxRegisterAccess ev False rq dv
      else if command \<ge> MAILBOX_CMD_RAW_MIN then PhotonicMailboxRawPacket ev rq dv
      else failed PL_ERROR STATUS_INVALID_PARAMETER rq dv)"

section \<open>frames.c: the capture slot\<close>

text \<open>PhotonicIoctlCaptureCheckOwner, and the ownership test of the cleanup hook.\<close>

definition PhotonicIoctlCaptureCheckOwner :: "request \<Rightarrow> 'b ioctl_capture \<Rightarrow> bool" where
  "PhotonicIoctlCaptureCheckOwner rq c \<longleftrightarrow> icFileObject c = rqFileObject rq"

definition PhotonicIoctlCaptureIsOwner :: "'b device \<Rightarrow> nat \<Rightarrow> bool" where
  "PhotonicIoctlCaptureIsOwner dv FileObject \<longleftrightarrow>
     (case IoctlCapture dv of None \<Rightarrow> False | Some c \<Rightarrow> icFileObject c = FileObject)"

definition PhotonicIoctlCaptureStop :: "'b env \<Rightarrow> event list \<Rightarrow> 'b device \<Rightarrow> 'b device option" where
  "PhotonicIoctlCaptureStop ev es dv =
     (case IoctlCapture dv of
        None \<Rightarrow> Some dv
      | Some c \<Rightarrow> map_option (\<lambda>w. setWorld w dv) (engineCall ev ringFront es EvStop (icWorld c)))"

text \<open>
  The slot as it is given up: the ring unmapped, the events dropped, the engine freed or leaked with
  the slot.
\<close>

definition retireSlot :: "('b, ring) world \<Rightarrow> ('b, ring) world" where
  "retireSlot w =
     (let quarantined = PhotonicCaptureHasQuarantinedFrames (wEng w);
          r = PhotonicIoctlFramesFlushEvents (PhotonicIoctlFramesUnmap (Some (wEng w)) quarantined (wFe w))
      in case PhotonicCaptureDestroy (wEng w) of (freed, c) \<Rightarrow>
        w\<lparr>wEng := c, wFe := r, wOpen := False, wLife := (if freed then EngineFreed else EngineLeaked)\<rparr>)"

definition PhotonicIoctlCaptureRelease ::
  "'b env \<Rightarrow> event list \<Rightarrow> 'b device \<Rightarrow> 'b device option" where
  "PhotonicIoctlCaptureRelease ev es dv =
     (case IoctlCapture dv of
        None \<Rightarrow> Some dv
      | Some c \<Rightarrow> (case engineCall ev ringFront es EvStop (icWorld c) of
            None \<Rightarrow> None
          | Some w \<Rightarrow> Some (dv\<lparr>dvDrv := wDrv w, IoctlCapture := None, ActiveCaptureStream := NoStream,
                Retired := Retired dv @ [c\<lparr>icWorld := retireSlot w\<rparr>]\<rparr>)))"

text \<open>The ring of a slot just allocated, and PhotonicStreamExtensionInit over zeroed memory.\<close>

definition newRing :: ring where
  "newRing = \<lparr>Slots = (\<lambda>i. \<lparr>slotMdl = None, slotState = PhotonicIoctlFrameQueued\<rparr>), MappedFrameCount = 0,
     NextSubmitIndex = 0, CurrentFrameIndex = - 1, TotalFrameCount = 0, PumpRingOnStart = False,
     EventList = [], Signalled = [], Dereferenced = []\<rparr>"

definition PhotonicStreamExtensionInit :: stream where
  "PhotonicStreamExtensionInit = \<lparr>StreamState = KSSTATE_STOP, sWidth = 0, sHeight = 0, ImageSize = 0,
     FrameInterval = 0, OneShot = False, sMode = None, RateId = 0\<rparr>"

text \<open>
  The format of the slot's stream is the camera's current mode at its default geometry, with the
  interval of the live rate, or of the mode's fastest rate when that cannot be read.
\<close>

definition slotInterval :: "NTSTATUS + ULONG \<Rightarrow> video_mode \<Rightarrow> ULONG" where
  "slotInterval r mode =
     (case r of Inl _ \<Rightarrow> MinFrameInterval mode
      | Inr interval \<Rightarrow> if interval = 0 then MinFrameInterval mode else interval)"

definition slotStream :: "video_mode \<Rightarrow> ULONG \<Rightarrow> ULONG \<Rightarrow> stream" where
  "slotStream mode bpp interval = PhotonicStreamExtensionInit\<lparr>sMode := Some mode,
     sWidth := DefaultWidth mode, sHeight := DefaultHeight mode,
     ImageSize := PhotonicImageBytes (DefaultWidth mode) (DefaultHeight mode) bpp, FrameInterval := interval\<rparr>"

text \<open>Everything after the checks: the slot is allocated, filled and published, or freed again.\<close>

definition prepareSlot :: "'b env \<Rightarrow> ULONG \<Rightarrow> request \<Rightarrow> 'b device \<Rightarrow> 'b outcome" where
  "prepareSlot ev FrameCount rq dv =
     (case drvOf dv of (x, b) \<Rightarrow> (case envAlloc ev b of
        (False, b1) \<Rightarrow>
          failed PL_ERROR_OUT_OF_MEMORY STATUS_INSUFFICIENT_RESOURCES rq (setDrv (x, b1) dv)
      | (True, b1) \<Rightarrow> (case onDevice (PhotonicDcamGetCurrentMode ev) (setDrv (x, b1) dv) of
          (Inl status, dv1) \<Rightarrow> failed PL_ERROR_HARDWARE status rq dv1
        | (Inr mode, dv1) \<Rightarrow>
            let bpp = PhotonicDcamCodingBpp (PixelFormat mode) in
            if bpp = 0 then failed PL_ERROR_INVALID_STATE STATUS_INVALID_DEVICE_STATE rq dv1
            else (case onDevice (PhotonicDcamGetFrameRate ev) dv1 of (rate, dv2) \<Rightarrow>
              (case drvOf dv2 of (x2, b2) \<Rightarrow> (case PhotonicCaptureCreate ev b2 of
                  ((status, Some c), b3) \<Rightarrow>
                    succeed rq (dv2\<lparr>ActiveCaptureStream := IoctlStream,
                      IoctlCapture := Some \<lparr>icWorld = opened c (x2, b3)
                          (slotStream mode bpp (slotInterval rate mode)) newRing,
                        icFrameCount = FrameCount, icFileObject = rqFileObject rq\<rparr>\<rparr>)
                | ((status, None), b3) \<Rightarrow>
                    failed PL_ERROR_NO_RESOURCES status rq (setDrv (x2, b3) dv2)))))))"

definition PhotonicIoctlCapturePrepare ::
  "'b env \<Rightarrow> event list \<Rightarrow> ULONG \<Rightarrow> bool \<Rightarrow> request \<Rightarrow> 'b device \<Rightarrow> 'b outcome" where
  "PhotonicIoctlCapturePrepare ev es FrameCount AllowReprepare rq dv =
     (if isRemoved dv then failed PL_ERROR_DEVICE_NOT_FOUND STATUS_DEVICE_REMOVED rq dv
      else let busy = failed PL_ERROR_INVALID_STATE STATUS_DEVICE_BUSY rq;
               prepare = (\<lambda>dv. if ActiveCaptureStream dv \<noteq> NoStream then busy dv else prepareSlot ev FrameCount rq dv)
      in case IoctlCapture dv of
          None \<Rightarrow> prepare dv
        | Some c \<Rightarrow>
            if \<not> AllowReprepare \<or> StreamState (wStream (icWorld c)) \<noteq> KSSTATE_STOP \<or>
               icFileObject c \<noteq> rqFileObject rq
            then failed PL_ERROR_INVALID_STATE STATUS_INVALID_DEVICE_STATE rq dv
            else (case PhotonicIoctlCaptureRelease ev es dv of None \<Rightarrow> None | Some dv1 \<Rightarrow> prepare dv1))"

definition PhotonicIoctlCaptureStart ::
  "'b env \<Rightarrow> event list \<Rightarrow> ULONG \<Rightarrow> bool \<Rightarrow> request \<Rightarrow> 'b device \<Rightarrow> 'b outcome" where
  "PhotonicIoctlCaptureStart ev es StartValue PumpRing rq dv =
     (if isRemoved dv then failed PL_ERROR_DEVICE_NOT_FOUND STATUS_DEVICE_REMOVED rq dv
      else case IoctlCapture dv of
          None \<Rightarrow> failed PL_ERROR_NOT_STREAMING STATUS_UNSUCCESSFUL rq dv
        | Some c \<Rightarrow>
            if \<not> PhotonicIoctlCaptureCheckOwner rq c then finish STATUS_UNSUCCESSFUL rq dv
            else let w = icWorld c; oneShot = (StartValue = 0) in
              if \<not> Draining (wEng w) \<and> (OneShot (wStream w) \<noteq> oneShot \<or> PumpRingOnStart (wFe w) \<noteq> PumpRing)
              then failed PL_ERROR_INVALID_STATE STATUS_INVALID_DEVICE_STATE rq dv
              else (case engineCall ev ringFront es (EvStartRing oneShot PumpRing) w of
                  None \<Rightarrow> None
                | Some w1 \<Rightarrow>
                    if \<not> NT_SUCCESS (returned w1)
                    then failed PL_ERROR_HARDWARE (returned w1) rq (setWorld w1 dv)
                    else succeed rq (setWorld w1 dv)))"

definition PhotonicIoctlCaptureStopRequest ::
  "'b env \<Rightarrow> event list \<Rightarrow> request \<Rightarrow> 'b device \<Rightarrow> 'b outcome" where
  "PhotonicIoctlCaptureStopRequest ev es rq dv =
     (case IoctlCapture dv of
        None \<Rightarrow> finish STATUS_UNSUCCESSFUL rq dv
      | Some c \<Rightarrow>
          if \<not> PhotonicIoctlCaptureCheckOwner rq c then finish STATUS_UNSUCCESSFUL rq dv
          else (case PhotonicIoctlCaptureStop ev es dv of None \<Rightarrow> None | Some dv1 \<Rightarrow> succeed rq dv1))"

definition PhotonicIoctlCaptureUnprepareRequest ::
  "'b env \<Rightarrow> event list \<Rightarrow> request \<Rightarrow> 'b device \<Rightarrow> 'b outcome" where
  "PhotonicIoctlCaptureUnprepareRequest ev es rq dv =
     (case IoctlCapture dv of
        None \<Rightarrow> finish STATUS_UNSUCCESSFUL rq dv
      | Some c \<Rightarrow>
          if \<not> PhotonicIoctlCaptureCheckOwner rq c then finish STATUS_UNSUCCESSFUL rq dv
          else (case PhotonicIoctlCaptureRelease ev es dv of None \<Rightarrow> None | Some dv1 \<Rightarrow> succeed rq dv1))"

text \<open>The checks and the final pump around \<open>mapRing\<close>.\<close>

definition PhotonicIoctlMapVideoFrame ::
  "'b env \<Rightarrow> kernel \<Rightarrow> event list \<Rightarrow> request \<Rightarrow> 'b device \<Rightarrow> 'b outcome" where
  "PhotonicIoctlMapVideoFrame ev k es rq dv =
     (if isRemoved dv then failed PL_ERROR_DEVICE_NOT_FOUND STATUS_DEVICE_REMOVED rq dv
      else case IoctlCapture dv of
          None \<Rightarrow> failed PL_ERROR_NOT_PREPARED STATUS_INVALID_DEVICE_STATE rq dv
        | Some c \<Rightarrow>
            if \<not> PhotonicIoctlCaptureCheckOwner rq c then finish STATUS_UNSUCCESSFUL rq dv
            else let w = icWorld c; i = getMapVideoFrame (Buffer rq) in
              (case mapRing (kMdl k) (kLock k) (Some (wEng w)) (ImageSize (wStream w))
                  (mvFrameCount i) (mvFrameSize i) (mvBaseVA i) (wFe w) of
                 ((status, err), r) \<Rightarrow>
                   let w1 = w\<lparr>wFe := r\<rparr> in
                   if \<not> NT_SUCCESS status then failed err status rq (setWorld w1 dv)
                   else if StreamState (wStream w1) = KSSTATE_RUN
                   then (case enginePump ev ringFront es w1 of None \<Rightarrow> None | Some w2 \<Rightarrow> succeed (rq\<lparr>Error := err\<rparr>) (setWorld w2 dv))
                   else succeed (rq\<lparr>Error := err\<rparr>) (setWorld w1 dv)))"

definition PhotonicIoctlUnmapVideoFrame ::
  "'b env \<Rightarrow> event list \<Rightarrow> request \<Rightarrow> 'b device \<Rightarrow> 'b outcome" where
  "PhotonicIoctlUnmapVideoFrame ev es rq dv =
     (case IoctlCapture dv of
        None \<Rightarrow> succeed rq dv
      | Some c \<Rightarrow>
          if \<not> PhotonicIoctlCaptureCheckOwner rq c then finish STATUS_UNSUCCESSFUL rq dv
          else (case engineCall ev ringFront es EvStop (icWorld c) of
              None \<Rightarrow> None
            | Some w \<Rightarrow> succeed rq (setWorld
                (w\<lparr>wFe := PhotonicIoctlFramesUnmap (Some (wEng w)) False (wFe w)\<rparr>) dv)))"

definition PhotonicIoctlGetTransferInfo :: "request \<Rightarrow> 'b device \<Rightarrow> 'b outcome" where
  "PhotonicIoctlGetTransferInfo rq dv =
     (case IoctlCapture dv of
        None \<Rightarrow> failed PL_ERROR_NOT_STREAMING STATUS_UNSUCCESSFUL rq dv
      | Some c \<Rightarrow> finish STATUS_SUCCESS
          (reply 12 (putTransferInfo (transferInfo (wFe (icWorld c))) (Buffer rq)) rq) dv)"

text \<open>The checks, and the pool allocation, around \<open>registerEvent\<close>.\<close>

definition PhotonicIoctlRegisterEvent ::
  "'b env \<Rightarrow> kernel \<Rightarrow> request \<Rightarrow> 'b device \<Rightarrow> 'b outcome" where
  "PhotonicIoctlRegisterEvent ev k rq dv =
     (case IoctlCapture dv of
        None \<Rightarrow> failed PL_ERROR_NOT_STREAMING STATUS_UNSUCCESSFUL rq dv
      | Some c \<Rightarrow>
          if MappedFrameCount (wFe (icWorld c)) = 0 then failed PL_ERROR_NOT_STREAMING STATUS_UNSUCCESSFUL rq dv
          else if \<not> PhotonicIoctlCaptureCheckOwner rq c then finish STATUS_UNSUCCESSFUL rq dv
          else let w = icWorld c in
            (case getRegisterEvent (Buffer rq) of (Handle, Type) \<Rightarrow>
            (case (if Type \<noteq> 0 \<and> Type \<noteq> 1 then (True, snd (wDrv w)) else envAlloc ev (snd (wDrv w))) of
               (allocated, b) \<Rightarrow>
                 (case registerEvent allocated (kEvent k) Handle Type (wFe w) of ((status, err), r) \<Rightarrow>
                    let dv1 = setWorld (w\<lparr>wFe := r, wDrv := (fst (wDrv w), b)\<rparr>) dv in
                    if NT_SUCCESS status then succeed rq dv1 else failed err status rq dv1))))"

definition PhotonicIoctlUnregisterEvent :: "request \<Rightarrow> 'b device \<Rightarrow> 'b outcome" where
  "PhotonicIoctlUnregisterEvent rq dv =
     (case IoctlCapture dv of
        None \<Rightarrow> finish STATUS_NOT_FOUND rq dv
      | Some c \<Rightarrow>
          if \<not> PhotonicIoctlCaptureCheckOwner rq c then finish STATUS_UNSUCCESSFUL rq dv
          else (case getRegisterEvent (Buffer rq) of (Handle, Type) \<Rightarrow>
            (case unregisterEvent Handle Type (wFe (icWorld c)) of (status, r) \<Rightarrow>
               let dv1 = setWorld ((icWorld c)\<lparr>wFe := r\<rparr>) dv in
               if NT_SUCCESS status then succeed rq dv1 else finish status rq dv1)))"

section \<open>video.c and imager.c\<close>

definition PhotonicIoctlPrepareVideo ::
  "'b env \<Rightarrow> event list \<Rightarrow> request \<Rightarrow> 'b device \<Rightarrow> 'b outcome" where
  "PhotonicIoctlPrepareVideo ev es rq dv =
     (let frameCount = getDword 4 (Buffer rq) in
      if frameCount = 0 \<or> unat frameCount > PHOTONIC_IOCTL_MAX_VIDEO_FRAMES
      then failed PL_ERROR_INVALID_COUNT STATUS_INVALID_PARAMETER rq dv
      else PhotonicIoctlCapturePrepare ev es frameCount True rq dv)"

definition PhotonicIoctlStartVideo ::
  "'b env \<Rightarrow> event list \<Rightarrow> request \<Rightarrow> 'b device \<Rightarrow> 'b outcome" where
  "PhotonicIoctlStartVideo ev es rq dv = PhotonicIoctlCaptureStart ev es (getDword 0 (Buffer rq)) True rq dv"

definition PhotonicIoctlStopVideo ::
  "'b env \<Rightarrow> event list \<Rightarrow> request \<Rightarrow> 'b device \<Rightarrow> 'b outcome" where
  "PhotonicIoctlStopVideo ev es rq dv = PhotonicIoctlCaptureStopRequest ev es rq dv"

definition PhotonicIoctlUnprepareVideo ::
  "'b env \<Rightarrow> event list \<Rightarrow> request \<Rightarrow> 'b device \<Rightarrow> 'b outcome" where
  "PhotonicIoctlUnprepareVideo ev es rq dv = PhotonicIoctlCaptureUnprepareRequest ev es rq dv"

definition PhotonicIoctlPrepareImager ::
  "'b env \<Rightarrow> event list \<Rightarrow> request \<Rightarrow> 'b device \<Rightarrow> 'b outcome" where
  "PhotonicIoctlPrepareImager ev es rq dv = PhotonicIoctlCapturePrepare ev es 0 False rq dv"

definition PhotonicIoctlStartImager ::
  "'b env \<Rightarrow> event list \<Rightarrow> request \<Rightarrow> 'b device \<Rightarrow> 'b outcome" where
  "PhotonicIoctlStartImager ev es rq dv = PhotonicIoctlCaptureStart ev es (getDword 0 (Buffer rq)) False rq dv"

definition PhotonicIoctlStopImager ::
  "'b env \<Rightarrow> event list \<Rightarrow> request \<Rightarrow> 'b device \<Rightarrow> 'b outcome" where
  "PhotonicIoctlStopImager ev es rq dv = PhotonicIoctlCaptureStopRequest ev es rq dv"

definition PhotonicIoctlUnprepareImager ::
  "'b env \<Rightarrow> event list \<Rightarrow> request \<Rightarrow> 'b device \<Rightarrow> 'b outcome" where
  "PhotonicIoctlUnprepareImager ev es rq dv = PhotonicIoctlCaptureUnprepareRequest ev es rq dv"

section \<open>trigger.c\<close>

definition PhotonicIoctlTriggerSet :: "request \<Rightarrow> 'b device \<Rightarrow> 'b outcome" where
  "PhotonicIoctlTriggerSet rq dv = finish STATUS_NOT_IMPLEMENTED rq dv"

definition PhotonicIoctlStrobeSet :: "request \<Rightarrow> 'b device \<Rightarrow> 'b outcome" where
  "PhotonicIoctlStrobeSet rq dv = finish STATUS_NOT_IMPLEMENTED rq dv"

definition PhotonicIoctlSwTrigger :: "'b env \<Rightarrow> event list \<Rightarrow> request \<Rightarrow> 'b device \<Rightarrow> 'b outcome" where
  "PhotonicIoctlSwTrigger ev es rq dv =
     (if isRemoved dv then failed PL_ERROR_DEVICE_NOT_FOUND STATUS_DEVICE_REMOVED rq dv
      else case IoctlCapture dv of
          None \<Rightarrow> failed PL_ERROR_NOT_PREPARED STATUS_UNSUCCESSFUL rq dv
        | Some c \<Rightarrow>
            if \<not> PhotonicIoctlCaptureCheckOwner rq c then finish STATUS_UNSUCCESSFUL rq dv
            else (case engineCall ev ringFront es EvTrigger (icWorld c) of
                None \<Rightarrow> None
              | Some w \<Rightarrow>
                  if \<not> NT_SUCCESS (returned w) then failed PL_ERROR_HARDWARE (returned w) rq (setWorld w dv)
                  else succeed rq (setWorld w dv)))"

end
