(* ===== verification/Ioctl_Dispatch.thy ===== *)
theory Ioctl_Dispatch
  imports Ioctl_Handlers
begin

text \<open>
  photonic/ioctl/ioctl.c: the dispatch table, the hooked IRP_MJ_DEVICE_CONTROL and IRP_MJ_CLEANUP
  routines, and the list that maps the class driver's device objects to the registered extensions.
\<close>

section \<open>The dispatch table\<close>

type_synonym 'b handler = "'b env \<Rightarrow> kernel \<Rightarrow> event list \<Rightarrow> request \<Rightarrow> 'b device \<Rightarrow> 'b outcome"

text \<open>The minimum lengths are the sizes of the packed structures of ioctl.h.\<close>

record 'b dispatch_entry =
  IoControlCode :: ioctl
  Handler :: "'b handler"
  MinInputLength :: ULONG
  MinOutputLength :: ULONG
  Requires32BitCaller :: bool

definition entry :: "ioctl \<Rightarrow> 'b handler \<Rightarrow> ULONG \<Rightarrow> ULONG \<Rightarrow> 'b dispatch_entry" where
  "entry i h minIn minOut = \<lparr>IoControlCode = i, Handler = h, MinInputLength = minIn,
     MinOutputLength = minOut, Requires32BitCaller = False\<rparr>"

definition entry32 :: "ioctl \<Rightarrow> 'b handler \<Rightarrow> ULONG \<Rightarrow> ULONG \<Rightarrow> 'b dispatch_entry" where
  "entry32 i h minIn minOut = (entry i h minIn minOut)\<lparr>Requires32BitCaller := True\<rparr>"

definition g_PhotonicIoctlDispatch :: "'b dispatch_entry list" where
  "g_PhotonicIoctlDispatch =
    [entry SDK_VERSION_1 (\<lambda>ev k es. PhotonicIoctlSdkVersion) 0 0,
     entry SDK_VERSION_2 (\<lambda>ev k es. PhotonicIoctlSdkVersion) 0 0,
     entry SERIAL_NUMBER (\<lambda>ev k es. PhotonicIoctlSerialNumber) 12 12,
     entry SET_CANCEL_TIMEOUT (\<lambda>ev k es. PhotonicIoctlSetCancelTimeout) 12 0,
     entry GET_VENDOR_NAME (\<lambda>ev k es. PhotonicIoctlGetVendorName) 0 0,
     entry GET_MODEL_NAME (\<lambda>ev k es. PhotonicIoctlGetModelName) 0 0,
     entry SUBWINDOW_GET (\<lambda>ev k es. PhotonicIoctlSubwindowGet ev) 0 24,
     entry SUBWINDOW_SET (\<lambda>ev k es. PhotonicIoctlSubwindowSet) 24 0,
     entry START_VIDEO (\<lambda>ev k es. PhotonicIoctlStartVideo ev es) 4 0,
     entry STOP_VIDEO (\<lambda>ev k es. PhotonicIoctlStopVideo ev es) 0 0,
     entry32 REGISTER_EVENT (\<lambda>ev k es. PhotonicIoctlRegisterEvent ev k) 12 0,
     entry32 UNREGISTER_EVENT (\<lambda>ev k es. PhotonicIoctlUnregisterEvent) 12 0,
     entry GET_TRANSFER_INFO (\<lambda>ev k es. PhotonicIoctlGetTransferInfo) 0 12,
     entry PREPARE_VIDEO (\<lambda>ev k es. PhotonicIoctlPrepareVideo ev es) 8 0,
     entry UNPREPARE_VIDEO (\<lambda>ev k es. PhotonicIoctlUnprepareVideo ev es) 0 0,
     entry32 MAP_VIDEO_FRAME PhotonicIoctlMapVideoFrame 12 0,
     entry UNMAP_VIDEO_FRAME (\<lambda>ev k es. PhotonicIoctlUnmapVideoFrame ev es) 0 0,
     entry INITIALIZE (\<lambda>ev k es. PhotonicIoctlInitialize) 0 0,
     entry PROPERTY_GET (\<lambda>ev k es. PhotonicIoctlPropertyGet) 12 12,
     entry PROPERTY_SET (\<lambda>ev k es. PhotonicIoctlPropertySet) 12 0,
     entry TRIGGER_SET (\<lambda>ev k es. PhotonicIoctlTriggerSet) 20 4,
     entry STROBE_SET (\<lambda>ev k es. PhotonicIoctlStrobeSet) 20 4,
     entry SW_TRIGGER (\<lambda>ev k es. PhotonicIoctlSwTrigger ev es) 0 0,
     entry ENUM_FRAME_RATE (\<lambda>ev k es. PhotonicIoctlEnumFrameRate ev k) 12 12,
     entry SET_FRAME_RATE (\<lambda>ev k es. PhotonicIoctlSetFrameRate ev) 12 0,
     entry IMAGE_FLIP (\<lambda>ev k es. PhotonicIoctlImageFlip) 8 0,
     entry GET_FRAME_RATE (\<lambda>ev k es. PhotonicIoctlGetFrameRate ev k) 0 12,
     entry GET_CHANNEL (\<lambda>ev k es. PhotonicIoctlGetChannel) 0 4,
     entry GET_PACKET_SIZE (\<lambda>ev k es. PhotonicIoctlGetPacketSize) 0 4,
     entry GET_PIXEL_FORMAT (\<lambda>ev k es. PhotonicIoctlGetPixelFormat ev) 0 4,
     entry SET_PIXEL_FORMAT (\<lambda>ev k es. PhotonicIoctlSetPixelFormat ev) 4 0,
     entry PREPARE_IMAGER (\<lambda>ev k es. PhotonicIoctlPrepareImager ev es) 8 0,
     entry UNPREPARE_IMAGER (\<lambda>ev k es. PhotonicIoctlUnprepareImager ev es) 0 0,
     entry START_IMAGER (\<lambda>ev k es. PhotonicIoctlStartImager ev es) 4 0,
     entry STOP_IMAGER (\<lambda>ev k es. PhotonicIoctlStopImager ev es) 0 0,
     entry GET_DCAM_VERSION (\<lambda>ev k es. PhotonicIoctlGetDcamVersion) 0 4,
     entry GET_NAMES_LENGTH (\<lambda>ev k es. PhotonicIoctlGetNamesLength) 0 0,
     entry INVALIDATE_FORMAT (\<lambda>ev k es. PhotonicIoctlInvalidateCurrentFormat) 0 0,
     entry GET_LAST_ERROR (\<lambda>ev k es. PhotonicIoctlGetLastError) 0 4,
     entry MAILBOX (\<lambda>ev k es. PhotonicIoctlMailbox ev) 4 0]"

definition PhotonicIoctlLookup :: "ULONG \<Rightarrow> 'b dispatch_entry option" where
  "PhotonicIoctlLookup code = find (\<lambda>e. ioctlCode (IoControlCode e) = code) g_PhotonicIoctlDispatch"

section \<open>The device list\<close>

text \<open>
  The extensions are named by numbers.  \<open>Devices\<close> is g_PhotonicIoctlDevices in list order;
  \<open>Fdo\<close> is an extension's ClassDeviceObject, \<open>Linked\<close> a non-NULL Flink of its list entry.
\<close>

record 'b driver =
  Devices :: "nat list"
  Extensions :: "nat \<Rightarrow> 'b device"
  Fdo :: "nat \<Rightarrow> nat"
  Linked :: "nat \<Rightarrow> bool"

definition PhotonicIoctlFindDevice :: "nat \<Rightarrow> 'b driver \<Rightarrow> nat option" where
  "PhotonicIoctlFindDevice DeviceObject g = find (\<lambda>x. Fdo g x = DeviceObject) (Devices g)"

definition PhotonicIoctlRegisterDevice :: "nat \<Rightarrow> 'b driver \<Rightarrow> 'b driver" where
  "PhotonicIoctlRegisterDevice x g = g\<lparr>Devices := Devices g @ [x], Linked := (Linked g)(x := True)\<rparr>"

definition PhotonicIoctlDeregisterDevice :: "nat \<Rightarrow> 'b driver \<Rightarrow> 'b driver" where
  "PhotonicIoctlDeregisterDevice x g =
     (if \<not> Linked g x then g
      else g\<lparr>Devices := remove1 x (Devices g), Linked := (Linked g)(x := False)\<rparr>)"

section \<open>The hooks\<close>

text \<open>
  Under InterfaceMutex: the table's contract, the handler, the commit of the error.  \<open>None\<close> as for the
  handlers.
\<close>

definition runEntry :: "'b dispatch_entry \<Rightarrow> 'b handler" where
  "runEntry e ev k es rq dv =
     (case (if Requires32BitCaller e \<and> \<not> kIs32bitProcess k then finish STATUS_NOT_SUPPORTED rq dv
            else if InputLength rq < MinInputLength e \<or> OutputLength rq < MinOutputLength e
            then failed PL_ERROR_INVALID_COUNT STATUS_BUFFER_TOO_SMALL rq dv
            else Handler e ev k es rq dv) of
        None \<Rightarrow> None
      | Some (status, rq1, dv1) \<Rightarrow> Some (status, rq1,
          if Error rq1 \<noteq> PL_SUCCESS then dv1\<lparr>LastError := Error rq1\<rparr> else dv1))"

text \<open>The IRP as the I/O manager hands it over.\<close>

record irp =
  irpCode :: ULONG
  irpFileObject :: nat
  irpBuffer :: buffer
  irpInput :: ULONG
  irpOutput :: ULONG

definition requestOf :: "irp \<Rightarrow> request" where
  "requestOf i = \<lparr>rqFileObject = irpFileObject i, Buffer = irpBuffer i, InputLength = irpInput i,
     OutputLength = irpOutput i, Information = 0, Error = PL_SUCCESS\<rparr>"

text \<open>An IRP is forwarded to the class driver as it is, or completed with a status and its buffer.\<close>

datatype disposition = Forwarded | Completed NTSTATUS request

definition PhotonicDeviceControl ::
  "'b env \<Rightarrow> kernel \<Rightarrow> event list \<Rightarrow> nat \<Rightarrow> irp \<Rightarrow> 'b driver \<Rightarrow> (disposition \<times> 'b driver) option" where
  "PhotonicDeviceControl ev k es DeviceObject i g =
     (if DEVICE_TYPE_FROM_CTL_CODE (irpCode i) \<noteq> FILE_DEVICE_UNKNOWN then Some (Forwarded, g)
      else case PhotonicIoctlLookup (irpCode i) of
          None \<Rightarrow> Some (Forwarded, g)
        | Some e \<Rightarrow> (case PhotonicIoctlFindDevice DeviceObject g of
            None \<Rightarrow> Some (Forwarded, g)
          | Some x \<Rightarrow> (case runEntry e ev k es (requestOf i) (Extensions g x) of
              None \<Rightarrow> None
            | Some (status, rq, dv) \<Rightarrow>
                Some (Completed status rq, g\<lparr>Extensions := (Extensions g)(x := dv)\<rparr>))))"

text \<open>The cleanup is always forwarded.\<close>

definition PhotonicIoctlCleanup ::
  "'b env \<Rightarrow> event list \<Rightarrow> nat \<Rightarrow> nat \<Rightarrow> 'b driver \<Rightarrow> 'b driver option" where
  "PhotonicIoctlCleanup ev es DeviceObject FileObject g =
     (case PhotonicIoctlFindDevice DeviceObject g of
        None \<Rightarrow> Some g
      | Some x \<Rightarrow>
          if PhotonicIoctlCaptureIsOwner (Extensions g x) FileObject
          then map_option (\<lambda>dv. g\<lparr>Extensions := (Extensions g)(x := dv)\<rparr>)
                 (PhotonicIoctlCaptureRelease ev es (Extensions g x))
          else Some g)"

end
