(* ===== verification/Ioctl_Contract.thy ===== *)
theory Ioctl_Contract
  imports Ioctl_Dispatch
begin

text \<open>
  The contract between the dispatcher and its handlers, as a locale over the dispatch table: a handler
  that is given the minimum lengths of its entry reads no byte of the shared buffer past the caller's
  input, reports no more bytes than the caller has room for, and every byte it reports is determined by
  the caller's input and the device.  The table's handlers keep it.
\<close>

section \<open>Buffers and dwords\<close>

lemma getDword_agree: "\<forall>n < m. b n = b' n \<Longrightarrow> ofs + 4 \<le> m \<Longrightarrow> getDword ofs b' = getDword ofs b"
  by (simp add: getDword_def)

lemma getWord_agree: "\<forall>n < m. b n = b' n \<Longrightarrow> ofs + 2 \<le> m \<Longrightarrow> getWord ofs b' = getWord ofs b"
  by (simp add: getWord_def)

lemma putBytes_inside: "ofs \<le> n \<Longrightarrow> n < ofs + length bs \<Longrightarrow> putBytes ofs bs b n = bs ! (n - ofs)"
  by (simp add: putBytes_def)

lemma putBytes_outside: "n < ofs \<or> ofs + length bs \<le> n \<Longrightarrow> putBytes ofs bs b n = b n"
  by (auto simp: putBytes_def)

lemma putDword_cong: "(n < ofs \<or> ofs + 4 \<le> n \<Longrightarrow> b n = b' n) \<Longrightarrow> putDword ofs v b n = putDword ofs v b' n"
  by (auto simp: putDword_def putBytes_def)

section \<open>Runs that agree\<close>

text \<open>
  \<open>sameInput b rq\<close>: the buffer \<open>b\<close> differs from the request's at most past the input, and nothing is
  reported yet.
\<close>

definition sameInput :: "buffer \<Rightarrow> request \<Rightarrow> bool" where
  "sameInput b rq \<longleftrightarrow> Information rq = 0 \<and> (\<forall>n < unat (InputLength rq). Buffer rq n = b n)"

definition sameReply :: "request \<Rightarrow> request \<Rightarrow> bool" where
  "sameReply rq rq' \<longleftrightarrow> rq' = rq\<lparr>Buffer := Buffer rq'\<rparr> \<and> unat (Information rq) \<le> unat (OutputLength rq) \<and>
     (\<forall>n < unat (Information rq). Buffer rq n = Buffer rq' n)"

definition sameOutcome :: "'b outcome \<Rightarrow> 'b outcome \<Rightarrow> bool" where
  "sameOutcome r r' \<longleftrightarrow>
     (case r of
        None \<Rightarrow> r' = None
      | Some (status, rq, dv) \<Rightarrow> (\<exists>rq'. r' = Some (status, rq', dv) \<and> sameReply rq rq'))"

definition keepsContract :: "'b dispatch_entry \<Rightarrow> bool" where
  "keepsContract e \<longleftrightarrow> (\<forall>ev k es rq b dv. sameInput b rq \<longrightarrow> MinInputLength e \<le> InputLength rq \<longrightarrow>
     MinOutputLength e \<le> OutputLength rq \<longrightarrow>
     sameOutcome (Handler e ev k es rq dv) (Handler e ev k es (rq\<lparr>Buffer := b\<rparr>) dv))"

lemma sameInput_dword:
  "sameInput b rq \<Longrightarrow> ofs + 4 \<le> unat (InputLength rq) \<Longrightarrow> getDword ofs b = getDword ofs (Buffer rq)"
  unfolding sameInput_def by (metis getDword_agree)

lemma sameInput_word:
  "sameInput b rq \<Longrightarrow> ofs + 2 \<le> unat (InputLength rq) \<Longrightarrow> getWord ofs b = getWord ofs (Buffer rq)"
  unfolding sameInput_def by (metis getWord_agree)

named_theorems same_outcome

lemma same_none [same_outcome]: "sameOutcome None None"
  by (simp add: sameOutcome_def)

lemma same_finish [same_outcome]:
  "sameInput b rq \<Longrightarrow> sameOutcome (finish st rq dv) (finish st (rq\<lparr>Buffer := b\<rparr>) dv)"
  by (simp add: sameOutcome_def finish_def sameReply_def sameInput_def)

lemma same_failed [same_outcome]:
  "sameInput b rq \<Longrightarrow> sameOutcome (failed e st rq dv) (failed e st (rq\<lparr>Buffer := b\<rparr>) dv)"
  by (simp add: sameOutcome_def failed_def sameReply_def sameInput_def)

lemma same_reply [same_outcome]:
  assumes "unat n \<le> unat (OutputLength rq)" and "\<forall>i < unat n. c i = c' i"
  shows "sameOutcome (finish st (reply n c rq) dv) (finish st (reply n c' (rq\<lparr>Buffer := b\<rparr>)) dv)"
  using assms by (simp add: sameOutcome_def finish_def sameReply_def reply_def)

lemma same_succeed [same_outcome]:
  assumes "sameInput b rq"
  shows "sameOutcome (succeed rq dv) (succeed (rq\<lparr>Buffer := b\<rparr>) dv)"
proof (cases "OutputLength rq \<ge> 4")
  case True
  then show ?thesis
    by (auto simp: succeed_def PhotonicIoctlEchoStatus_def word_le_nat_alt putDword_def putBytes_def
        intro!: same_reply)
next
  case False
  then show ?thesis
    using same_finish [OF assms] by (simp add: succeed_def PhotonicIoctlEchoStatus_def)
qed

lemma sameInput_error: "sameInput b rq \<Longrightarrow> sameInput b (rq\<lparr>Error := e\<rparr>)"
  by (simp add: sameInput_def)

lemma same_succeed_error [same_outcome]:
  "sameInput b rq \<Longrightarrow> sameOutcome (succeed (rq\<lparr>Error := e\<rparr>) dv) (succeed (rq\<lparr>Buffer := b, Error := e\<rparr>) dv)"
proof -
  assume "sameInput b rq"
  moreover have "rq\<lparr>Buffer := b, Error := e\<rparr> = rq\<lparr>Error := e, Buffer := b\<rparr>"
    by simp
  ultimately show ?thesis
    using same_succeed [OF sameInput_error, of b rq e dv] by metis
qed

section \<open>The handlers keep the contract\<close>

lemmas handler_defs =
  PhotonicIoctlSdkVersion_def PhotonicIoctlSerialNumber_def PhotonicIoctlSetCancelTimeout_def
  PhotonicIoctlGetVendorName_def PhotonicIoctlGetModelName_def PhotonicIoctlGetDcamVersion_def
  PhotonicIoctlGetNamesLength_def PhotonicIoctlImageFlip_def PhotonicIoctlGetChannel_def
  PhotonicIoctlGetPacketSize_def PhotonicIoctlInitialize_def PhotonicIoctlPropertyGet_def
  PhotonicIoctlPropertySet_def PhotonicIoctlTriggerSet_def PhotonicIoctlStrobeSet_def
  PhotonicIoctlInvalidateCurrentFormat_def

lemma contractI:
  assumes "\<And>ev k es rq b dv. sameInput b rq \<Longrightarrow> MinInputLength e \<le> InputLength rq \<Longrightarrow>
     MinOutputLength e \<le> OutputLength rq \<Longrightarrow>
     sameOutcome (Handler e ev k es rq dv) (Handler e ev k es (rq\<lparr>Buffer := b\<rparr>) dv)"
  shows "keepsContract e"
  using assms by (simp add: keepsContract_def)

lemma entry_simps [simp]:
  "Handler (entry i h a b) = h" "MinInputLength (entry i h a b) = a" "MinOutputLength (entry i h a b) = b"
  "Handler (entry32 i h a b) = h" "MinInputLength (entry32 i h a b) = a" "MinOutputLength (entry32 i h a b) = b"
  "IoControlCode (entry i h a b) = i" "IoControlCode (entry32 i h a b) = i"
  "Requires32BitCaller (entry i h a b) = False" "Requires32BitCaller (entry32 i h a b) = True"
  by (simp_all add: entry_def entry32_def)

lemma contract_stub: "(\<And>ev k es rq dv. h ev k es rq dv = finish STATUS_NOT_IMPLEMENTED rq dv) \<Longrightarrow> keepsContract (entry i h a b)"
  by (rule contractI) (simp add: same_finish)

lemma contract_SubwindowGet: "keepsContract (entry i (\<lambda>ev k es. PhotonicIoctlSubwindowGet ev) 0 24)"
  by (rule contractI)
    (auto simp: PhotonicIoctlSubwindowGet_def word_le_nat_alt putSubwindow_def putDword_def putBytes_def
      split: prod.splits sum.splits intro!: same_outcome)

lemma sameInput_subwindow:
  assumes "sameInput b rq" and "24 \<le> InputLength rq"
  shows "getSubwindow b = getSubwindow (Buffer rq)"
proof -
  have "24 \<le> unat (InputLength rq)"
    using assms(2) by (simp add: word_le_nat_alt)
  then show ?thesis
    by (simp add: getSubwindow_def sameInput_dword [OF assms(1)])
qed

lemma contract_SubwindowSet: "keepsContract (entry i (\<lambda>ev k es. PhotonicIoctlSubwindowSet) 24 0)"
  by (rule contractI)
    (simp add: PhotonicIoctlSubwindowSet_def sameInput_subwindow same_outcome)

lemma contract_GetPixelFormat: "keepsContract (entry i (\<lambda>ev k es. PhotonicIoctlGetPixelFormat ev) 0 4)"
  by (rule contractI)
    (auto simp: PhotonicIoctlGetPixelFormat_def word_le_nat_alt putDword_def putBytes_def
      split: prod.splits sum.splits intro!: same_outcome)

lemma contract_SetPixelFormat: "keepsContract (entry i (\<lambda>ev k es. PhotonicIoctlSetPixelFormat ev) 4 0)"
  by (rule contractI)
    (auto simp: PhotonicIoctlSetPixelFormat_def word_le_nat_alt sameInput_dword
      split: prod.splits sum.splits intro!: same_outcome)

lemma sameInput_rate:
  assumes "sameInput b rq" and "12 \<le> InputLength rq"
  shows "getRateIndex b = getRateIndex (Buffer rq)"
  using sameInput_dword [OF assms(1), of 4] assms(2) by (simp add: getRateIndex_def word_le_nat_alt)

lemma sameInput_bytes: "sameInput b rq \<Longrightarrow> n < unat (InputLength rq) \<Longrightarrow> b n = Buffer rq n"
  by (simp add: sameInput_def)

lemma contract_EnumFrameRate: "keepsContract (entry i (\<lambda>ev k es. PhotonicIoctlEnumFrameRate ev k) 12 12)"
  by (rule contractI)
    (auto simp: PhotonicIoctlEnumFrameRate_def sameInput_rate word_le_nat_alt sameInput_bytes
      putDword_def putBytes_def split: prod.splits sum.splits intro!: same_outcome)

lemma contract_SetFrameRate: "keepsContract (entry i (\<lambda>ev k es. PhotonicIoctlSetFrameRate ev) 12 0)"
  by (rule contractI)
    (auto simp: PhotonicIoctlSetFrameRate_def sameInput_rate split: prod.splits sum.splits intro!: same_outcome)

lemma contract_GetFrameRate: "keepsContract (entry i (\<lambda>ev k es. PhotonicIoctlGetFrameRate ev k) 0 12)"
  by (rule contractI)
    (auto simp: PhotonicIoctlGetFrameRate_def word_le_nat_alt putDword_def putBytes_def
      split: prod.splits sum.splits intro!: same_outcome)

lemma contract_GetLastError: "keepsContract (entry i (\<lambda>ev k es. PhotonicIoctlGetLastError) 0 4)"
  by (rule contractI)
    (auto simp: PhotonicIoctlGetLastError_def Let_def word_le_nat_alt putDword_def putBytes_def intro!: same_outcome)

lemma contract_InvalidateFormat: "keepsContract (entry i (\<lambda>ev k es. PhotonicIoctlInvalidateCurrentFormat) 0 0)"
  by (rule contractI) (simp add: PhotonicIoctlInvalidateCurrentFormat_def same_finish)

section \<open>The mailbox\<close>

lemma contract_register:
  assumes "sameInput b rq"
  shows "sameOutcome (PhotonicMailboxRegisterAccess ev w rq dv) (PhotonicMailboxRegisterAccess ev w (rq\<lparr>Buffer := b\<rparr>) dv)"
proof (cases "if w then InputLength rq < 16 else InputLength rq < 12 \<or> OutputLength rq < 16")
  case True
  then show ?thesis
    using same_failed [OF assms] by (simp add: PhotonicMailboxRegisterAccess_def Let_def)
next
  case False
  then have len: "12 \<le> unat (InputLength rq)" "w \<Longrightarrow> 16 \<le> unat (InputLength rq)" "\<not> w \<Longrightarrow> 16 \<le> unat (OutputLength rq)"
    by (auto simp: word_less_nat_alt not_less split: if_splits)
  have flags: "mrFlags (getMailboxRegister b) = mrFlags (getMailboxRegister (Buffer rq))"
    "mrAddress (getMailboxRegister b) = mrAddress (getMailboxRegister (Buffer rq))"
    using len(1) by (simp_all add: getMailboxRegister_def sameInput_word [OF assms] sameInput_dword [OF assms])
  have val: "w \<Longrightarrow> mrValue (getMailboxRegister b) = mrValue (getMailboxRegister (Buffer rq))"
    using len(2) by (simp add: getMailboxRegister_def sameInput_dword [OF assms])
  show ?thesis
    using False len flags val assms
    by (auto simp: PhotonicMailboxRegisterAccess_def Let_def putDword_def putBytes_def sameInput_bytes
        split: prod.splits sum.splits intro!: same_outcome)
qed

lemma swapDwords_Suc:
  "swapDwords (Suc n) b = putDword (4 * n) (RtlUlongByteSwap (getDword (4 * n) (swapDwords n b))) (swapDwords n b)"
  by (simp add: swapDwords_def)

lemma swapDwords_0: "swapDwords 0 b = b"
  by (simp add: swapDwords_def)

lemma swapDwords_agree:
  assumes "\<forall>i < m. b i = b' i" and "4 * n \<le> m"
  shows "\<forall>i < m. swapDwords n b i = swapDwords n b' i"
  using assms(2)
proof (induction n)
  case 0
  then show ?case
    using assms(1) by (simp add: swapDwords_0)
next
  case (Suc n)
  then have IH: "\<forall>i < m. swapDwords n b i = swapDwords n b' i"
    by simp
  show ?case
    using IH getDword_agree [OF IH, of "4 * n"] Suc.prems
    by (auto simp: swapDwords_Suc putDword_def putBytes_def)
qed

lemma swapDwords_outside: "4 * n \<le> i \<Longrightarrow> swapDwords n b i = b i"
  by (induction n) (auto simp: swapDwords_0 swapDwords_Suc putDword_def putBytes_def)

lemma ReadBlock_length:
  assumes "Photonic1394ReadBlock ev a n d = (Inr bs, d')"
  shows "length bs = n"
  using assms by (auto simp: Photonic1394ReadBlock_def PhotonicAsyncTransfer_def split: if_splits prod.splits bool.splits)

lemma putBytes_all: "i < length bs \<Longrightarrow> putBytes 0 bs b i = bs ! i"
  by (simp add: putBytes_def)

lemma dwords_of: "4 * unat ((n :: ULONG) div 4) \<le> unat n"
  by (simp add: unat_div)

lemma contract_raw:
  assumes "sameInput b rq"
  shows "sameOutcome (PhotonicMailboxRawPacket ev rq dv) (PhotonicMailboxRawPacket ev (rq\<lparr>Buffer := b\<rparr>) dv)"
proof (cases "InputLength rq mod 4 \<noteq> 0 \<or> OutputLength rq mod 4 \<noteq> 0 \<or>
    InputLength rq > PHOTONIC_MAILBOX_MAX_PACKET_BYTES \<or> OutputLength rq > PHOTONIC_MAILBOX_MAX_PACKET_BYTES")
  case True
  then show ?thesis
    using same_failed [OF assms] by (auto simp: PhotonicMailboxRawPacket_def)
next
  case False
  let ?n = "unat (InputLength rq div 4)"
  define b1 where "b1 = swapDwords ?n (Buffer rq)"
  define b2 where "b2 = swapDwords ?n b"
  have "\<forall>i < unat (InputLength rq). Buffer rq i = b i"
    using assms by (simp add: sameInput_def)
  then have agree: "\<forall>i < unat (InputLength rq). b1 i = b2 i"
    unfolding b1_def b2_def by (rule swapDwords_agree) (rule dwords_of)
  then have same: "sameInput b2 (rq\<lparr>Buffer := b1\<rparr>)"
    using assms by (simp add: sameInput_def)
  have sent: "map b2 [0..<unat (InputLength rq)] = map b1 [0..<unat (InputLength rq)]"
    using agree by simp
  have received: "sameOutcome
      (finish STATUS_SUCCESS (reply (ucast (OutputLength rq)) (swapDwords (unat (OutputLength rq div 4)) (putBytes 0 bs b1)) rq) dv2)
      (finish STATUS_SUCCESS (reply (ucast (OutputLength rq)) (swapDwords (unat (OutputLength rq div 4)) (putBytes 0 bs b2)) (rq\<lparr>Buffer := b\<rparr>)) dv2)"
    if "onDevice (Photonic1394ReadBlock ev mailboxAddress (unat (OutputLength rq))) dv1 = (Inr bs, dv2)" for dv1 dv2 bs
  proof (rule same_reply)
    have "length bs = unat (OutputLength rq)"
      using that by (auto simp: onDevice_def split: prod.splits dest: ReadBlock_length)
    then have "\<forall>i < unat (OutputLength rq). putBytes 0 bs b1 i = putBytes 0 bs b2 i"
      by (simp add: putBytes_all)
    then show "\<forall>i < unat (ucast (OutputLength rq) :: ULONG64). swapDwords (unat (OutputLength rq div 4)) (putBytes 0 bs b1) i =
        swapDwords (unat (OutputLength rq div 4)) (putBytes 0 bs b2) i"
      unfolding unat_widen by (rule swapDwords_agree) (rule dwords_of)
  qed (simp add: unat_widen)
  show ?thesis
    using False received same_failed [OF same] same_finish [OF same]
    by (auto simp: PhotonicMailboxRawPacket_def Let_def sent simp flip: b1_def b2_def split: prod.splits sum.splits)
qed

lemma contract_Mailbox: "keepsContract (entry i (\<lambda>ev k es. PhotonicIoctlMailbox ev) 4 0)"
proof (rule contractI)
  fix ev :: "'b env" and k es rq b and dv :: "'b device"
  assume same: "sameInput b rq"
    and "MinInputLength (entry i (\<lambda>ev k es. PhotonicIoctlMailbox ev) 4 0 :: 'b dispatch_entry) \<le> InputLength rq"
  then have "getDword 0 b = getDword 0 (Buffer rq)"
    by (simp add: sameInput_dword word_le_nat_alt)
  then show "sameOutcome (Handler (entry i (\<lambda>ev k es. PhotonicIoctlMailbox ev) 4 0) ev k es rq dv)
      (Handler (entry i (\<lambda>ev k es. PhotonicIoctlMailbox ev) 4 0) ev k es (rq\<lparr>Buffer := b\<rparr>) dv)"
    by (auto simp: PhotonicIoctlMailbox_def Let_def contract_register [OF same] contract_raw [OF same]
        same_failed [OF same] same_finish [OF same])
qed

section \<open>The capture slot\<close>

lemma checkOwner_buffer [simp]:
  "PhotonicIoctlCaptureCheckOwner (rq\<lparr>Buffer := b\<rparr>) c = PhotonicIoctlCaptureCheckOwner rq c"
  by (simp add: PhotonicIoctlCaptureCheckOwner_def)

lemma contract_prepareSlot:
  "sameInput b rq \<Longrightarrow> sameOutcome (prepareSlot ev n rq dv) (prepareSlot ev n (rq\<lparr>Buffer := b\<rparr>) dv)"
  by (auto simp: prepareSlot_def Let_def split: prod.splits sum.splits bool.splits option.splits intro!: same_outcome)

lemma contract_prepare:
  "sameInput b rq \<Longrightarrow> sameOutcome (PhotonicIoctlCapturePrepare ev es n re rq dv)
     (PhotonicIoctlCapturePrepare ev es n re (rq\<lparr>Buffer := b\<rparr>) dv)"
  by (auto simp: PhotonicIoctlCapturePrepare_def Let_def contract_prepareSlot split: option.splits intro!: same_outcome)

lemma contract_start:
  "sameInput b rq \<Longrightarrow> sameOutcome (PhotonicIoctlCaptureStart ev es v p rq dv)
     (PhotonicIoctlCaptureStart ev es v p (rq\<lparr>Buffer := b\<rparr>) dv)"
  by (auto simp: PhotonicIoctlCaptureStart_def Let_def split: option.splits intro!: same_outcome)

lemma contract_stop:
  "sameInput b rq \<Longrightarrow> sameOutcome (PhotonicIoctlCaptureStopRequest ev es rq dv)
     (PhotonicIoctlCaptureStopRequest ev es (rq\<lparr>Buffer := b\<rparr>) dv)"
  by (auto simp: PhotonicIoctlCaptureStopRequest_def split: option.splits intro!: same_outcome)

lemma contract_unprepare:
  "sameInput b rq \<Longrightarrow> sameOutcome (PhotonicIoctlCaptureUnprepareRequest ev es rq dv)
     (PhotonicIoctlCaptureUnprepareRequest ev es (rq\<lparr>Buffer := b\<rparr>) dv)"
  by (auto simp: PhotonicIoctlCaptureUnprepareRequest_def split: option.splits intro!: same_outcome)

lemma contract_families:
  "keepsContract (entry i (\<lambda>ev k es. PhotonicIoctlPrepareVideo ev es) 8 0)"
  "keepsContract (entry i (\<lambda>ev k es. PhotonicIoctlStartVideo ev es) 4 0)"
  "keepsContract (entry i (\<lambda>ev k es. PhotonicIoctlStopVideo ev es) 0 0)"
  "keepsContract (entry i (\<lambda>ev k es. PhotonicIoctlUnprepareVideo ev es) 0 0)"
  "keepsContract (entry i (\<lambda>ev k es. PhotonicIoctlPrepareImager ev es) 8 0)"
  "keepsContract (entry i (\<lambda>ev k es. PhotonicIoctlStartImager ev es) 4 0)"
  "keepsContract (entry i (\<lambda>ev k es. PhotonicIoctlStopImager ev es) 0 0)"
  "keepsContract (entry i (\<lambda>ev k es. PhotonicIoctlUnprepareImager ev es) 0 0)"
  by (rule contractI; simp add: PhotonicIoctlPrepareVideo_def PhotonicIoctlStartVideo_def
      PhotonicIoctlStopVideo_def PhotonicIoctlUnprepareVideo_def PhotonicIoctlPrepareImager_def
      PhotonicIoctlStartImager_def PhotonicIoctlStopImager_def PhotonicIoctlUnprepareImager_def
      sameInput_dword word_le_nat_alt contract_prepare contract_start contract_stop contract_unprepare
      same_failed Let_def)+

lemma sameInput_map:
  assumes "sameInput b rq" and "12 \<le> InputLength rq"
  shows "getMapVideoFrame b = getMapVideoFrame (Buffer rq)" "getRegisterEvent b = getRegisterEvent (Buffer rq)"
  using sameInput_dword [OF assms(1)] assms(2)
  by (simp_all add: getMapVideoFrame_def getRegisterEvent_def word_le_nat_alt)

lemma contract_Map: "keepsContract (entry32 i PhotonicIoctlMapVideoFrame 12 0)"
  by (rule contractI)
    (auto simp: PhotonicIoctlMapVideoFrame_def Let_def sameInput_map split: option.splits prod.splits intro!: same_outcome)

lemma contract_Unmap: "keepsContract (entry i (\<lambda>ev k es. PhotonicIoctlUnmapVideoFrame ev es) 0 0)"
  by (rule contractI)
    (auto simp: PhotonicIoctlUnmapVideoFrame_def split: option.splits intro!: same_outcome)

lemma contract_TransferInfo: "keepsContract (entry i (\<lambda>ev k es. PhotonicIoctlGetTransferInfo) 0 12)"
  by (rule contractI)
    (auto simp: PhotonicIoctlGetTransferInfo_def word_le_nat_alt putTransferInfo_def putDword_def putBytes_def
      split: option.splits intro!: same_outcome)

lemma contract_Register: "keepsContract (entry32 i (\<lambda>ev k es. PhotonicIoctlRegisterEvent ev k) 12 0)"
  by (rule contractI)
    (auto simp: PhotonicIoctlRegisterEvent_def Let_def sameInput_map split: option.splits prod.splits intro!: same_outcome)

lemma contract_Unregister: "keepsContract (entry32 i (\<lambda>ev k es. PhotonicIoctlUnregisterEvent) 12 0)"
  by (rule contractI)
    (auto simp: PhotonicIoctlUnregisterEvent_def Let_def sameInput_map split: option.splits prod.splits intro!: same_outcome)

lemma contract_Trigger: "keepsContract (entry i (\<lambda>ev k es. PhotonicIoctlSwTrigger ev es) 0 0)"
  by (rule contractI) (auto simp: PhotonicIoctlSwTrigger_def split: option.splits intro!: same_outcome)

section \<open>Writes stay inside the buffer\<close>

text \<open>The system buffer is as long as the larger of the two lengths.\<close>

definition insideOutcome :: "request \<Rightarrow> 'b outcome \<Rightarrow> bool" where
  "insideOutcome rq r \<longleftrightarrow>
     (case r of
        None \<Rightarrow> True
      | Some (status, rq1, dv) \<Rightarrow>
          rq1 = rq\<lparr>Buffer := Buffer rq1, Information := Information rq1, Error := Error rq1\<rparr> \<and>
          (\<forall>n \<ge> max (unat (InputLength rq)) (unat (OutputLength rq)). Buffer rq1 n = Buffer rq n))"

definition keepsBounds :: "'b dispatch_entry \<Rightarrow> bool" where
  "keepsBounds e \<longleftrightarrow> (\<forall>ev k es rq dv. MinInputLength e \<le> InputLength rq \<longrightarrow> MinOutputLength e \<le> OutputLength rq \<longrightarrow>
     insideOutcome rq (Handler e ev k es rq dv))"

lemma inside_none [same_outcome]: "insideOutcome rq None"
  by (simp add: insideOutcome_def)

lemma inside_finish [same_outcome]: "insideOutcome rq (finish st rq dv)"
  by (simp add: insideOutcome_def finish_def)

lemma inside_failed [same_outcome]: "insideOutcome rq (failed e st rq dv)"
  by (simp add: insideOutcome_def failed_def)

lemma inside_failed_swapped:
  "(\<And>n. max (unat (InputLength rq)) (unat (OutputLength rq)) \<le> n \<Longrightarrow> c n = Buffer rq n) \<Longrightarrow>
   insideOutcome rq (failed e st (rq\<lparr>Buffer := c\<rparr>) dv)"
  "(\<And>n. max (unat (InputLength rq)) (unat (OutputLength rq)) \<le> n \<Longrightarrow> c n = Buffer rq n) \<Longrightarrow>
   insideOutcome rq (finish st (rq\<lparr>Buffer := c\<rparr>) dv)"
  by (simp_all add: insideOutcome_def failed_def finish_def)

lemma inside_reply:
  "(\<And>n. max (unat (InputLength rq)) (unat (OutputLength rq)) \<le> n \<Longrightarrow> c n = Buffer rq n) \<Longrightarrow>
   insideOutcome rq (finish st (reply m c rq) dv)"
  by (simp add: insideOutcome_def finish_def reply_def)

lemma inside_succeed [same_outcome]: "insideOutcome rq (succeed rq dv)" "insideOutcome rq (succeed (rq\<lparr>Error := e\<rparr>) dv)"
  by (auto simp: insideOutcome_def succeed_def finish_def PhotonicIoctlEchoStatus_def reply_def word_le_nat_alt
      putDword_def putBytes_def)

lemma boundsI:
  assumes "\<And>ev k es rq dv. MinInputLength e \<le> InputLength rq \<Longrightarrow> MinOutputLength e \<le> OutputLength rq \<Longrightarrow>
     insideOutcome rq (Handler e ev k es rq dv)"
  shows "keepsBounds e"
  using assms by (simp add: keepsBounds_def)

lemma bounds_stub: "(\<And>ev k es rq dv. h ev k es rq dv = finish STATUS_NOT_IMPLEMENTED rq dv) \<Longrightarrow> keepsBounds (entry i h a b)"
  by (rule boundsI) (simp add: inside_finish)

lemma bounds_camera:
  "keepsBounds (entry i (\<lambda>ev k es. PhotonicIoctlSubwindowGet ev) 0 24)"
  "keepsBounds (entry i (\<lambda>ev k es. PhotonicIoctlSubwindowSet) 24 0)"
  "keepsBounds (entry i (\<lambda>ev k es. PhotonicIoctlGetPixelFormat ev) 0 4)"
  "keepsBounds (entry i (\<lambda>ev k es. PhotonicIoctlSetPixelFormat ev) 4 0)"
  "keepsBounds (entry i (\<lambda>ev k es. PhotonicIoctlEnumFrameRate ev k) 12 12)"
  "keepsBounds (entry i (\<lambda>ev k es. PhotonicIoctlSetFrameRate ev) 12 0)"
  "keepsBounds (entry i (\<lambda>ev k es. PhotonicIoctlGetFrameRate ev k) 0 12)"
  "keepsBounds (entry i (\<lambda>ev k es. PhotonicIoctlGetLastError) 0 4)"
  "keepsBounds (entry i (\<lambda>ev k es. PhotonicIoctlInvalidateCurrentFormat) 0 0)"
  by (rule boundsI; auto simp: PhotonicIoctlSubwindowGet_def PhotonicIoctlSubwindowSet_def
      PhotonicIoctlGetPixelFormat_def PhotonicIoctlSetPixelFormat_def PhotonicIoctlEnumFrameRate_def
      PhotonicIoctlSetFrameRate_def PhotonicIoctlGetFrameRate_def PhotonicIoctlGetLastError_def
      PhotonicIoctlInvalidateCurrentFormat_def Let_def word_le_nat_alt putSubwindow_def putDword_def putBytes_def
      split: prod.splits sum.splits intro!: same_outcome inside_reply)+

lemma inside_register: "insideOutcome rq (PhotonicMailboxRegisterAccess ev w rq dv)"
  by (auto simp: PhotonicMailboxRegisterAccess_def Let_def word_less_nat_alt putDword_def putBytes_def
      split: prod.splits sum.splits intro!: same_outcome inside_reply)

lemma inside_raw: "insideOutcome rq (PhotonicMailboxRawPacket ev rq dv)"
proof -
  have inside: "swapDwords (unat (InputLength rq div 4)) b n = b n" "swapDwords (unat (OutputLength rq div 4)) b n = b n"
    if "max (unat (InputLength rq)) (unat (OutputLength rq)) \<le> n" for b n
    using dwords_of [of "InputLength rq"] dwords_of [of "OutputLength rq"] that by (simp_all add: swapDwords_outside)
  have block: "length bs = unat (OutputLength rq)"
    if "onDevice (Photonic1394ReadBlock ev mailboxAddress (unat (OutputLength rq))) dv1 = (Inr bs, dv2)" for dv1 dv2 bs
    using that by (auto simp: onDevice_def split: prod.splits dest: ReadBlock_length)
  show ?thesis
    unfolding PhotonicMailboxRawPacket_def Let_def
    by (auto split: prod.splits sum.splits dest: block simp: inside putBytes_outside
        intro!: same_outcome inside_failed_swapped inside_reply)
qed

lemma bounds_Mailbox: "keepsBounds (entry i (\<lambda>ev k es. PhotonicIoctlMailbox ev) 4 0)"
  by (rule boundsI) (auto simp: PhotonicIoctlMailbox_def Let_def inside_register inside_raw intro!: same_outcome)

lemma inside_slot:
  "insideOutcome rq (prepareSlot ev n rq dv)"
  "insideOutcome rq (PhotonicIoctlCaptureStart ev es v p rq dv)"
  "insideOutcome rq (PhotonicIoctlCaptureStopRequest ev es rq dv)"
  "insideOutcome rq (PhotonicIoctlCaptureUnprepareRequest ev es rq dv)"
  by (auto simp: prepareSlot_def PhotonicIoctlCaptureStart_def PhotonicIoctlCaptureStopRequest_def
      PhotonicIoctlCaptureUnprepareRequest_def Let_def
      split: prod.splits sum.splits bool.splits option.splits intro!: same_outcome)

lemma inside_prepare: "insideOutcome rq (PhotonicIoctlCapturePrepare ev es n re rq dv)"
  by (auto simp: PhotonicIoctlCapturePrepare_def Let_def inside_slot split: option.splits intro!: same_outcome)

lemma bounds_slot:
  "keepsBounds (entry i (\<lambda>ev k es. PhotonicIoctlPrepareVideo ev es) 8 0)"
  "keepsBounds (entry i (\<lambda>ev k es. PhotonicIoctlStartVideo ev es) 4 0)"
  "keepsBounds (entry i (\<lambda>ev k es. PhotonicIoctlStopVideo ev es) 0 0)"
  "keepsBounds (entry i (\<lambda>ev k es. PhotonicIoctlUnprepareVideo ev es) 0 0)"
  "keepsBounds (entry i (\<lambda>ev k es. PhotonicIoctlPrepareImager ev es) 8 0)"
  "keepsBounds (entry i (\<lambda>ev k es. PhotonicIoctlStartImager ev es) 4 0)"
  "keepsBounds (entry i (\<lambda>ev k es. PhotonicIoctlStopImager ev es) 0 0)"
  "keepsBounds (entry i (\<lambda>ev k es. PhotonicIoctlUnprepareImager ev es) 0 0)"
  "keepsBounds (entry32 i PhotonicIoctlMapVideoFrame 12 0)"
  "keepsBounds (entry i (\<lambda>ev k es. PhotonicIoctlUnmapVideoFrame ev es) 0 0)"
  "keepsBounds (entry i (\<lambda>ev k es. PhotonicIoctlGetTransferInfo) 0 12)"
  "keepsBounds (entry32 i (\<lambda>ev k es. PhotonicIoctlRegisterEvent ev k) 12 0)"
  "keepsBounds (entry32 i (\<lambda>ev k es. PhotonicIoctlUnregisterEvent) 12 0)"
  "keepsBounds (entry i (\<lambda>ev k es. PhotonicIoctlSwTrigger ev es) 0 0)"
  by (rule boundsI; auto simp: PhotonicIoctlPrepareVideo_def PhotonicIoctlStartVideo_def
      PhotonicIoctlStopVideo_def PhotonicIoctlUnprepareVideo_def PhotonicIoctlPrepareImager_def
      PhotonicIoctlStartImager_def PhotonicIoctlStopImager_def PhotonicIoctlUnprepareImager_def
      PhotonicIoctlMapVideoFrame_def PhotonicIoctlUnmapVideoFrame_def PhotonicIoctlGetTransferInfo_def
      PhotonicIoctlRegisterEvent_def PhotonicIoctlUnregisterEvent_def PhotonicIoctlSwTrigger_def
      inside_slot inside_prepare Let_def word_le_nat_alt putTransferInfo_def putDword_def putBytes_def
      split: option.splits prod.splits intro!: same_outcome inside_reply)+

section \<open>The dispatch table\<close>

locale dispatch_table =
  fixes table :: "'b dispatch_entry list"
  assumes contract: "e \<in> set table \<Longrightarrow> keepsContract e"
    and bounds: "e \<in> set table \<Longrightarrow> keepsBounds e"
begin

lemma found: "find P table = Some e \<Longrightarrow> e \<in> set table"
  by (auto simp: find_Some_iff)

lemma run_same:
  assumes "find P table = Some e" and "sameInput b rq"
  shows "sameOutcome (runEntry e ev k es rq dv) (runEntry e ev k es (rq\<lparr>Buffer := b\<rparr>) dv)"
proof -
  have handler: "sameOutcome (Handler e ev k es rq dv) (Handler e ev k es (rq\<lparr>Buffer := b\<rparr>) dv)"
    if "MinInputLength e \<le> InputLength rq" "MinOutputLength e \<le> OutputLength rq"
    using contract [OF found [OF assms(1)]] assms(2) that by (simp add: keepsContract_def)
  let ?f = "\<lambda>r :: 'b outcome. case r of None \<Rightarrow> None
      | Some (status, rq1, dv1) \<Rightarrow> Some (status, rq1, if Error rq1 \<noteq> PL_SUCCESS then dv1\<lparr>LastError := Error rq1\<rparr> else dv1)"
  have commit: "sameOutcome (?f r) (?f r')" if agree: "sameOutcome r r'" for r r'
  proof (cases r)
    case (Some x)
    obtain status rq1 dv1 where x: "x = (status, rq1, dv1)"
      by (cases x)
    obtain rq2 where r': "r' = Some (status, rq2, dv1)" and same: "sameReply rq1 rq2"
      using agree by (auto simp: sameOutcome_def Some x)
    have "Error rq2 = Error rq1"
      using same unfolding sameReply_def by (metis request.select_convs(6) request.surjective request.update_convs(2))
    then show ?thesis
      using same by (simp add: sameOutcome_def Some x r')
  qed (use agree in \<open>simp add: sameOutcome_def\<close>)
  show ?thesis
    unfolding runEntry_def
    by (rule commit) (use handler same_finish [OF assms(2)] same_failed [OF assms(2)] in \<open>auto simp: not_less\<close>)
qed

lemma run_inside:
  assumes "find P table = Some e"
  shows "insideOutcome rq (runEntry e ev k es rq dv)"
proof -
  have "insideOutcome rq (Handler e ev k es rq dv)"
    if "MinInputLength e \<le> InputLength rq" "MinOutputLength e \<le> OutputLength rq"
    using bounds [OF found [OF assms]] that by (simp add: keepsBounds_def)
  moreover have commit: "insideOutcome rq r \<Longrightarrow> insideOutcome rq (case r of None \<Rightarrow> None
      | Some (status, rq1, dv1) \<Rightarrow> Some (status, rq1, if Error rq1 \<noteq> PL_SUCCESS then dv1\<lparr>LastError := Error rq1\<rparr> else dv1))"
    for r :: "'b outcome"
    by (auto simp: insideOutcome_def split: option.splits)
  ultimately show ?thesis
    unfolding runEntry_def by (intro commit) (auto simp: not_less intro!: same_outcome)
qed

end

interpretation ioctl: dispatch_table "g_PhotonicIoctlDispatch :: 'b dispatch_entry list"
proof
  fix e :: "'b dispatch_entry"
  assume e: "e \<in> set g_PhotonicIoctlDispatch"
  show "keepsContract e"
    using e unfolding g_PhotonicIoctlDispatch_def list.set insert_iff empty_iff
    by (elim disjE; simp add: contract_stub handler_defs contract_SubwindowGet contract_SubwindowSet contract_GetPixelFormat contract_SetPixelFormat
        contract_EnumFrameRate contract_SetFrameRate contract_GetFrameRate contract_GetLastError
        contract_InvalidateFormat contract_Mailbox contract_families contract_Map contract_Unmap
        contract_TransferInfo contract_Register contract_Unregister contract_Trigger)
  show "keepsBounds e"
    using e unfolding g_PhotonicIoctlDispatch_def list.set insert_iff empty_iff
    by (elim disjE; simp add: bounds_stub handler_defs bounds_camera bounds_Mailbox bounds_slot)
qed

end
