(* ===== verification/Ioctl_Session.thy ===== *)
theory Ioctl_Session
  imports Ioctl_Contract
begin

text \<open>
  What a handler may do to the device: the second half of the dispatch table's contract.  A handler
  leaves LastError alone, keeps the ownership of the capture session consistent, and touches the
  slot of another file object's session in nothing but the shared register state.
\<close>

section \<open>The shared state\<close>

text \<open>The devices agree in everything but the register state.\<close>

definition onlyDrv :: "'b device \<Rightarrow> 'b device \<Rightarrow> bool" where
  "onlyDrv dv dv' \<longleftrightarrow> (\<exists>d. dv' = setDrv d dv)"

lemma drv_setDrv [simp]: "drvOf (setDrv d dv) = d"
  by (simp add: drvOf_def setDrv_def setWorld_def split: option.splits)

lemma setDrv_setDrv [simp]: "setDrv d (setDrv d' dv) = setDrv d dv"
  by (simp add: setDrv_def setWorld_def option.map_comp comp_def split: option.splits)

lemma setDrv_drvOf [simp]: "setDrv (drvOf dv) dv = dv"
  by (cases dv) (simp add: setDrv_def drvOf_def setWorld_def split: option.splits)

lemma onlyDrv_refl [intro, simp]: "onlyDrv dv dv"
  unfolding onlyDrv_def by (metis setDrv_drvOf)

lemma onlyDrv_set [intro, simp]: "onlyDrv dv (setDrv d dv)"
  unfolding onlyDrv_def by metis

lemma onlyDrv_trans: "onlyDrv dv dv1 \<Longrightarrow> onlyDrv dv1 dv2 \<Longrightarrow> onlyDrv dv dv2"
  unfolding onlyDrv_def by (metis setDrv_setDrv)

lemma onlyDrv_setDrv [simp]: "onlyDrv (setDrv d dv) dv' = onlyDrv dv dv'"
  unfolding onlyDrv_def by simp

lemma onlyDrv_again: "onlyDrv dv dv1 \<Longrightarrow> onlyDrv dv (setDrv d dv1)"
  unfolding onlyDrv_def by (metis setDrv_setDrv)

lemma onlyDrv_onDevice: "onDevice m dv = (r, dv') \<Longrightarrow> onlyDrv dv dv'"
  by (auto simp: onDevice_def split: prod.splits)

lemma onDevice_after: "onDevice m dv1 = (r, dv2) \<Longrightarrow> onlyDrv dv dv1 \<Longrightarrow> onlyDrv dv dv2"
  using onlyDrv_onDevice onlyDrv_trans by blast

lemma setDrv_fields [simp]:
  "LastError (setDrv d dv) = LastError dv" "ActiveCaptureStream (setDrv d dv) = ActiveCaptureStream dv"
  "VideoStream (setDrv d dv) = None \<longleftrightarrow> VideoStream dv = None"
  "IoctlCapture (setDrv d dv) = None \<longleftrightarrow> IoctlCapture dv = None"
  "Retired (setDrv d dv) = Retired dv"
  by (simp_all add: setDrv_def setWorld_def split: option.splits)

lemma setWorld_fields [simp]:
  "LastError (setWorld w dv) = LastError dv" "ActiveCaptureStream (setWorld w dv) = ActiveCaptureStream dv"
  "VideoStream (setWorld w dv) = VideoStream dv" "IoctlCapture (setWorld w dv) = None \<longleftrightarrow> IoctlCapture dv = None"
  "Retired (setWorld w dv) = Retired dv"
  by (simp_all add: setWorld_def)

section \<open>One session at a time\<close>

definition oneFrontEnd :: "'b device \<Rightarrow> bool" where
  "oneFrontEnd dv \<longleftrightarrow> (VideoStream dv \<noteq> None \<longleftrightarrow> ActiveCaptureStream dv = DirectShowStream) \<and>
     (IoctlCapture dv \<noteq> None \<longleftrightarrow> ActiveCaptureStream dv = IoctlStream)"

lemma oneFrontEnd_setDrv [simp]: "oneFrontEnd (setDrv d dv) = oneFrontEnd dv"
  by (simp add: oneFrontEnd_def)

lemma oneFrontEnd_setWorld [simp]: "oneFrontEnd (setWorld w dv) = oneFrontEnd dv"
  by (simp add: oneFrontEnd_def)

lemma oneFrontEnd_onlyDrv: "onlyDrv dv dv' \<Longrightarrow> oneFrontEnd dv' = oneFrontEnd dv"
  by (auto simp: onlyDrv_def)

section \<open>The contract\<close>

definition foreign :: "request \<Rightarrow> 'b device \<Rightarrow> bool" where
  "foreign rq dv \<longleftrightarrow> (\<exists>c. IoctlCapture dv = Some c \<and> icFileObject c \<noteq> rqFileObject rq)"

definition sessionOutcome :: "request \<Rightarrow> 'b device \<Rightarrow> 'b outcome \<Rightarrow> bool" where
  "sessionOutcome rq dv r \<longleftrightarrow>
     (case r of
        None \<Rightarrow> True
      | Some (status, rq', dv') \<Rightarrow> LastError dv' = LastError dv \<and> (oneFrontEnd dv \<longrightarrow> oneFrontEnd dv') \<and>
          (foreign rq dv \<longrightarrow> onlyDrv dv dv'))"

definition keepsSession :: "'b dispatch_entry \<Rightarrow> bool" where
  "keepsSession e \<longleftrightarrow> (\<forall>ev k es rq dv. sessionOutcome rq dv (Handler e ev k es rq dv))"

named_theorems session_outcome

lemma session_none [session_outcome]: "sessionOutcome rq dv None"
  by (simp add: sessionOutcome_def)

lemma session_register:
  assumes "onlyDrv dv dv'"
  shows "sessionOutcome rq dv (finish st rq' dv')" "sessionOutcome rq dv (failed e st rq' dv')"
    "sessionOutcome rq dv (succeed rq' dv')"
  using assms by (auto simp: sessionOutcome_def finish_def failed_def succeed_def onlyDrv_def)

lemma session_same [session_outcome]:
  "sessionOutcome rq dv (finish st rq' dv)" "sessionOutcome rq dv (failed e st rq' dv)"
  "sessionOutcome rq dv (succeed rq' dv)"
  by (rule session_register; simp)+

lemma session_owner:
  assumes "\<not> foreign rq dv" and "LastError dv' = LastError dv" and "oneFrontEnd dv \<Longrightarrow> oneFrontEnd dv'"
  shows "sessionOutcome rq dv (finish st rq' dv')" "sessionOutcome rq dv (failed e st rq' dv')"
    "sessionOutcome rq dv (succeed rq' dv')"
  using assms by (auto simp: sessionOutcome_def finish_def failed_def succeed_def)

lemma sessionI: "(\<And>ev k es rq dv. sessionOutcome rq dv (Handler e ev k es rq dv)) \<Longrightarrow> keepsSession e"
  by (simp add: keepsSession_def)

lemma session_stub: "(\<And>ev k es rq dv. h ev k es rq dv = finish STATUS_NOT_IMPLEMENTED rq dv) \<Longrightarrow> keepsSession (entry i h a b)"
  by (rule sessionI) (simp add: session_same)

text \<open>Handlers that only operate on the registers.\<close>

definition onlyRegisters :: "'b device \<Rightarrow> 'b outcome \<Rightarrow> bool" where
  "onlyRegisters dv r \<longleftrightarrow> (case r of None \<Rightarrow> True | Some (status, rq', dv') \<Rightarrow> onlyDrv dv dv')"

lemma registers_result:
  assumes "onlyDrv dv dv'"
  shows "onlyRegisters dv (finish st rq' dv')" "onlyRegisters dv (failed e st rq' dv')"
    "onlyRegisters dv (succeed rq' dv')"
  using assms by (auto simp: onlyRegisters_def finish_def failed_def succeed_def)

lemma registers_onDevice:
  assumes "onlyDrv dv dv0" and "\<And>r dv1. onlyDrv dv dv1 \<Longrightarrow> onlyRegisters dv (f r dv1)"
  shows "onlyRegisters dv (case onDevice m dv0 of (r, dv1) \<Rightarrow> f r dv1)"
proof (cases "onDevice m dv0")
  case (Pair r dv1)
  then show ?thesis
    using assms(2) [OF onDevice_after [OF Pair assms(1)]] by simp
qed

lemma registers_sum:
  "(\<And>st. onlyRegisters dv (f st)) \<Longrightarrow> (\<And>v. onlyRegisters dv (g v)) \<Longrightarrow> onlyRegisters dv (case r of Inl st \<Rightarrow> f st | Inr v \<Rightarrow> g v)"
  by (simp split: sum.splits)

lemma registers_if:
  "onlyRegisters dv a \<Longrightarrow> onlyRegisters dv b \<Longrightarrow> onlyRegisters dv (if p then a else b)"
  by simp

lemmas registers_intros = registers_if registers_sum registers_onDevice registers_result onlyDrv_refl

lemma registers_camera:
  "onlyRegisters dv (PhotonicIoctlSubwindowGet ev rq dv)" "onlyRegisters dv (PhotonicIoctlSubwindowSet rq dv)"
  "onlyRegisters dv (PhotonicIoctlGetPixelFormat ev rq dv)" "onlyRegisters dv (PhotonicIoctlSetPixelFormat ev rq dv)"
  "onlyRegisters dv (PhotonicIoctlEnumFrameRate ev k rq dv)" "onlyRegisters dv (PhotonicIoctlSetFrameRate ev rq dv)"
  "onlyRegisters dv (PhotonicIoctlGetFrameRate ev k rq dv)" "onlyRegisters dv (PhotonicIoctlInvalidateCurrentFormat rq dv)"
  by (unfold PhotonicIoctlSubwindowGet_def PhotonicIoctlSubwindowSet_def
      PhotonicIoctlGetPixelFormat_def PhotonicIoctlSetPixelFormat_def PhotonicIoctlEnumFrameRate_def
      PhotonicIoctlSetFrameRate_def PhotonicIoctlGetFrameRate_def PhotonicIoctlInvalidateCurrentFormat_def;
      intro registers_intros; assumption)+

lemma registers_Mailbox: "onlyRegisters dv (PhotonicIoctlMailbox ev rq dv)"
  by (unfold PhotonicIoctlMailbox_def PhotonicMailboxRegisterAccess_def
      PhotonicMailboxRawPacket_def Let_def; intro registers_intros; assumption)

lemma session_registers: "onlyRegisters dv r \<Longrightarrow> sessionOutcome rq dv r"
  by (auto simp: onlyRegisters_def sessionOutcome_def onlyDrv_def split: option.splits prod.splits)

lemma session_camera:
  "keepsSession (entry i (\<lambda>ev k es. PhotonicIoctlSubwindowGet ev) a b)"
  "keepsSession (entry i (\<lambda>ev k es. PhotonicIoctlSubwindowSet) a b)"
  "keepsSession (entry i (\<lambda>ev k es. PhotonicIoctlGetPixelFormat ev) a b)"
  "keepsSession (entry i (\<lambda>ev k es. PhotonicIoctlSetPixelFormat ev) a b)"
  "keepsSession (entry i (\<lambda>ev k es. PhotonicIoctlEnumFrameRate ev k) a b)"
  "keepsSession (entry i (\<lambda>ev k es. PhotonicIoctlSetFrameRate ev) a b)"
  "keepsSession (entry i (\<lambda>ev k es. PhotonicIoctlGetFrameRate ev k) a b)"
  "keepsSession (entry i (\<lambda>ev k es. PhotonicIoctlInvalidateCurrentFormat) a b)"
  "keepsSession (entry i (\<lambda>ev k es. PhotonicIoctlMailbox ev) a b)"
  by (rule sessionI; simp add: session_registers registers_camera registers_Mailbox)+

section \<open>The capture slot\<close>

lemma foreign_owner:
  "IoctlCapture dv = Some c \<Longrightarrow> PhotonicIoctlCaptureCheckOwner rq c \<Longrightarrow> \<not> foreign rq dv"
  by (simp add: foreign_def PhotonicIoctlCaptureCheckOwner_def)

lemma foreign_none: "IoctlCapture dv = None \<Longrightarrow> \<not> foreign rq dv"
  by (simp add: foreign_def)

lemma session_succeeds:
  assumes "\<not> foreign rq dv" and "LastError dv' = LastError dv" and "oneFrontEnd dv \<Longrightarrow> oneFrontEnd dv'"
  shows "sessionOutcome rq dv (succeed (rq'\<lparr>Error := e\<rparr>) dv')"
  using session_owner(3) [OF assms] .

lemma released:
  assumes "PhotonicIoctlCaptureRelease ev es dv = Some dv'"
  shows "LastError dv' = LastError dv" "oneFrontEnd dv \<Longrightarrow> oneFrontEnd dv'" "IoctlCapture dv' = None"
    "VideoStream dv' = VideoStream dv"
  using assms by (auto simp: PhotonicIoctlCaptureRelease_def oneFrontEnd_def split: option.splits)

lemma session_prepareSlot:
  assumes "ActiveCaptureStream dv = NoStream" and "\<not> foreign rq dv0" and "LastError dv = LastError dv0"
    and "oneFrontEnd dv0 \<Longrightarrow> oneFrontEnd dv"
  shows "sessionOutcome rq dv0 (prepareSlot ev n rq dv)"
proof -
  have fails: "sessionOutcome rq dv0 (failed e st rq dv1)" if "onlyDrv dv dv1" for e st dv1
    using assms that by (intro session_owner) (auto simp: onlyDrv_def)
  have opens: "sessionOutcome rq dv0 (succeed rq (dv1\<lparr>ActiveCaptureStream := IoctlStream, IoctlCapture := Some c\<rparr>))"
    if "onlyDrv dv dv1" for c dv1
    using assms that by (intro session_owner) (auto simp: onlyDrv_def oneFrontEnd_def)
  show ?thesis
    unfolding prepareSlot_def Let_def
    by (auto split: prod.splits sum.splits bool.splits option.splits
        dest!: onlyDrv_onDevice intro!: fails opens onlyDrv_again intro: onlyDrv_trans)
qed

lemma session_prepare: "sessionOutcome rq dv (PhotonicIoctlCapturePrepare ev es n re rq dv)"
proof -
  have prepare: "sessionOutcome rq dv (if ActiveCaptureStream dv1 \<noteq> NoStream
      then failed PL_ERROR_INVALID_STATE STATUS_DEVICE_BUSY rq dv1 else prepareSlot ev n rq dv1)"
    if "\<not> foreign rq dv" "LastError dv1 = LastError dv" "oneFrontEnd dv \<Longrightarrow> oneFrontEnd dv1" for dv1
    using session_owner(2) [OF that] session_prepareSlot [OF _ that] by auto
  have "sessionOutcome rq dv (case PhotonicIoctlCaptureRelease ev es dv of None \<Rightarrow> None
      | Some dv1 \<Rightarrow> if ActiveCaptureStream dv1 \<noteq> NoStream
          then failed PL_ERROR_INVALID_STATE STATUS_DEVICE_BUSY rq dv1 else prepareSlot ev n rq dv1)"
    if "\<not> foreign rq dv"
    using prepare [OF that] released [of ev es dv] by (auto split: option.split intro: session_none)
  moreover have "\<not> foreign rq dv" if "\<forall>c. IoctlCapture dv = Some c \<longrightarrow> icFileObject c = rqFileObject rq"
    using that by (auto simp: foreign_def)
  ultimately show ?thesis
    unfolding PhotonicIoctlCapturePrepare_def Let_def
    by (cases "IoctlCapture dv") (simp_all add: session_same prepare)
qed

lemma session_slot:
  "sessionOutcome rq dv (PhotonicIoctlCaptureStart ev es v p rq dv)"
  "sessionOutcome rq dv (PhotonicIoctlCaptureStopRequest ev es rq dv)"
  "sessionOutcome rq dv (PhotonicIoctlCaptureUnprepareRequest ev es rq dv)"
  by (auto simp: PhotonicIoctlCaptureStart_def PhotonicIoctlCaptureStopRequest_def PhotonicIoctlCaptureStop_def
      PhotonicIoctlCaptureUnprepareRequest_def Let_def released
      split: option.splits intro!: session_outcome session_owner dest: foreign_owner)

lemma session_ring:
  "sessionOutcome rq dv (PhotonicIoctlMapVideoFrame ev k es rq dv)"
  "sessionOutcome rq dv (PhotonicIoctlUnmapVideoFrame ev es rq dv)"
  "sessionOutcome rq dv (PhotonicIoctlGetTransferInfo rq dv)"
  "sessionOutcome rq dv (PhotonicIoctlRegisterEvent ev k rq dv)"
  "sessionOutcome rq dv (PhotonicIoctlUnregisterEvent rq dv)"
  "sessionOutcome rq dv (PhotonicIoctlSwTrigger ev es rq dv)"
  by (auto simp: PhotonicIoctlMapVideoFrame_def PhotonicIoctlUnmapVideoFrame_def PhotonicIoctlGetTransferInfo_def
      PhotonicIoctlRegisterEvent_def PhotonicIoctlUnregisterEvent_def PhotonicIoctlSwTrigger_def Let_def
      split: option.splits prod.splits intro!: session_outcome session_owner session_succeeds dest: foreign_owner)

lemma session_families:
  "keepsSession (entry i (\<lambda>ev k es. PhotonicIoctlPrepareVideo ev es) a b)"
  "keepsSession (entry i (\<lambda>ev k es. PhotonicIoctlStartVideo ev es) a b)"
  "keepsSession (entry i (\<lambda>ev k es. PhotonicIoctlStopVideo ev es) a b)"
  "keepsSession (entry i (\<lambda>ev k es. PhotonicIoctlUnprepareVideo ev es) a b)"
  "keepsSession (entry i (\<lambda>ev k es. PhotonicIoctlPrepareImager ev es) a b)"
  "keepsSession (entry i (\<lambda>ev k es. PhotonicIoctlStartImager ev es) a b)"
  "keepsSession (entry i (\<lambda>ev k es. PhotonicIoctlStopImager ev es) a b)"
  "keepsSession (entry i (\<lambda>ev k es. PhotonicIoctlUnprepareImager ev es) a b)"
  "keepsSession (entry32 i PhotonicIoctlMapVideoFrame a b)"
  "keepsSession (entry i (\<lambda>ev k es. PhotonicIoctlUnmapVideoFrame ev es) a b)"
  "keepsSession (entry i (\<lambda>ev k es. PhotonicIoctlGetTransferInfo) a b)"
  "keepsSession (entry32 i (\<lambda>ev k es. PhotonicIoctlRegisterEvent ev k) a b)"
  "keepsSession (entry32 i (\<lambda>ev k es. PhotonicIoctlUnregisterEvent) a b)"
  "keepsSession (entry i (\<lambda>ev k es. PhotonicIoctlSwTrigger ev es) a b)"
  by (rule sessionI; simp add: PhotonicIoctlPrepareVideo_def PhotonicIoctlStartVideo_def
      PhotonicIoctlStopVideo_def PhotonicIoctlUnprepareVideo_def PhotonicIoctlPrepareImager_def
      PhotonicIoctlStartImager_def PhotonicIoctlStopImager_def PhotonicIoctlUnprepareImager_def
      session_prepare session_slot session_ring session_same Let_def)+

section \<open>The session table\<close>

text \<open>GET_LAST_ERROR is the one handler that writes LastError itself.\<close>

locale session_table = dispatch_table table for table :: "'b dispatch_entry list" +
  assumes session: "e \<in> set table \<Longrightarrow> IoControlCode e \<noteq> GET_LAST_ERROR \<Longrightarrow> keepsSession e"
    and last_error: "e \<in> set table \<Longrightarrow> IoControlCode e = GET_LAST_ERROR \<Longrightarrow>
      Handler e = (\<lambda>ev k es. PhotonicIoctlGetLastError)"
begin

lemma handled:
  assumes "find P table = Some e" and "Handler e ev k es rq dv = Some (st, rq', dv')"
  shows "oneFrontEnd dv \<Longrightarrow> oneFrontEnd dv'" "foreign rq dv \<Longrightarrow> onlyDrv (dv\<lparr>LastError := LastError dv'\<rparr>) dv'"
    "IoControlCode e \<noteq> GET_LAST_ERROR \<Longrightarrow> LastError dv' = LastError dv"
proof -
  have "(oneFrontEnd dv \<longrightarrow> oneFrontEnd dv') \<and> (foreign rq dv \<longrightarrow> onlyDrv (dv\<lparr>LastError := LastError dv'\<rparr>) dv') \<and>
    (IoControlCode e \<noteq> GET_LAST_ERROR \<longrightarrow> LastError dv' = LastError dv)"
  proof (cases "IoControlCode e = GET_LAST_ERROR")
    case True
    then have "dv' = (if isRemoved dv then dv\<lparr>LastError := PL_ERROR_DEVICE_NOT_FOUND\<rparr> else dv)"
      using assms(2) last_error [OF found [OF assms(1)]]
      by (auto simp: PhotonicIoctlGetLastError_def finish_def Let_def)
    then show ?thesis
      using True by (simp add: oneFrontEnd_def)
  next
    case False
    then have "sessionOutcome rq dv (Some (st, rq', dv'))"
      using session [OF found [OF assms(1)] False] assms(2) unfolding keepsSession_def by metis
    then show ?thesis
      using False by (auto simp: sessionOutcome_def)
  qed
  then show "oneFrontEnd dv \<Longrightarrow> oneFrontEnd dv'" "foreign rq dv \<Longrightarrow> onlyDrv (dv\<lparr>LastError := LastError dv'\<rparr>) dv'"
    "IoControlCode e \<noteq> GET_LAST_ERROR \<Longrightarrow> LastError dv' = LastError dv"
    by blast+
qed

end

interpretation ioctl: session_table "g_PhotonicIoctlDispatch :: 'b dispatch_entry list"
proof
  fix e :: "'b dispatch_entry"
  assume e: "e \<in> set g_PhotonicIoctlDispatch"
  show "IoControlCode e \<noteq> GET_LAST_ERROR \<Longrightarrow> keepsSession e"
    using e unfolding g_PhotonicIoctlDispatch_def list.set insert_iff empty_iff
    by (elim disjE; simp add: session_stub handler_defs session_camera session_families)
  show "IoControlCode e = GET_LAST_ERROR \<Longrightarrow> Handler e = (\<lambda>ev k es. PhotonicIoctlGetLastError)"
    using e unfolding g_PhotonicIoctlDispatch_def list.set insert_iff empty_iff
    by (elim disjE; simp)
qed

end
