(* ===== verification/Engine_Outcome.thy ===== *)
theory Engine_Outcome
  imports Ioctl Register_Frame
begin

text \<open>
  What a control program leaves behind: the stream state it publishes and the status it returns,
  computed statically from the program and carried through every interleaving.
\<close>

section \<open>Judging a program\<close>

text \<open>
  \<open>endsOk Q s ok cs\<close>: started in stream state \<open>s\<close>, with a last returned status that is a success iff
  \<open>ok\<close>, every way the program \<open>cs\<close> can go ends in a state and a result that satisfy \<open>Q\<close>.
\<close>

fun endsOk :: "(KSSTATE \<Rightarrow> bool \<Rightarrow> bool) \<Rightarrow> KSSTATE \<Rightarrow> bool \<Rightarrow> cact list \<Rightarrow> bool" where
  "endsOk Q s ok [] = Q s ok"
| "endsOk Q s ok (Stop (PublishState st) # cs) = endsOk Q st ok cs"
| "endsOk Q s ok (Stop StopCheck # cs) = (endsOk Q s ok cs \<and> endsOk Q KSSTATE_STOP ok cs)"
| "endsOk Q s ok (Stop ArmShot # cs) = (endsOk Q s True cs \<and> endsOk Q s False cs)"
| "endsOk Q s ok (Return st # cs) = endsOk Q s (NT_SUCCESS st) cs"
| "endsOk Q s ok (Start _ # cs) =
     (endsOk Q KSSTATE_RUN True cs \<and> endsOk Q s False cs \<and> endsOk Q KSSTATE_STOP False cs)"
| "endsOk Q s ok (Work WorkService # cs) = (endsOk Q s ok cs \<and> endsOk Q KSSTATE_STOP ok cs)"
| "endsOk Q s ok (Work WorkResume # cs) = (endsOk Q s ok cs \<and> endsOk Q KSSTATE_STOP ok cs)"
| "endsOk Q s ok (Close CloseBegin # cs) = endsOk Q KSSTATE_STOP ok cs"
| "endsOk Q s ok (_ # cs) = endsOk Q s ok cs"

lemma ends_any: "endsOk Q s True cs \<Longrightarrow> endsOk Q s False cs \<Longrightarrow> endsOk Q s ok cs"
  by (cases ok) simp_all

lemma ends_release [simp]: "endsOk Q s ok (map (\<lambda>i. Release (f i)) is @ cs) = endsOk Q s ok cs"
  by (induction "is") simp_all

lemma ends_releaseFrames [simp]: "endsOk Q s ok (releaseFrames @ cs) = endsOk Q s ok cs"
  by (simp add: releaseFrames_def)

section \<open>Every control step keeps the judgement\<close>

definition lastOk :: "('b, 'f) world \<Rightarrow> bool" where
  "lastOk w \<longleftrightarrow> (case rev (wReturned w) of [] \<Rightarrow> True | st # _ \<Rightarrow> NT_SUCCESS st)"

definition judged :: "(KSSTATE \<Rightarrow> bool \<Rightarrow> bool) \<Rightarrow> ('b, 'f) world \<Rightarrow> bool" where
  "judged Q w \<longleftrightarrow> endsOk Q (StreamState (wStream w)) (lastOk w) (wCtl w)"

lemma configure_state: "PhotonicDcamConfigureStream ev (s, d) = (r, (s', d')) \<Longrightarrow> StreamState s' = StreamState s"
  by (auto simp: PhotonicDcamConfigureStream_def PhotonicDcamConfigureFormat7_def Let_def onDrv_def
      split: option.splits if_splits prod.splits sum.splits)

lemma enable_fails: "failsOnly (PhotonicDcamSetIsochEnable ev b)"
  unfolding PhotonicDcamSetIsochEnable_def by (rule WriteRegister_fails)

lemma bringUp_state:
  assumes "bringUpSession ev (s, e) = (st, (s', e'))"
  shows "StreamState s' = StreamState s"
  using assms by (cases e) (auto simp: bringUpSession_def split: prod.splits sum.splits if_splits dest: configure_state)

lemma stopContext_frame [simp]:
  "wStream (stopContext ev w) = wStream w" "wReturned (stopContext ev w) = wReturned w"
  by (simp_all add: stopContext_def setEng_def)

lemma setEng_frame [simp]: "wStream (setEng e w) = wStream w" "wReturned (setEng e w) = wReturned w"
  by (simp_all add: setEng_def)

lemma lastOk_simps [simp]:
  "lastOk (stopContext ev w) = lastOk w" "lastOk (setEng e w) = lastOk w"
  by (simp_all add: lastOk_def)

lemma lastOk_cong: "wReturned w' = wReturned w \<Longrightarrow> lastOk w' = lastOk w"
  by (simp add: lastOk_def)

lemma ends_quiesce:
  assumes "quiesceStep ev a t w = Some (as, cs, w1)" and "endsOk Q (StreamState (wStream w)) (lastOk w) k"
  shows "endsOk Q (StreamState (wStream w1)) (lastOk w1) (cs @ k)"
  using assms by (cases a) (auto simp: control_programs lastOk_def split: if_splits prod.splits option.splits)

lemma ends_listen:
  assumes "listenStep ev a t w = Some (as, cs, w1)" and "endsOk Q (StreamState (wStream w)) (lastOk w) k"
  shows "endsOk Q (StreamState (wStream w1)) (lastOk w1) (cs @ k)"
  using assms by (cases a) (auto simp: lastOk_def split: if_splits prod.splits)

lemma ends_releases:
  assumes "releaseStep ev a w = Some (as, cs, w1)" and "endsOk Q (StreamState (wStream w)) (lastOk w) k"
  shows "endsOk Q (StreamState (wStream w1)) (lastOk w1) (cs @ k)"
  using assms by (cases a) (auto simp: releaseIsoch_def onEng_def releaseFrame_def lastOk_def split: if_splits prod.splits)

lemma ends_start:
  assumes "startStep ev a w = Some (as, cs, w1)" and "endsOk Q (StreamState (wStream w)) (lastOk w) (Start a # k)"
  shows "endsOk Q (StreamState (wStream w1)) (lastOk w1) (cs @ k)"
proof (cases a)
  case (StartBringUp e)
  obtain st s c d where r: "bringUpSession ev (wStream w, (wEng w, wDrv w)) = (st, (s, (c, d)))"
    by (metis prod.collapse)
  show ?thesis
    using assms StartBringUp bringUp_state [OF r] by (auto simp: eng_def r lastOk_def setEng_def split: if_splits)
next
  case (StartEnable e)
  then show ?thesis
    using assms
    by (auto simp: startEnable_def control_programs lastOk_def split: if_splits prod.splits sum.splits
        dest!: failsOnlyD [OF enable_fails])
qed (use assms in \<open>auto simp: control_programs lastOk_def split: if_splits\<close>)

lemma ends_stop:
  assumes "stopStep ev fe a w = Some (as, cs, w1)" and "endsOk Q (StreamState (wStream w)) (lastOk w) (Stop a # k)"
  shows "endsOk Q (StreamState (wStream w1)) (lastOk w1) (cs @ k)"
  using assms
  by (cases a)
    (auto simp: control_programs lastOk_def statusOf_def intro: ends_any split: if_splits option.splits prod.splits sum.splits)

lemma ends_work:
  assumes "workStep ev a w = Some (as, cs, w1)" and "endsOk Q (StreamState (wStream w)) (lastOk w) (Work a # k)"
  shows "endsOk Q (StreamState (wStream w1)) (lastOk w1) (cs @ k)"
  using assms
  by (cases a) (auto simp: control_programs workRetry_def Let_def lastOk_def split: if_splits)

lemma ends_close:
  assumes "closeStep a w = Some (as, cs, w1)" and "endsOk Q (StreamState (wStream w)) (lastOk w) (Close a # k)"
  shows "endsOk Q (StreamState (wStream w1)) (lastOk w1) (cs @ k)"
  using assms
  by (cases a) (auto simp: control_programs lastOk_def split: if_splits prod.splits)

lemma ends_ctl:
  assumes "ctlStep ev fe c t w = Some (as, cs, w1)" and "endsOk Q (StreamState (wStream w)) (lastOk w) (c # k)"
  shows "endsOk Q (StreamState (wStream w1)) (lastOk w1) (cs @ k)"
  using assms
  by (cases c) (simp_all only: ctlStep.simps endsOk.simps ends_quiesce ends_releases ends_listen ends_start ends_stop
      ends_work ends_close, auto simp: lastOk_def)

section \<open>Runs\<close>

lemma judged_cong:
  "judged Q w \<Longrightarrow> wStream w' = wStream w \<Longrightarrow> wReturned w' = wReturned w \<Longrightarrow> wCtl w' = wCtl w \<Longrightarrow> judged Q w'"
  by (simp add: judged_def lastOk_def)

lemma exec_returned: "exec ev fe a w = (as, w') \<Longrightarrow> wReturned w' = wReturned w"
  by (cases a) (auto simp: exec_sections split: prod.splits if_splits)

lemma judged_step:
  assumes "judged Q w" and "\<not> takesMutex e" and "step ev fe e w = Some w'"
  shows "judged Q w'"
proof (cases e)
  case (EvThread i)
  obtain a M as w1 where e: "exec ev fe a w = (as, w1)" and w': "w' = w1\<lparr>wThreads := wThreads w'\<rparr>"
    using step_thread assms(3) EvThread by metis
  show ?thesis
    by (rule judged_cong [OF assms(1)]; subst w') (simp_all add: exec_frame [OF e] exec_returned [OF e])
next
  case (EvCtl t)
  from assms(3) [unfolded EvCtl] show ?thesis
  proof (cases rule: step_ctl)
    case (data a M as w1)
    show ?thesis
      by (rule judged_cong [OF assms(1)]; subst data(4)) (simp_all add: exec_frame [OF data(2)] exec_returned [OF data(2)])
  next
    case (control c k as cs w1)
    then show ?thesis
      using assms(1) ends_ctl [OF control(3)] by (simp add: judged_def lastOk_def)
  qed
qed (use assms in \<open>auto intro!: judged_cong [OF assms(1)] simp: spawn_def enterDataPath_def split: if_splits prod.splits bool.splits\<close>)

lemma judged_runs:
  assumes "judged Q w" and "\<not> list_ex takesMutex es" and "runs ev fe es w = Some w'"
  shows "judged Q w'"
  using assms by (induction es arbitrary: w) (auto split: option.splits dest: judged_step)

lemma judged_engineRun:
  assumes "engineRun ev fe es r = Some w'" and "\<And>w. r = Some w \<Longrightarrow> judged Q w"
  shows "Q (StreamState (wStream w')) (lastOk w') \<and> engineIdle w'"
proof -
  obtain w where "r = Some w" "\<not> list_ex takesMutex es" "runs ev fe es w = Some w'" "engineIdle w'"
    using assms(1) by (auto simp: engineRun_def split: option.splits if_splits)
  then show ?thesis
    using judged_runs [OF assms(2)] by (fastforce simp: judged_def engineIdle_def)
qed

section \<open>The calls of the IOCTL interface\<close>

lemma lastOk_returned: "lastOk w = NT_SUCCESS (returned w)"
  by (simp add: lastOk_def returned_def split: list.split)

text \<open>A stop leaves the stream stopped.\<close>

lemma stop_stops:
  assumes "engineCall ev fe es EvStop w = Some w'"
  shows "StreamState (wStream w') = KSSTATE_STOP"
proof -
  have "judged (\<lambda>s ok. s = KSSTATE_STOP) w1" if "step ev fe EvStop w = Some w1" for w1
    using that by (auto simp: judged_def startControl_def stopProgram_def split: if_splits)
  from judged_engineRun [OF assms [unfolded engineCall_def] this] show ?thesis
    by simp
qed

text \<open>A start that reports success leaves the stream running, a failed one does not start it.\<close>

lemma start_runs:
  assumes "engineCall ev fe es (EvStartRing one ex) w = Some w'"
  shows "if NT_SUCCESS (returned w') then StreamState (wStream w') = KSSTATE_RUN
    else StreamState (wStream w') \<in> {StreamState (wStream w), KSSTATE_STOP}"
proof -
  let ?Q = "\<lambda>s ok. if ok then s = KSSTATE_RUN else s \<in> {StreamState (wStream w), KSSTATE_STOP}"
  have "judged ?Q w1" if "step ev fe (EvStartRing one ex) w = Some w1" for w1
    using that by (auto simp: judged_def startControl_def withData_def split: if_splits option.splits)
  from judged_engineRun [OF assms [unfolded engineCall_def] this] show ?thesis
    unfolding lastOk_returned by (rule conjunct1)
qed

text \<open>A trigger and a pump leave the state as it is.\<close>

lemma trigger_state:
  assumes "engineCall ev fe es EvTrigger w = Some w'"
  shows "StreamState (wStream w') = StreamState (wStream w)"
proof -
  have "judged (\<lambda>s ok. s = StreamState (wStream w)) w1" if "step ev fe EvTrigger w = Some w1" for w1
    using that by (auto simp: judged_def startControl_def withData_def split: if_splits option.splits)
  from judged_engineRun [OF assms [unfolded engineCall_def] this] show ?thesis
    by simp
qed

lemma pump_state:
  assumes "enginePump ev fe es w = Some w'"
  shows "StreamState (wStream w') = StreamState (wStream w)"
proof -
  have "judged (\<lambda>s ok. s = StreamState (wStream w)) w1" if "withData [PumpElect] (startControl [] w) = Some w1" for w1
    using that by (auto simp: judged_def startControl_def withData_def split: if_splits option.splits)
  from judged_engineRun [OF assms [unfolded enginePump_def] this] show ?thesis
    by simp
qed

end
