(* ===== verification/Ioctl_Refine.thy ===== *)
theory Ioctl_Refine
  imports Ioctl_Session Engine_Outcome
begin

text \<open>
  The abstract session of the IOCTL interface and the simulation: every request the dispatcher serves
  is a step of a small automaton over the owner of the slot and its stream state.
\<close>

section \<open>The abstract session\<close>

text \<open>
  The device's one capture session: none, the pin's, or a slot prepared by a file object with its
  stream state.
\<close>

datatype session = Closed | PinOpen | Prepared nat KSSTATE

definition sessionOf :: "'b device \<Rightarrow> session" where
  "sessionOf dv = (case IoctlCapture dv of
      Some c \<Rightarrow> Prepared (icFileObject c) (StreamState (wStream (icWorld c)))
    | None \<Rightarrow> if VideoStream dv = None then Closed else PinOpen)"

definition sessionRequests :: "ioctl set" where
  "sessionRequests = {PREPARE_VIDEO, PREPARE_IMAGER, START_VIDEO, START_IMAGER, STOP_VIDEO, STOP_IMAGER,
     UNPREPARE_VIDEO, UNPREPARE_IMAGER, UNMAP_VIDEO_FRAME}"

text \<open>
  \<open>session_step i f ok s s'\<close>: the request \<open>i\<close> of the file object \<open>f\<close>, ending in success iff \<open>ok\<close>.
  A re-prepare that fails has already given up the old slot.
\<close>

inductive session_step :: "ioctl \<Rightarrow> nat \<Rightarrow> bool \<Rightarrow> session \<Rightarrow> session \<Rightarrow> bool" where
  refused: "session_step i f False s s"
| neutral: "i \<notin> sessionRequests \<Longrightarrow> session_step i f True s s"
| prepared: "i \<in> {PREPARE_VIDEO, PREPARE_IMAGER} \<Longrightarrow> session_step i f True Closed (Prepared f KSSTATE_STOP)"
| reprepared: "session_step PREPARE_VIDEO f True (Prepared f KSSTATE_STOP) (Prepared f KSSTATE_STOP)"
| lost: "session_step PREPARE_VIDEO f False (Prepared f KSSTATE_STOP) Closed"
| started: "i \<in> {START_VIDEO, START_IMAGER} \<Longrightarrow> session_step i f True (Prepared f s) (Prepared f KSSTATE_RUN)"
| start_failed: "i \<in> {START_VIDEO, START_IMAGER} \<Longrightarrow> session_step i f False (Prepared f s) (Prepared f KSSTATE_STOP)"
| stopped: "i \<in> {STOP_VIDEO, STOP_IMAGER, UNMAP_VIDEO_FRAME} \<Longrightarrow>
    session_step i f True (Prepared f s) (Prepared f KSSTATE_STOP)"
| unmapped: "s \<in> {Closed, PinOpen} \<Longrightarrow> session_step UNMAP_VIDEO_FRAME f True s s"
| unprepared: "i \<in> {UNPREPARE_VIDEO, UNPREPARE_IMAGER} \<Longrightarrow> session_step i f True (Prepared f s) Closed"

code_pred session_step .

inductive_cases session_stepE: "session_step i f ok s s'"

text \<open>What a request changes, it changes for the owner only.\<close>

lemma step_foreign:
  assumes "session_step i f ok (Prepared g s) s'" and "f \<noteq> g"
  shows "s' = Prepared g s"
  using assms by (auto elim!: session_stepE)

section \<open>The simulation\<close>

definition simOutcome :: "ioctl \<Rightarrow> request \<Rightarrow> 'b device \<Rightarrow> 'b outcome \<Rightarrow> bool" where
  "simOutcome i rq dv r \<longleftrightarrow> (oneFrontEnd dv \<longrightarrow> (case r of None \<Rightarrow> True
     | Some (status, rq', dv') \<Rightarrow> session_step i (rqFileObject rq) (NT_SUCCESS status) (sessionOf dv) (sessionOf dv')))"

definition simulates :: "'b dispatch_entry \<Rightarrow> bool" where
  "simulates e \<longleftrightarrow> (\<forall>ev k es rq dv. simOutcome (IoControlCode e) rq dv (Handler e ev k es rq dv))"

lemma simI: "(\<And>ev k es rq dv. simOutcome (IoControlCode e) rq dv (Handler e ev k es rq dv)) \<Longrightarrow> simulates e"
  by (simp add: simulates_def)

lemma sessionOf_setDrv [simp]: "sessionOf (setDrv d dv) = sessionOf dv"
  by (simp add: sessionOf_def setDrv_def setWorld_def split: option.splits)

lemma sessionOf_LastError [simp]: "sessionOf (dv\<lparr>LastError := e\<rparr>) = sessionOf dv"
  by (auto simp: sessionOf_def)

lemma sessionOf_setWorld:
  "IoctlCapture dv = Some c \<Longrightarrow> sessionOf (setWorld w dv) = Prepared (icFileObject c) (StreamState (wStream w))"
  by (simp add: sessionOf_def setWorld_def)

lemma sim_none: "simOutcome i rq dv None"
  by (simp add: simOutcome_def)

lemma sim_refused:
  "\<not> NT_SUCCESS st \<Longrightarrow> sessionOf dv' = sessionOf dv \<Longrightarrow> simOutcome i rq dv (failed e st rq' dv')"
  "\<not> NT_SUCCESS st \<Longrightarrow> sessionOf dv' = sessionOf dv \<Longrightarrow> simOutcome i rq dv (finish st rq' dv')"
  by (simp_all add: simOutcome_def failed_def finish_def refused)

lemma sim_neutral:
  assumes "i \<notin> sessionRequests" and "sessionOf dv' = sessionOf dv"
  shows "simOutcome i rq dv (finish st rq' dv')" "simOutcome i rq dv (failed e st rq' dv')"
    "simOutcome i rq dv (succeed rq' dv')"
  using assms refused neutral by (cases "NT_SUCCESS st"; simp add: simOutcome_def failed_def finish_def succeed_def)+

lemma sim_succeed:
  "(oneFrontEnd dv \<Longrightarrow> session_step i (rqFileObject rq) True (sessionOf dv) (sessionOf dv')) \<Longrightarrow>
   simOutcome i rq dv (succeed rq' dv')"
  by (simp add: simOutcome_def succeed_def finish_def)

lemma sim_failed:
  "\<not> NT_SUCCESS st \<Longrightarrow> (oneFrontEnd dv \<Longrightarrow> session_step i (rqFileObject rq) False (sessionOf dv) (sessionOf dv')) \<Longrightarrow>
   simOutcome i rq dv (failed e st rq' dv')"
  by (simp add: simOutcome_def failed_def)

lemma sim_registers: "i \<notin> sessionRequests \<Longrightarrow> onlyRegisters dv r \<Longrightarrow> simOutcome i rq dv r"
  using refused neutral
  by (auto simp: onlyRegisters_def simOutcome_def onlyDrv_def split: option.splits prod.splits)
    (metis (full_types))

lemma sim_camera:
  assumes "i \<notin> sessionRequests"
  shows
  "simulates (entry i (\<lambda>ev k es. PhotonicIoctlSubwindowGet ev) a b)"
  "simulates (entry i (\<lambda>ev k es. PhotonicIoctlSubwindowSet) a b)"
  "simulates (entry i (\<lambda>ev k es. PhotonicIoctlGetPixelFormat ev) a b)"
  "simulates (entry i (\<lambda>ev k es. PhotonicIoctlSetPixelFormat ev) a b)"
  "simulates (entry i (\<lambda>ev k es. PhotonicIoctlEnumFrameRate ev k) a b)"
  "simulates (entry i (\<lambda>ev k es. PhotonicIoctlSetFrameRate ev) a b)"
  "simulates (entry i (\<lambda>ev k es. PhotonicIoctlGetFrameRate ev k) a b)"
  "simulates (entry i (\<lambda>ev k es. PhotonicIoctlInvalidateCurrentFormat) a b)"
  "simulates (entry i (\<lambda>ev k es. PhotonicIoctlMailbox ev) a b)"
  "simulates (entry i (\<lambda>ev k es. PhotonicIoctlGetLastError) a b)"
  by (rule simI; simp add: sim_registers [OF assms] registers_camera registers_Mailbox
    PhotonicIoctlGetLastError_def Let_def sim_neutral [OF assms])+

lemma sim_stub: "(\<And>ev k es rq dv. h ev k es rq dv = finish STATUS_NOT_IMPLEMENTED rq dv) \<Longrightarrow> simulates (entry i h a b)"
  by (rule simI) (simp add: sim_refused)

section \<open>The slot\<close>

lemma sessionOf_slot:
  "IoctlCapture dv = Some c \<Longrightarrow> PhotonicIoctlCaptureCheckOwner rq c \<Longrightarrow>
   sessionOf dv = Prepared (rqFileObject rq) (StreamState (wStream (icWorld c)))"
  by (simp add: sessionOf_def PhotonicIoctlCaptureCheckOwner_def)

lemma sim_start:
  assumes "i \<in> {START_VIDEO, START_IMAGER}"
  shows "simOutcome i rq dv (PhotonicIoctlCaptureStart ev es v p rq dv)"
proof (cases "isRemoved dv \<or> IoctlCapture dv = None")
  case False
  then obtain c where c: "IoctlCapture dv = Some c" and present: "\<not> isRemoved dv"
    by auto
  show ?thesis
  proof (cases "PhotonicIoctlCaptureCheckOwner rq c")
    case True
    have "simOutcome i rq dv (if \<not> NT_SUCCESS (returned w) then failed PL_ERROR_HARDWARE (returned w) rq (setWorld w dv)
        else succeed rq (setWorld w dv))"
      if run: "engineCall ev ringFront es (EvStartRing one p) (icWorld c) = Some w" for w one
      using start_runs [OF run] assms True
      by (auto simp: sessionOf_setWorld [OF c] sessionOf_slot [OF c] PhotonicIoctlCaptureCheckOwner_def
          intro!: sim_succeed sim_failed session_step.started session_step.start_failed session_step.refused)
    then show ?thesis
      using c present True by (auto simp: PhotonicIoctlCaptureStart_def Let_def sim_refused sim_none split: option.splits)
  qed (use c present in \<open>simp add: PhotonicIoctlCaptureStart_def sim_refused\<close>)
qed (auto simp: PhotonicIoctlCaptureStart_def sim_refused)

lemma sim_stop:
  assumes "i \<in> {STOP_VIDEO, STOP_IMAGER}"
  shows "simOutcome i rq dv (PhotonicIoctlCaptureStopRequest ev es rq dv)"
  using assms
  by (auto simp: PhotonicIoctlCaptureStopRequest_def PhotonicIoctlCaptureStop_def sim_refused sim_none sessionOf_slot
      sessionOf_setWorld PhotonicIoctlCaptureCheckOwner_def
      split: option.splits intro!: sim_succeed session_step.stopped dest: stop_stops)

lemma sim_unprepare:
  assumes "i \<in> {UNPREPARE_VIDEO, UNPREPARE_IMAGER}"
  shows "simOutcome i rq dv (PhotonicIoctlCaptureUnprepareRequest ev es rq dv)"
proof -
  have "sessionOf dv' = Closed" if "PhotonicIoctlCaptureRelease ev es dv = Some dv'" "IoctlCapture dv = Some c" "oneFrontEnd dv" for dv' c
    using that released(3,4) [OF that(1)] by (simp add: sessionOf_def oneFrontEnd_def)
  then show ?thesis
    using assms
    by (auto simp: PhotonicIoctlCaptureUnprepareRequest_def sim_refused sim_none sessionOf_slot
      split: option.splits intro!: sim_succeed session_step.unprepared)
qed

lemma sim_unmap: "simOutcome UNMAP_VIDEO_FRAME rq dv (PhotonicIoctlUnmapVideoFrame ev es rq dv)"
proof (cases "IoctlCapture dv")
  case None
  then show ?thesis
    by (cases "VideoStream dv")
      (simp_all add: PhotonicIoctlUnmapVideoFrame_def sessionOf_def sim_succeed session_step.unmapped)
next
  case (Some c)
  then show ?thesis
    by (auto simp: PhotonicIoctlUnmapVideoFrame_def sim_refused sim_none sessionOf_slot sessionOf_setWorld
        PhotonicIoctlCaptureCheckOwner_def split: option.splits intro!: sim_succeed session_step.stopped dest: stop_stops)
qed

lemma slotStream_state [simp]: "StreamState (slotStream mode bpp interval) = KSSTATE_STOP"
  by (simp add: slotStream_def PhotonicStreamExtensionInit_def)

lemma session_onlyDrv: "onlyDrv dv dv' \<Longrightarrow> sessionOf dv' = sessionOf dv"
  by (auto simp: onlyDrv_def)

text \<open>Statuses of the failures are failures.\<close>

lemma create_fails: "PhotonicCaptureCreate ev b = ((st, None), b') \<Longrightarrow> \<not> NT_SUCCESS st"
  by (auto simp: PhotonicCaptureCreate_def split: prod.splits bool.splits if_splits)

lemma mode_fails: "failsOnly (PhotonicDcamGetCurrentMode ev)"
  unfolding PhotonicDcamGetCurrentMode_def PhotonicDcamReadSelection_def
  by (auto simp: failsOnly_def andThen_def split: prod.splits sum.splits list.splits option.splits if_splits
      dest: failsOnlyD [OF ReadRegister_fails])

lemma onDevice_result:
  assumes "onDevice m dv = (r, dv')"
  shows "onlyDrv dv dv' \<and> (\<forall>st. r = Inl st \<longrightarrow> failsOnly m \<longrightarrow> \<not> NT_SUCCESS st)"
proof -
  obtain d where "m (drvOf dv) = (r, d)"
    using assms by (auto simp: onDevice_def split: prod.splits)
  then show ?thesis
    using onlyDrv_onDevice [OF assms] failsOnlyD by metis
qed

lemma sim_prepareSlot:
  assumes fails: "oneFrontEnd dv0 \<Longrightarrow> session_step i (rqFileObject rq) False (sessionOf dv0) (sessionOf dv)"
    and opens: "oneFrontEnd dv0 \<Longrightarrow> session_step i (rqFileObject rq) True (sessionOf dv0) (Prepared (rqFileObject rq) KSSTATE_STOP)"
  shows "simOutcome i rq dv0 (prepareSlot ev n rq dv)"
proof -
  have bad: "simOutcome i rq dv0 (failed e st rq dv1)" if "onlyDrv dv dv1" "\<not> NT_SUCCESS st" for e st dv1
    using fails session_onlyDrv [OF that(1)] that(2) by (simp add: sim_failed)
  have good: "simOutcome i rq dv0 (succeed rq (dv1\<lparr>ActiveCaptureStream := IoctlStream,
      IoctlCapture := Some \<lparr>icWorld = opened c d (slotStream m bpp v) newRing, icFrameCount = n, icFileObject = rqFileObject rq\<rparr>\<rparr>))"
    for dv1 c d m bpp v
    using opens by (intro sim_succeed) (simp add: sessionOf_def opened_def)
  show ?thesis
    unfolding prepareSlot_def Let_def
    by (auto split: prod.splits sum.splits bool.splits option.splits simp: create_fails mode_fails
        dest!: onDevice_result intro!: bad good onlyDrv_again intro: onlyDrv_trans)
qed

lemma sim_prepare:
  assumes "i \<in> {PREPARE_VIDEO, PREPARE_IMAGER}" and "re \<longrightarrow> i = PREPARE_VIDEO"
  shows "simOutcome i rq dv (PhotonicIoctlCapturePrepare ev es n re rq dv)"
proof (cases "isRemoved dv")
  case False
  note present = this
  show ?thesis
  proof (cases "IoctlCapture dv")
    case None
    have "simOutcome i rq dv (prepareSlot ev n rq dv)" if "ActiveCaptureStream dv = NoStream"
      using that None assms(1)
      by (intro sim_prepareSlot) (auto simp: sessionOf_def oneFrontEnd_def intro: session_step.refused session_step.prepared)
    then show ?thesis
      using None present by (auto simp: PhotonicIoctlCapturePrepare_def Let_def sim_refused)
  next
    case (Some c)
    show ?thesis
    proof (cases "re \<and> StreamState (wStream (icWorld c)) = KSSTATE_STOP \<and> icFileObject c = rqFileObject rq")
      case True
      then have old: "sessionOf dv = Prepared (rqFileObject rq) KSSTATE_STOP" and i: "i = PREPARE_VIDEO"
        using assms(2) by (simp_all add: sessionOf_def Some)
      have "simOutcome i rq dv (if ActiveCaptureStream dv1 \<noteq> NoStream
          then failed PL_ERROR_INVALID_STATE STATUS_DEVICE_BUSY rq dv1 else prepareSlot ev n rq dv1)"
        if "PhotonicIoctlCaptureRelease ev es dv = Some dv1" for dv1
      proof -
        have "oneFrontEnd dv \<Longrightarrow> sessionOf dv1 = Closed"
          using released(3,4) [OF that] Some by (simp add: sessionOf_def oneFrontEnd_def)
        then show ?thesis
          using old i by (auto intro!: sim_failed sim_prepareSlot session_step.lost session_step.reprepared)
      qed
      then show ?thesis
        using Some present True
        by (auto simp: PhotonicIoctlCapturePrepare_def Let_def sim_none split: option.split)
    qed (use Some present in \<open>auto simp: PhotonicIoctlCapturePrepare_def Let_def sim_refused\<close>)
  qed
qed (simp add: PhotonicIoctlCapturePrepare_def sim_refused)

section \<open>The ring and the trigger\<close>

lemma sim_owner:
  assumes "IoctlCapture dv = Some c" and "StreamState (wStream w) = StreamState (wStream (icWorld c))"
  shows "sessionOf (setWorld w dv) = sessionOf dv"
  using assms by (simp add: sessionOf_def setWorld_def)

lemma sim_ring:
  assumes "i \<notin> sessionRequests"
  shows
    "simOutcome i rq dv (PhotonicIoctlMapVideoFrame ev k es rq dv)"
    "simOutcome i rq dv (PhotonicIoctlGetTransferInfo rq dv)"
    "simOutcome i rq dv (PhotonicIoctlRegisterEvent ev k rq dv)"
    "simOutcome i rq dv (PhotonicIoctlUnregisterEvent rq dv)"
    "simOutcome i rq dv (PhotonicIoctlSwTrigger ev es rq dv)"
  by (auto simp: PhotonicIoctlMapVideoFrame_def PhotonicIoctlGetTransferInfo_def
      PhotonicIoctlRegisterEvent_def PhotonicIoctlUnregisterEvent_def PhotonicIoctlSwTrigger_def Let_def
      sim_none sim_refused sim_owner split: option.splits prod.splits
      intro!: sim_neutral [OF assms] dest!: pump_state trigger_state)

section \<open>The refining table\<close>

lemma sim_families:
  "simulates (entry PREPARE_VIDEO (\<lambda>ev k es. PhotonicIoctlPrepareVideo ev es) a b)"
  "simulates (entry START_VIDEO (\<lambda>ev k es. PhotonicIoctlStartVideo ev es) a b)"
  "simulates (entry STOP_VIDEO (\<lambda>ev k es. PhotonicIoctlStopVideo ev es) a b)"
  "simulates (entry UNPREPARE_VIDEO (\<lambda>ev k es. PhotonicIoctlUnprepareVideo ev es) a b)"
  "simulates (entry PREPARE_IMAGER (\<lambda>ev k es. PhotonicIoctlPrepareImager ev es) a b)"
  "simulates (entry START_IMAGER (\<lambda>ev k es. PhotonicIoctlStartImager ev es) a b)"
  "simulates (entry STOP_IMAGER (\<lambda>ev k es. PhotonicIoctlStopImager ev es) a b)"
  "simulates (entry UNPREPARE_IMAGER (\<lambda>ev k es. PhotonicIoctlUnprepareImager ev es) a b)"
  "simulates (entry32 MAP_VIDEO_FRAME PhotonicIoctlMapVideoFrame a b)"
  "simulates (entry UNMAP_VIDEO_FRAME (\<lambda>ev k es. PhotonicIoctlUnmapVideoFrame ev es) a b)"
  "simulates (entry GET_TRANSFER_INFO (\<lambda>ev k es. PhotonicIoctlGetTransferInfo) a b)"
  "simulates (entry32 REGISTER_EVENT (\<lambda>ev k es. PhotonicIoctlRegisterEvent ev k) a b)"
  "simulates (entry32 UNREGISTER_EVENT (\<lambda>ev k es. PhotonicIoctlUnregisterEvent) a b)"
  "simulates (entry SW_TRIGGER (\<lambda>ev k es. PhotonicIoctlSwTrigger ev es) a b)"
  by (rule simI; simp add: PhotonicIoctlPrepareVideo_def PhotonicIoctlStartVideo_def
      PhotonicIoctlStopVideo_def PhotonicIoctlUnprepareVideo_def PhotonicIoctlPrepareImager_def
      PhotonicIoctlStartImager_def PhotonicIoctlStopImager_def PhotonicIoctlUnprepareImager_def
      sim_start sim_stop sim_unprepare sim_unmap sim_prepare sim_ring sim_refused sessionRequests_def Let_def)+

text \<open>The runs of the table are steps of the automaton, the length and bitness checks included.\<close>

locale refining_table = session_table table for table :: "'b dispatch_entry list" +
  assumes simulated: "e \<in> set table \<Longrightarrow> simulates e"
begin

lemma run_refines:
  assumes "find P table = Some e" and "oneFrontEnd dv" and "runEntry e ev k es rq dv = Some (st, rq', dv')"
  shows "session_step (IoControlCode e) (rqFileObject rq) (NT_SUCCESS st) (sessionOf dv) (sessionOf dv')"
    "oneFrontEnd dv'"
proof -
  have one: "oneFrontEnd (dv1\<lparr>LastError := er\<rparr>) = oneFrontEnd dv1" for dv1 :: "'b device" and er
    by (simp add: oneFrontEnd_def)
  have "session_step (IoControlCode e) (rqFileObject rq) (NT_SUCCESS st1) (sessionOf dv) (sessionOf dv1) \<and> oneFrontEnd dv1"
    if "Handler e ev k es rq dv = Some (st1, rq1, dv1)" for st1 rq1 dv1
  proof
    have "simOutcome (IoControlCode e) rq dv (Handler e ev k es rq dv)"
      using simulated [OF found [OF assms(1)]] by (simp add: simulates_def)
    then show "session_step (IoControlCode e) (rqFileObject rq) (NT_SUCCESS st1) (sessionOf dv) (sessionOf dv1)"
      using assms(2) that by (simp add: simOutcome_def)
    show "oneFrontEnd dv1"
      using handled(1) [OF assms(1) that assms(2)] .
  qed
  then show "session_step (IoControlCode e) (rqFileObject rq) (NT_SUCCESS st) (sessionOf dv) (sessionOf dv')"
    "oneFrontEnd dv'"
    using assms(2,3) session_step.refused
    by (auto simp: runEntry_def finish_def failed_def one split: if_splits option.splits)
qed

end

interpretation ioctl: refining_table "g_PhotonicIoctlDispatch :: 'b dispatch_entry list"
proof
  fix e :: "'b dispatch_entry"
  assume e: "e \<in> set g_PhotonicIoctlDispatch"
  show "simulates e"
    using e unfolding g_PhotonicIoctlDispatch_def list.set insert_iff empty_iff
    by (elim disjE; simp add: sim_stub handler_defs sim_camera sim_families sessionRequests_def)
qed

end
