(* ===== verification/Ioctl_Props.thy ===== *)
theory Ioctl_Props
  imports Ioctl_Refine Frame_Ring_Props
begin

text \<open>
  Properties of the IOCTL dispatcher as a whole: what a caller can learn from the shared system buffer,
  what it can write, whose session it can touch, which abstract session the requests implement, and
  what the error reporting keeps.
\<close>

section \<open>The dispatcher over the table\<close>

lemma control_run:
  assumes "DEVICE_TYPE_FROM_CTL_CODE (irpCode i) = FILE_DEVICE_UNKNOWN" and "PhotonicIoctlLookup (irpCode i) = Some e"
    and "PhotonicIoctlFindDevice D g = Some x"
  shows "PhotonicDeviceControl ev k es D i g =
    (case runEntry e ev k es (requestOf i) (Extensions g x) of
       None \<Rightarrow> None
     | Some (status, rq, dv) \<Rightarrow> Some (Completed status rq, g\<lparr>Extensions := (Extensions g)(x := dv)\<rparr>))"
  using assms by (simp add: PhotonicDeviceControl_def)

lemma control_completed:
  assumes "PhotonicDeviceControl ev k es D i g = Some (Completed st rq, g')"
  obtains e x dv where "PhotonicIoctlLookup (irpCode i) = Some e" "PhotonicIoctlFindDevice D g = Some x"
    "runEntry e ev k es (requestOf i) (Extensions g x) = Some (st, rq, dv)"
    "g' = g\<lparr>Extensions := (Extensions g)(x := dv)\<rparr>"
  using assms by (auto simp: PhotonicDeviceControl_def split: if_splits option.splits)

lemma requestOf_buffer: "requestOf (i\<lparr>irpBuffer := b\<rparr>) = (requestOf i)\<lparr>Buffer := b\<rparr>"
  by (simp add: requestOf_def)

lemma requestOf_simps [simp]:
  "rqFileObject (requestOf i) = irpFileObject i" "Buffer (requestOf i) = irpBuffer i"
  "InputLength (requestOf i) = irpInput i" "OutputLength (requestOf i) = irpOutput i"
  "Information (requestOf i) = 0" "Error (requestOf i) = PL_SUCCESS"
  by (simp_all add: requestOf_def)

section \<open>The shared buffer\<close>

text \<open>
  C23: no pool memory leaks to the caller.  METHOD_BUFFERED gives the handlers one buffer of which only
  the first irpInput bytes are the caller's, the rest being whatever the pool held.  Two requests that
  differ only in those remaining bytes are disposed of alike: the same status, the same number of
  bytes reported, which the caller's output has room for, the same error, the same effect on the
  driver, and every byte that is copied back to the caller is the same.
\<close>

theorem no_pool_bytes_leak:
  fixes ev :: "'b env"
  assumes "\<forall>n < unat (irpInput i). irpBuffer i n = b n"
  shows "case PhotonicDeviceControl ev k es D i g of
      None \<Rightarrow> PhotonicDeviceControl ev k es D (i\<lparr>irpBuffer := b\<rparr>) g = None
    | Some (Forwarded, g') \<Rightarrow> PhotonicDeviceControl ev k es D (i\<lparr>irpBuffer := b\<rparr>) g = Some (Forwarded, g')
    | Some (Completed st rq, g') \<Rightarrow>
        unat (Information rq) \<le> unat (irpOutput i) \<and>
        (\<exists>b'. PhotonicDeviceControl ev k es D (i\<lparr>irpBuffer := b\<rparr>) g = Some (Completed st (rq\<lparr>Buffer := b'\<rparr>), g') \<and>
           (\<forall>n < unat (Information rq). Buffer rq n = b' n))"
proof (cases "DEVICE_TYPE_FROM_CTL_CODE (irpCode i) = FILE_DEVICE_UNKNOWN \<and>
    (PhotonicIoctlLookup (irpCode i) :: 'b dispatch_entry option) \<noteq> None \<and> PhotonicIoctlFindDevice D g \<noteq> None")
  case True
  then obtain e :: "'b dispatch_entry" and x where e: "PhotonicIoctlLookup (irpCode i) = Some e" and x: "PhotonicIoctlFindDevice D g = Some x"
    by auto
  let ?r = "runEntry e ev k es (requestOf i) (Extensions g x)"
  have "sameInput b (requestOf i)"
    using assms by (simp add: sameInput_def)
  then have same: "sameOutcome ?r (runEntry e ev k es ((requestOf i)\<lparr>Buffer := b\<rparr>) (Extensions g x))"
    using ioctl.run_same e unfolding PhotonicIoctlLookup_def by blast
  have inside: "insideOutcome (requestOf i) ?r"
    using ioctl.run_inside e unfolding PhotonicIoctlLookup_def by blast
  show ?thesis
  proof (cases ?r)
    case None
    then show ?thesis
      using same e x True by (simp add: control_run [OF _ e x] requestOf_buffer PhotonicDeviceControl_def sameOutcome_def)
  next
    case (Some p)
    obtain st rq dv where p: "p = (st, rq, dv)"
      by (cases p)
    have out: "OutputLength rq = irpOutput i"
      using inside unfolding Some p insideOutcome_def by simp (metis request.select_convs(4) request.surjective request.update_convs(2,5,6) requestOf_simps(4))
    show ?thesis
      using same e x True Some p out
      by (auto simp: requestOf_buffer PhotonicDeviceControl_def sameOutcome_def sameReply_def)
  qed
qed (auto simp: PhotonicDeviceControl_def split: option.split)

text \<open>An idle device of the camera of \<open>Capture_Session\<close>, and a driver that has registered it.\<close>

definition idleDevice :: "unit device" where
  "idleDevice = \<lparr>dvDrv = (ext0, ()), LastError = PL_ERROR_HARDWARE, VideoStream = None,
     ActiveCaptureStream = NoStream, IoctlCapture = None, Retired = []\<rparr>"

definition slotDevice :: "unit device" where
  "slotDevice = idleDevice\<lparr>ActiveCaptureStream := IoctlStream,
     IoctlCapture := Some \<lparr>icWorld = openedRing, icFrameCount = 2, icFileObject = 7\<rparr>\<rparr>"

definition oneDevice :: "unit device \<Rightarrow> unit driver" where
  "oneDevice dv = \<lparr>Devices = [0], Extensions = (\<lambda>_. dv), Fdo = (\<lambda>_. 100), Linked = (\<lambda>_. True)\<rparr>"

definition plainKernel :: kernel where
  "plainKernel = \<lparr>kMdl = (\<lambda>va len. Some \<lparr>mdlBuffer = 0, mdlByteCount = 24\<rparr>), kLock = (\<lambda>m. STATUS_SUCCESS), kEvent = (\<lambda>h. Inr 0),
     kFpState = STATUS_SUCCESS, kIs32bitProcess = True\<rparr>"

definition plainIrp :: "ioctl \<Rightarrow> nat \<Rightarrow> ULONG \<Rightarrow> ULONG \<Rightarrow> irp" where
  "plainIrp c f n m = \<lparr>irpCode = ioctlCode c, irpFileObject = f, irpBuffer = (\<lambda>_. 0), irpInput = n, irpOutput = m\<rparr>"

lemma find_device [simp]: "PhotonicIoctlFindDevice 100 (oneDevice dv) = Some 0"
  by (simp add: PhotonicIoctlFindDevice_def oneDevice_def)

lemma oneDevice_simps [simp]:
  "Extensions (oneDevice dv) y = dv" "oneDevice dv\<lparr>Extensions := (Extensions (oneDevice dv))(x := dv)\<rparr> = oneDevice dv"
  by (simp_all add: oneDevice_def fun_upd_idem_iff)

lemma functionCode_of: "functionCode i = drop_bit 2 (ioctlCode i) AND 0xFFF"
  by (cases i) (simp_all add: ioctlCode_def CTL_CODE_def)

lemma ioctlCode_eq [simp]: "ioctlCode i = ioctlCode j \<longleftrightarrow> i = j"
  by (metis functionCode_of functionCode_inject)

lemma ioctlCode_type [simp]: "DEVICE_TYPE_FROM_CTL_CODE (ioctlCode i) = FILE_DEVICE_UNKNOWN"
  by (cases i) (simp_all add: ioctlCode_def CTL_CODE_def DEVICE_TYPE_FROM_CTL_CODE_def)

lemma getDword_putDword: "getDword ofs (putDword ofs v b) = v"
proof -
  have "[putDword ofs v b ofs, putDword ofs v b (ofs + 1), putDword ofs v b (ofs + 2), putDword ofs v b (ofs + 3)] = le_bytes v"
    by (simp add: putDword_def putBytes_def le_bytes_def)
  then show ?thesis
    by (simp add: getDword_def)
qed

lemma lookup_last_error: "PhotonicIoctlLookup (ioctlCode GET_LAST_ERROR) =
    Some (entry GET_LAST_ERROR (\<lambda>ev k es. PhotonicIoctlGetLastError) 0 4)"
  by (simp add: PhotonicIoctlLookup_def g_PhotonicIoctlDispatch_def)

text \<open>GET_LAST_ERROR over a buffer of zeros and over one of pool garbage.\<close>

lemma last_error_run:
  "PhotonicDeviceControl ev k es 100 (plainIrp GET_LAST_ERROR 7 0 4) (oneDevice idleDevice) =
     Some (Completed STATUS_SUCCESS (reply 4 (putDword 0 (plCode PL_ERROR_HARDWARE) (\<lambda>_. 0))
       (requestOf (plainIrp GET_LAST_ERROR 7 0 4))), oneDevice idleDevice)"
  by (simp add: PhotonicDeviceControl_def plainIrp_def lookup_last_error runEntry_def PhotonicIoctlGetLastError_def
      Let_def finish_def isRemoved_def drvOf_def idleDevice_def ext0_def requestOf_def reply_def)

lemma no_pool_bytes_leak_witness:
  "\<exists>b'. PhotonicDeviceControl (stopBus True) plainKernel [] 100 ((plainIrp GET_LAST_ERROR 7 0 4)\<lparr>irpBuffer := (\<lambda>_. 0xEE)\<rparr>)
       (oneDevice idleDevice) = Some (Completed STATUS_SUCCESS
         ((reply 4 (putDword 0 (plCode PL_ERROR_HARDWARE) (\<lambda>_. 0)) (requestOf (plainIrp GET_LAST_ERROR 7 0 4)))
            \<lparr>Buffer := b'\<rparr>), oneDevice idleDevice) \<and>
     (\<forall>n < 4. putDword 0 (plCode PL_ERROR_HARDWARE) (\<lambda>_. 0) n = b' n)"
  using no_pool_bytes_leak [of "plainIrp GET_LAST_ERROR 7 0 4" "\<lambda>_. 0xEE" "stopBus True" plainKernel "[]" 100 "oneDevice idleDevice"]
  unfolding last_error_run by (simp add: plainIrp_def reply_def)

text \<open>
  C24: no handler writes outside the system buffer.  The I/O manager allocates the buffer as long as the
  larger of the two lengths; whatever a request does, the bytes from there on are as they were, and so
  are the request's lengths and its file object.
\<close>

theorem writes_in_bounds:
  assumes "PhotonicDeviceControl ev k es D i g = Some (Completed st rq, g')"
    and "max (unat (irpInput i)) (unat (irpOutput i)) \<le> n"
  shows "Buffer rq n = irpBuffer i n \<and> InputLength rq = irpInput i \<and> OutputLength rq = irpOutput i \<and>
    rqFileObject rq = irpFileObject i"
proof -
  obtain e x dv where e: "PhotonicIoctlLookup (irpCode i) = Some e"
    and run: "runEntry e ev k es (requestOf i) (Extensions g x) = Some (st, rq, dv)"
    using assms(1) by (rule control_completed)
  have "insideOutcome (requestOf i) (runEntry e ev k es (requestOf i) (Extensions g x))"
    using ioctl.run_inside e unfolding PhotonicIoctlLookup_def by blast
  then have "rq = (requestOf i)\<lparr>Buffer := Buffer rq, Information := Information rq, Error := Error rq\<rparr>"
    and "\<forall>n \<ge> max (unat (irpInput i)) (unat (irpOutput i)). Buffer rq n = irpBuffer i n"
    unfolding run by (simp_all add: insideOutcome_def)
  then show ?thesis
    using assms(2) by (metis requestOf_simps request.ext_inject request.surjective request.update_convs)
qed

lemma writes_in_bounds_witness:
  "Buffer (reply 4 (putDword 0 (plCode PL_ERROR_HARDWARE) (\<lambda>_. 0)) (requestOf (plainIrp GET_LAST_ERROR 7 0 4))) 4 = 0"
  using writes_in_bounds [OF last_error_run [of "stopBus True" plainKernel "[]"], of 4] by (simp add: plainIrp_def)

section \<open>The abstract session\<close>




section \<open>Ownership\<close>

text \<open>
  C25: a handle cannot touch the session of another.  A request whose file object did not prepare the
  slot leaves the slot's engine, stream, ring, events and owner, the pin, and the record of the slots
  given up exactly as they were; only the camera's registers, which are shared, and LastError may
  change.
\<close>

theorem owner_gate:
  assumes "PhotonicDeviceControl ev k es D i g = Some (Completed st rq, g')"
    and "PhotonicIoctlFindDevice D g = Some x" and "IoctlCapture (Extensions g x) = Some c"
    and "icFileObject c \<noteq> irpFileObject i"
  shows "\<exists>d er. Extensions g' x = setDrv d ((Extensions g x)\<lparr>LastError := er\<rparr>) \<and>
    IoctlCapture (Extensions g' x) = Some (c\<lparr>icWorld := (icWorld c)\<lparr>wDrv := d\<rparr>\<rparr>) \<and>
    (\<forall>y. y \<noteq> x \<longrightarrow> Extensions g' y = Extensions g y)"
proof -
  obtain e dv where e: "PhotonicIoctlLookup (irpCode i) = Some e"
    and run: "runEntry e ev k es (requestOf i) (Extensions g x) = Some (st, rq, dv)"
    and g': "g' = g\<lparr>Extensions := (Extensions g)(x := dv)\<rparr>"
    using control_completed [OF assms(1)] assms(2) by (metis option.inject)
  have f: "foreign (requestOf i) (Extensions g x)"
    using assms(3,4) by (simp add: foreign_def)
  have relabel: "setDrv d (dv1\<lparr>LastError := er\<rparr>)\<lparr>LastError := er'\<rparr> = setDrv d (dv1\<lparr>LastError := er'\<rparr>)"
    for d er er' and dv1 :: "'a device"
    by (simp add: setDrv_def setWorld_def split: option.split)
  have "\<exists>d er. dv1 = setDrv d ((Extensions g x)\<lparr>LastError := er\<rparr>)"
    if "Handler e ev k es (requestOf i) (Extensions g x) = Some (st1, rq1, dv1)" for st1 rq1 dv1
    using ioctl.handled(2) [OF e [unfolded PhotonicIoctlLookup_def] that f] unfolding onlyDrv_def by blast
  moreover have "\<exists>d er. Extensions g x = setDrv d ((Extensions g x)\<lparr>LastError := er\<rparr>)"
    by (metis (no_types) setDrv_drvOf device.surjective device.update_convs(2))
  ultimately have "\<exists>d er. dv = setDrv d ((Extensions g x)\<lparr>LastError := er\<rparr>)"
    using run by (auto simp: runEntry_def finish_def failed_def split: if_splits option.splits) (metis relabel)+
  then obtain d er where dv: "dv = setDrv d ((Extensions g x)\<lparr>LastError := er\<rparr>)"
    by blast
  then have "IoctlCapture dv = Some (c\<lparr>icWorld := (icWorld c)\<lparr>wDrv := d\<rparr>\<rparr>)"
    using assms(3) by (simp add: setDrv_def setWorld_def)
  with dv show ?thesis
    by (intro exI [of _ d] exI [of _ er]) (simp add: g')
qed

lemma foreign_stop_run:
  "PhotonicDeviceControl ev k es 100 (plainIrp STOP_VIDEO 8 0 0) (oneDevice slotDevice) =
     Some (Completed STATUS_UNSUCCESSFUL (requestOf (plainIrp STOP_VIDEO 8 0 0)), oneDevice slotDevice)"
  by (simp add: PhotonicDeviceControl_def plainIrp_def PhotonicIoctlLookup_def g_PhotonicIoctlDispatch_def runEntry_def
      PhotonicIoctlStopVideo_def PhotonicIoctlCaptureStopRequest_def PhotonicIoctlCaptureCheckOwner_def
      Let_def finish_def slotDevice_def requestOf_def reply_def)

lemma owner_gate_witness:
  "\<exists>d er. slotDevice = setDrv d (slotDevice\<lparr>LastError := er\<rparr>)"
  using owner_gate [OF foreign_stop_run [of "stopBus True" plainKernel "[]"] find_device, of "the (IoctlCapture slotDevice)"]
  by (auto simp: plainIrp_def slotDevice_def)

section \<open>Error reporting\<close>

text \<open>
  C26: the error of a failing request is what the next GET_LAST_ERROR reports.  After any request other
  than GET_LAST_ERROR, GET_LAST_ERROR of the same device succeeds with four bytes: the code of that
  request's error if it had one, else the error that stood before it; on a removed device always
  PL_ERROR_DEVICE_NOT_FOUND.
\<close>

theorem last_error_reported:
  assumes "PhotonicDeviceControl ev k es D i g = Some (Completed st rq, g1)"
    and "PhotonicIoctlFindDevice D g = Some x" and "irpCode i \<noteq> ioctlCode GET_LAST_ERROR"
    and "irpCode q = ioctlCode GET_LAST_ERROR" and "4 \<le> irpOutput q"
  shows "let err = (if isRemoved (Extensions g1 x) then PL_ERROR_DEVICE_NOT_FOUND
      else if Error rq \<noteq> PL_SUCCESS then Error rq else LastError (Extensions g x))
    in \<exists>rq2 g2. PhotonicDeviceControl ev' k' es' D q g1 = Some (Completed STATUS_SUCCESS rq2, g2) \<and>
      Information rq2 = 4 \<and> getDword 0 (Buffer rq2) = plCode err \<and> LastError (Extensions g2 x) = err"
proof -
  obtain e dv where e: "PhotonicIoctlLookup (irpCode i) = Some e"
    and run: "runEntry e ev k es (requestOf i) (Extensions g x) = Some (st, rq, dv)"
    and g1: "g1 = g\<lparr>Extensions := (Extensions g)(x := dv)\<rparr>"
    using control_completed [OF assms(1)] assms(2) by (metis option.inject)
  have code: "IoControlCode e \<noteq> GET_LAST_ERROR"
    using e assms(3) by (auto simp: PhotonicIoctlLookup_def find_Some_iff)
  have last: "LastError dv = (if Error rq \<noteq> PL_SUCCESS then Error rq else LastError (Extensions g x))"
    using run ioctl.handled(3) [OF e [unfolded PhotonicIoctlLookup_def] _ code]
    by (auto simp: runEntry_def finish_def failed_def split: if_splits option.splits)
  have "PhotonicIoctlFindDevice D g1 = Some x"
    using assms(2) by (simp add: PhotonicIoctlFindDevice_def g1)
  then show ?thesis
    using assms(4,5) last
    by (auto simp: PhotonicDeviceControl_def lookup_last_error runEntry_def PhotonicIoctlGetLastError_def
        Let_def finish_def g1 reply_def getDword_putDword not_less)
qed

lemma map_run:
  "\<exists>g1. PhotonicDeviceControl ev plainKernel es 100 (plainIrp MAP_VIDEO_FRAME 7 64 0) (oneDevice idleDevice) =
     Some (Completed STATUS_INVALID_DEVICE_STATE ((requestOf (plainIrp MAP_VIDEO_FRAME 7 64 0))\<lparr>Error := PL_ERROR_NOT_PREPARED\<rparr>), g1) \<and>
     \<not> isRemoved (Extensions g1 0)"
  by (simp add: PhotonicDeviceControl_def plainIrp_def PhotonicIoctlLookup_def g_PhotonicIoctlDispatch_def runEntry_def
      PhotonicIoctlMapVideoFrame_def isRemoved_def drvOf_def ext0_def failed_def plainKernel_def
      Let_def finish_def idleDevice_def requestOf_def reply_def)

lemma last_error_reported_witness:
  "\<exists>g1 rq2 g2. PhotonicDeviceControl (stopBus True) plainKernel [] 100 (plainIrp GET_LAST_ERROR 7 0 4) g1 =
     Some (Completed STATUS_SUCCESS rq2, g2) \<and> getDword 0 (Buffer rq2) = plCode PL_ERROR_NOT_PREPARED"
proof -
  obtain g1 where run: "PhotonicDeviceControl (stopBus True) plainKernel [] 100 (plainIrp MAP_VIDEO_FRAME 7 64 0) (oneDevice idleDevice) =
      Some (Completed STATUS_INVALID_DEVICE_STATE ((requestOf (plainIrp MAP_VIDEO_FRAME 7 64 0))\<lparr>Error := PL_ERROR_NOT_PREPARED\<rparr>), g1)"
    and here: "\<not> isRemoved (Extensions g1 0)"
    using map_run by blast
  show ?thesis
    using last_error_reported [OF run find_device, of "plainIrp GET_LAST_ERROR 7 0 4" "stopBus True" plainKernel "[]"] here
    by (auto simp: plainIrp_def)
qed

end
