(* ===== verification/Stream_Format.thy ===== *)
theory Stream_Format
  imports Device Bus1394
begin

text \<open>
  photonic/stream/formats.c: the KS data ranges the capture pin advertises, built from the enumerated
  mode table.  A LONG field is its 32-bit pattern, read as signed by \<open>sint\<close>; a LONGLONG is a 64-bit word
  read the same way.
\<close>

section \<open>KS data\<close>

datatype guid = GUID (Data1: ULONG) (Data2: USHORT) (Data3: USHORT) (Data4: "byte list")

definition GUID_NULL :: guid where
  "GUID_NULL = GUID 0 0 0 [0, 0, 0, 0, 0, 0, 0, 0]"

record bitmap_header =
  biWidth :: ULONG
  biHeight :: ULONG
  biPlanes :: USHORT
  biBitCount :: USHORT
  biCompression :: ULONG
  biSizeImage :: ULONG
  biClrUsed :: ULONG
  biClrImportant :: ULONG

record video_info =
  rcSourceRight :: ULONG
  rcSourceBottom :: ULONG
  rcTargetRight :: ULONG
  rcTargetBottom :: ULONG
  dwBitRate :: ULONG
  AvgTimePerFrame :: ULONG64
  bmiHeader :: bitmap_header

record ks_size =
  cx :: ULONG
  cy :: ULONG

record config_caps =
  capsGuid :: guid
  InputSize :: ks_size
  MinCroppingSize :: ks_size
  MaxCroppingSize :: ks_size
  CropGranularityX :: ULONG
  CropGranularityY :: ULONG
  CropAlignX :: ULONG
  CropAlignY :: ULONG
  MinOutputSize :: ks_size
  MaxOutputSize :: ks_size
  OutputGranularityX :: ULONG
  OutputGranularityY :: ULONG
  capsMinInterval :: ULONG64
  capsMaxInterval :: ULONG64
  MinBitsPerSecond :: ULONG
  MaxBitsPerSecond :: ULONG

text \<open>KS_DATARANGE_VIDEO; a bare KSDATARANGE is one whose FormatSize is smaller.\<close>

record data_range =
  FormatSize :: ULONG
  SampleSize :: ULONG
  MajorFormat :: guid
  SubFormat :: guid
  Specifier :: guid
  bFixedSizeSamples :: bool
  bTemporalCompression :: bool
  ConfigCaps :: config_caps
  VideoInfoHeader :: video_info

text \<open>Sizes of the DDK's structures.\<close>

abbreviation (input) sizeof_KS_DATARANGE_VIDEO :: ULONG where "sizeof_KS_DATARANGE_VIDEO \<equiv> 296"
abbreviation (input) sizeof_KS_DATAFORMAT_VIDEOINFOHEADER :: ULONG where "sizeof_KS_DATAFORMAT_VIDEOINFOHEADER \<equiv> 152"
abbreviation (input) sizeof_KS_RGBQUAD :: ULONG where "sizeof_KS_RGBQUAD \<equiv> 4"

abbreviation (input) PHOTONIC_DEFAULT_FRAME_TIME :: ULONG where "PHOTONIC_DEFAULT_FRAME_TIME \<equiv> 333333"
abbreviation (input) PHOTONIC_RGB8_PALETTE_COLORS :: ULONG where "PHOTONIC_RGB8_PALETTE_COLORS \<equiv> 256"

text \<open>The C runtime's abs on a LONG: the most negative value is its own negation.\<close>

definition absLong :: "ULONG \<Rightarrow> ULONG" where
  "absLong v = (if sint v < 0 then - v else v)"

section \<open>Range predicates\<close>

definition PhotonicStreamRangeIntervalOk :: "data_range \<Rightarrow> ULONG64 \<Rightarrow> bool" where
  "PhotonicStreamRangeIntervalOk r Interval \<longleftrightarrow> Interval = 0 \<or>
     (sint (capsMinInterval (ConfigCaps r)) \<le> sint Interval \<and> sint Interval \<le> sint (capsMaxInterval (ConfigCaps r)))"

definition PhotonicStreamRangeDefaultSizeIs :: "data_range \<Rightarrow> ULONG \<Rightarrow> ULONG \<Rightarrow> bool" where
  "PhotonicStreamRangeDefaultSizeIs r w h \<longleftrightarrow>
     biWidth (bmiHeader (VideoInfoHeader r)) = w \<and> absLong (biHeight (bmiHeader (VideoInfoHeader r))) = h"

section \<open>Codings\<close>

definition PHOTONIC_FORMAT_TYPE_VIDEO :: guid where
  "PHOTONIC_FORMAT_TYPE_VIDEO = GUID 0x73646976 0x0000 0x0010 [0x80, 0x00, 0x00, 0xaa, 0x00, 0x38, 0x9b, 0x71]"

definition PHOTONIC_FORMAT_SUBTYPE_RGB24 :: guid where
  "PHOTONIC_FORMAT_SUBTYPE_RGB24 = GUID 0xe436eb7d 0x524f 0x11ce [0x9f, 0x53, 0x00, 0x20, 0xaf, 0x0b, 0xa7, 0x70]"

definition PHOTONIC_FORMAT_SUBTYPE_RGB8 :: guid where
  "PHOTONIC_FORMAT_SUBTYPE_RGB8 = GUID 0xe436eb7a 0x524f 0x11ce [0x9f, 0x53, 0x00, 0x20, 0xaf, 0x0b, 0xa7, 0x70]"

text \<open>The FOURCC subtypes.\<close>

definition fourccSubtype :: "ULONG \<Rightarrow> guid" where
  "fourccSubtype fourcc = GUID fourcc 0x0000 0x0010 [0x80, 0x00, 0x00, 0xaa, 0x00, 0x38, 0x9b, 0x71]"

abbreviation (input) KS_BI_RGB :: ULONG where "KS_BI_RGB \<equiv> 0"
abbreviation (input) PHOTONIC_FOURCC_UYVY :: ULONG where "PHOTONIC_FOURCC_UYVY \<equiv> 0x59565955"
abbreviation (input) PHOTONIC_FOURCC_Y16 :: ULONG where "PHOTONIC_FOURCC_Y16 \<equiv> 0x20363159"
abbreviation (input) PHOTONIC_FOURCC_Y411 :: ULONG where "PHOTONIC_FOURCC_Y411 \<equiv> 0x31313459"
abbreviation (input) PHOTONIC_FOURCC_RGGB :: ULONG where "PHOTONIC_FOURCC_RGGB \<equiv> 0x42474752"

definition PHOTONIC_FORMAT_SPECIFIER_VIDEOINFO :: guid where
  "PHOTONIC_FORMAT_SPECIFIER_VIDEOINFO = GUID 0x05589f80 0xc356 0x11ce [0xbf, 0x01, 0x00, 0xaa, 0x00, 0x55, 0x59, 0x5a]"

definition PHOTONIC_PINNAME_VIDEO_CAPTURE :: guid where
  "PHOTONIC_PINNAME_VIDEO_CAPTURE = GUID 0xfb6c4281 0x0353 0x11d1 [0x90, 0x5f, 0x00, 0x00, 0xc0, 0xcc, 0x16, 0xba]"

text \<open>Subtype, bit depth and biCompression of a DCAM coding.\<close>

definition PhotonicStreamFormatPixelToMedia :: "ULONG \<Rightarrow> (guid \<times> ULONG \<times> ULONG) option" where
  "PhotonicStreamFormatPixelToMedia p =
     (if p = PIX_YUV444 \<or> p = PIX_RGB24 then Some (PHOTONIC_FORMAT_SUBTYPE_RGB24, 24, KS_BI_RGB)
      else if p = PIX_YUV422 then Some (fourccSubtype PHOTONIC_FOURCC_UYVY, 16, PHOTONIC_FOURCC_UYVY)
      else if p = PIX_MONO8 then Some (PHOTONIC_FORMAT_SUBTYPE_RGB8, 8, KS_BI_RGB)
      else if p = PIX_MONO16 then Some (fourccSubtype PHOTONIC_FOURCC_Y16, 16, PHOTONIC_FOURCC_Y16)
      else if p = PIX_YUV411 then Some (fourccSubtype PHOTONIC_FOURCC_Y411, 12, PHOTONIC_FOURCC_Y411)
      else if p = PIX_RAW8 then Some (fourccSubtype PHOTONIC_FOURCC_RGGB, 8, PHOTONIC_FOURCC_RGGB)
      else None)"

section \<open>One range\<close>

definition PhotonicStreamFormatFillRange ::
  "guid \<Rightarrow> ULONG \<Rightarrow> ULONG \<Rightarrow> ULONG \<Rightarrow> ULONG \<Rightarrow> ULONG \<Rightarrow> ULONG \<Rightarrow> ULONG \<Rightarrow> ULONG \<Rightarrow> ULONG \<Rightarrow> ULONG \<Rightarrow> ULONG \<Rightarrow> ULONG \<Rightarrow> data_range" where
  "PhotonicStreamFormatFillRange SubType W H defW defH MinW MinH GranX GranY BitCount Compression MinI MaxI =
     (let imageSize = PhotonicImageBytes W H BitCount;
          defImageSize = PhotonicImageBytes defW defH BitCount;
          MinInterval = (if MinI = 0 then PHOTONIC_DEFAULT_FRAME_TIME else MinI);
          MaxInterval = (if MaxI = 0 then MinInterval else MaxI)
      in \<lparr>FormatSize = sizeof_KS_DATARANGE_VIDEO, SampleSize = imageSize,
          MajorFormat = PHOTONIC_FORMAT_TYPE_VIDEO, SubFormat = SubType, Specifier = PHOTONIC_FORMAT_SPECIFIER_VIDEOINFO,
          bFixedSizeSamples = True, bTemporalCompression = False,
          ConfigCaps = \<lparr>capsGuid = PHOTONIC_FORMAT_TYPE_VIDEO, InputSize = \<lparr>cx = W, cy = H\<rparr>,
            MinCroppingSize = \<lparr>cx = MinW, cy = MinH\<rparr>, MaxCroppingSize = \<lparr>cx = W, cy = H\<rparr>,
            CropGranularityX = GranX, CropGranularityY = GranY, CropAlignX = 1, CropAlignY = 1,
            MinOutputSize = \<lparr>cx = MinW, cy = MinH\<rparr>, MaxOutputSize = \<lparr>cx = W, cy = H\<rparr>,
            OutputGranularityX = GranX, OutputGranularityY = GranY,
            capsMinInterval = ucast MinInterval, capsMaxInterval = ucast MaxInterval,
            MinBitsPerSecond = PhotonicImageBitsPerSecond imageSize MaxInterval,
            MaxBitsPerSecond = PhotonicImageBitsPerSecond imageSize MinInterval\<rparr>,
          VideoInfoHeader = \<lparr>rcSourceRight = defW, rcSourceBottom = defH, rcTargetRight = defW, rcTargetBottom = defH,
            dwBitRate = PhotonicImageBitsPerSecond defImageSize MinInterval, AvgTimePerFrame = ucast MinInterval,
            bmiHeader = \<lparr>biWidth = defW, biHeight = (if Compression = KS_BI_RGB then - defH else defH), biPlanes = 1,
              biBitCount = ucast BitCount, biCompression = Compression, biSizeImage = defImageSize,
              biClrUsed = (if BitCount = 8 \<and> Compression = KS_BI_RGB then PHOTONIC_RGB8_PALETTE_COLORS else 0),
              biClrImportant = 0\<rparr>\<rparr>\<rparr>)"

section \<open>The advertised formats\<close>

text \<open>
  VideoRanges with FormatCount is a list, RangeModeIndex the list of the modes' indices beside it; the
  Formats array points into VideoRanges.
\<close>

record stream_information =
  NumberOfPossibleInstances :: ULONG
  DataAccessible :: bool
  NumberOfFormatArrayEntries :: nat
  StreamFormatsArray :: "data_range list"
  Category :: guid
  MediumsCount :: nat

record format_table =
  VideoRanges :: "data_range list"
  RangeModeIndex :: "nat list"
  MaxSampleSize :: ULONG
  VideoStreamInfo :: stream_information

abbreviation FormatCount :: "format_table \<Rightarrow> nat" where
  "FormatCount t \<equiv> length (VideoRanges t)"

text \<open>The range of one mode.\<close>

definition modeRange :: "video_mode \<Rightarrow> guid \<times> ULONG \<times> ULONG \<Rightarrow> data_range" where
  "modeRange m = (\<lambda>(subType, bitCount, compression).
     let minWidth = (if IsFormat7 m then UnitWidth m else Width m);
         minHeight = (if IsFormat7 m then UnitHeight m else Height m)
     in PhotonicStreamFormatFillRange subType (Width m) (Height m) (DefaultWidth m) (DefaultHeight m)
          minWidth minHeight minWidth minHeight bitCount compression (MinFrameInterval m) (MaxFrameInterval m))"

fun buildFormats :: "(nat \<times> video_mode) list \<Rightarrow> format_table \<Rightarrow> format_table" where
  "buildFormats [] t = t"
| "buildFormats ((i, m) # ms) t =
     (if FormatCount t \<ge> PHOTONIC_MAX_VIDEO_MODES then t
      else case PhotonicStreamFormatPixelToMedia (PixelFormat m) of
          None \<Rightarrow> buildFormats ms t
        | Some media \<Rightarrow>
            let r = modeRange m media in
            buildFormats ms (t\<lparr>VideoRanges := VideoRanges t @ [r], RangeModeIndex := RangeModeIndex t @ [i],
              MaxSampleSize := (if SampleSize r > MaxSampleSize t then SampleSize r else MaxSampleSize t)\<rparr>))"

definition PhotonicStreamFormatBuild :: "video_mode list \<Rightarrow> format_table \<Rightarrow> format_table" where
  "PhotonicStreamFormatBuild modes t0 =
     (let t = buildFormats (List.enumerate 0 modes) (t0\<lparr>VideoRanges := [], RangeModeIndex := [], MaxSampleSize := 0\<rparr>)
      in t\<lparr>VideoStreamInfo := \<lparr>NumberOfPossibleInstances = 1, DataAccessible = True,
           NumberOfFormatArrayEntries = FormatCount t, StreamFormatsArray = VideoRanges t,
           Category = PHOTONIC_PINNAME_VIDEO_CAPTURE, MediumsCount = 1\<rparr>\<rparr>)"

end
