(* ===== verification/Stream_Intersect.thy ===== *)
theory Stream_Intersect
  imports Stream_Format
begin

text \<open>
  photonic/stream/intersect.c: SRB_GET_DATA_INTERSECTION turns one of the peer pin's data ranges into a
  concrete connection format; photonic/stream/lifecycle.c recovers the enumerated mode behind one.
\<close>

abbreviation (input) STATUS_NO_MATCH :: NTSTATUS where "STATUS_NO_MATCH \<equiv> 0xC0000272"

section \<open>The best advertised range\<close>

definition PhotonicStreamIntersectGuidMatch :: "guid \<Rightarrow> guid \<Rightarrow> bool" where
  "PhotonicStreamIntersectGuidMatch Candidate Wanted \<longleftrightarrow> Wanted = GUID_NULL \<or> Candidate = Wanted"

definition guidsMatch :: "data_range \<Rightarrow> data_range \<Rightarrow> bool" where
  "guidsMatch r req \<longleftrightarrow> PhotonicStreamIntersectGuidMatch (MajorFormat r) (MajorFormat req) \<and>
     PhotonicStreamIntersectGuidMatch (SubFormat r) (SubFormat req) \<and>
     PhotonicStreamIntersectGuidMatch (Specifier r) (Specifier req)"

definition isVideoRange :: "data_range \<Rightarrow> bool" where
  "isVideoRange req \<longleftrightarrow> FormatSize req \<ge> sizeof_KS_DATARANGE_VIDEO"

definition sameWindow :: "data_range \<Rightarrow> data_range \<Rightarrow> bool" where
  "sameWindow req r \<longleftrightarrow> MaxOutputSize (ConfigCaps req) = MaxOutputSize (ConfigCaps r) \<and>
     MinOutputSize (ConfigCaps req) = MinOutputSize (ConfigCaps r)"

definition defaultSize :: "data_range \<Rightarrow> int \<times> int" where
  "defaultSize r = (sint (biWidth (bmiHeader (VideoInfoHeader r))), sint (absLong (biHeight (bmiHeader (VideoInfoHeader r)))))"

text \<open>Whether the range's default size is outside the requested window.\<close>

definition outsideWindow :: "data_range \<Rightarrow> data_range \<Rightarrow> bool" where
  "outsideWindow req r \<longleftrightarrow>
     (case defaultSize r of (width, height) \<Rightarrow>
        (let mx = MaxOutputSize (ConfigCaps req); mn = MinOutputSize (ConfigCaps req) in
         cx mx \<noteq> 0 \<and> (width > sint (cx mx) \<or> height > sint (cy mx)) \<or>
         cx mn \<noteq> 0 \<and> (width < sint (cx mn) \<or> height < sint (cy mn))))"

text \<open>The loop, with the candidates (preferred, windowMatch, fallback) so far.\<close>

type_synonym candidates = "data_range option \<times> data_range option \<times> data_range option"

fun findRange :: "data_range \<Rightarrow> data_range list \<Rightarrow> candidates \<Rightarrow> data_range option" where
  "findRange req [] (preferred, windowMatch, fallback) =
     (if preferred \<noteq> None then preferred else if windowMatch \<noteq> None then windowMatch else fallback)"
| "findRange req (r # rs) (preferred, windowMatch, fallback) =
     (if \<not> guidsMatch r req then findRange req rs (preferred, windowMatch, fallback)
      else if \<not> isVideoRange req then Some r
      else let bmi = bmiHeader (VideoInfoHeader req);
               reqWidth = biWidth bmi; reqHeight = absLong (biHeight bmi);
               intervalOk = PhotonicStreamRangeIntervalOk r (AvgTimePerFrame (VideoInfoHeader req)) in
        if sameWindow req r then
          (if intervalOk then Some r
           else findRange req rs (preferred, if windowMatch = None then Some r else windowMatch, fallback))
        else if preferred = None \<and> sint reqWidth > 0 \<and> sint reqHeight > 0 \<and>
                PhotonicStreamRangeDefaultSizeIs r reqWidth reqHeight \<and> intervalOk
        then findRange req rs (Some r, windowMatch, fallback)
        else if fallback = None \<and> \<not> outsideWindow req r
        then findRange req rs (preferred, windowMatch, Some r)
        else findRange req rs (preferred, windowMatch, fallback))"

definition PhotonicStreamIntersectFindRange :: "format_table \<Rightarrow> data_range \<Rightarrow> data_range option" where
  "PhotonicStreamIntersectFindRange t req = findRange req (VideoRanges t) (None, None, None)"

section \<open>The connection format\<close>

text \<open>KS_DATAFORMAT_VIDEOINFOHEADER, with the palette that follows it.\<close>

record rgbquad =
  rgbBlue :: byte
  rgbGreen :: byte
  rgbRed :: byte
  rgbReserved :: byte

record data_format =
  dfFormatSize :: ULONG
  dfSampleSize :: ULONG
  dfMajorFormat :: guid
  dfSubFormat :: guid
  dfSpecifier :: guid
  dfVideoInfo :: video_info
  dfPalette :: "rgbquad list"

definition clampSint :: "'a::len word \<Rightarrow> 'a word \<Rightarrow> 'a word \<Rightarrow> 'a word" where
  "clampSint mn mx v =
     (let v1 = (if sint v < sint mn then mn else v) in if sint v1 > sint mx then mx else v1)"

text \<open>The requested rate, clamped to the mode's interval window.\<close>

definition negotiateInterval :: "data_range \<Rightarrow> data_range \<Rightarrow> video_info \<Rightarrow> video_info" where
  "negotiateInterval req r h =
     (let requestedInterval = AvgTimePerFrame (VideoInfoHeader req) in
      if isVideoRange req \<and> requestedInterval \<noteq> 0
      then h\<lparr>AvgTimePerFrame := clampSint (capsMinInterval (ConfigCaps r)) (capsMaxInterval (ConfigCaps r)) requestedInterval\<rparr>
      else h)"

text \<open>
  One dimension of the requested size: down to the maximum, up to the minimum, down to the granularity.
  The magnitude of a negative height is its C negation.
\<close>

definition fitSize :: "ULONG \<Rightarrow> ULONG \<Rightarrow> ULONG \<Rightarrow> ULONG \<Rightarrow> ULONG" where
  "fitSize mn mx gran v =
     (let v1 = (if sint v > sint mx then mx else v);
          v2 = (if sint v1 < sint mn then mn else v1);
          g = (if gran \<noteq> 0 then gran else 1)
      in v2 div g * g)"

definition negotiateSize :: "data_range \<Rightarrow> data_range \<Rightarrow> data_format \<Rightarrow> data_format" where
  "negotiateSize req r f =
     (let caps = ConfigCaps r; bmi = bmiHeader (VideoInfoHeader req);
          reqWidth = biWidth bmi; reqHeight = absLong (biHeight bmi) in
      if isVideoRange req \<and>
         (cx (MaxOutputSize caps) \<noteq> cx (MinOutputSize caps) \<or> cy (MaxOutputSize caps) \<noteq> cy (MinOutputSize caps)) \<and>
         sint reqWidth > 0 \<and> sint reqHeight > 0
      then
        (let w = fitSize (cx (MinOutputSize caps)) (cx (MaxOutputSize caps)) (OutputGranularityX caps) reqWidth;
             h = fitSize (cy (MinOutputSize caps)) (cy (MaxOutputSize caps)) (OutputGranularityY caps) reqHeight;
             info = dfVideoInfo f; b = bmiHeader info;
             imageSize = PhotonicImageBytes w h (ucast (biBitCount b))
         in f\<lparr>dfSampleSize := imageSize,
              dfVideoInfo := info\<lparr>rcSourceRight := w, rcSourceBottom := h, rcTargetRight := w, rcTargetBottom := h,
                dwBitRate := (if AvgTimePerFrame info \<noteq> 0
                              then PhotonicImageBitsPerSecond imageSize (ucast (AvgTimePerFrame info)) else dwBitRate info),
                bmiHeader := b\<lparr>biWidth := w, biHeight := (if sint (biHeight b) < 0 then - h else h),
                  biSizeImage := imageSize\<rparr>\<rparr>\<rparr>)
      else f)"

definition paletteColors :: "data_range \<Rightarrow> ULONG" where
  "paletteColors r =
     (if biBitCount (bmiHeader (VideoInfoHeader r)) = 8 \<and> biCompression (bmiHeader (VideoInfoHeader r)) = KS_BI_RGB
      then PHOTONIC_RGB8_PALETTE_COLORS else 0)"

definition greyPalette :: "ULONG \<Rightarrow> rgbquad list" where
  "greyPalette n = map (\<lambda>i. \<lparr>rgbBlue = of_nat i, rgbGreen = of_nat i, rgbRed = of_nat i, rgbReserved = 0\<rparr>) [0..<unat n]"

definition appendPalette :: "ULONG \<Rightarrow> data_format \<Rightarrow> data_format" where
  "appendPalette n f =
     (if n \<noteq> 0
      then f\<lparr>dfVideoInfo := (dfVideoInfo f)\<lparr>bmiHeader := (bmiHeader (dfVideoInfo f))\<lparr>biClrUsed := n, biClrImportant := n\<rparr>\<rparr>,
             dfPalette := greyPalette n\<rparr>
      else f)"

definition connectionFormat :: "data_range \<Rightarrow> data_range \<Rightarrow> data_format" where
  "connectionFormat req r =
     (let n = paletteColors r;
          f = \<lparr>dfFormatSize = sizeof_KS_DATAFORMAT_VIDEOINFOHEADER + n * sizeof_KS_RGBQUAD, dfSampleSize = SampleSize r,
               dfMajorFormat = MajorFormat r, dfSubFormat = SubFormat r, dfSpecifier = Specifier r,
               dfVideoInfo = negotiateInterval req r (VideoInfoHeader r), dfPalette = []\<rparr>
      in appendPalette n (negotiateSize req r f))"

text \<open>
  The reply: a size in a buffer of one ULONG, or the format; with the bytes transferred.
\<close>

datatype intersection = SizeOnly ULONG | Connection data_format

definition PhotonicStreamGetDataIntersection ::
  "format_table \<Rightarrow> ULONG \<Rightarrow> data_range \<Rightarrow> ULONG \<Rightarrow> NTSTATUS + intersection \<times> ULONG" where
  "PhotonicStreamGetDataIntersection t StreamNumber req SizeOfDataFormatBuffer =
     (if StreamNumber \<noteq> 0 then Inl STATUS_NOT_SUPPORTED
      else case PhotonicStreamIntersectFindRange t req of
          None \<Rightarrow> Inl STATUS_NO_MATCH
        | Some r \<Rightarrow>
            let formatSize = sizeof_KS_DATAFORMAT_VIDEOINFOHEADER + paletteColors r * sizeof_KS_RGBQUAD in
            if SizeOfDataFormatBuffer = 4 then Inr (SizeOnly formatSize, 4)
            else if SizeOfDataFormatBuffer < formatSize then Inl 0xC0000023
            else Inr (Connection (connectionFormat req r), formatSize))"

section \<open>The mode behind a connection\<close>

text \<open>The geometry a connection format carries, as PhotonicStreamOpen reads it.\<close>

record negotiated =
  ngWidth :: ULONG
  ngHeight :: ULONG
  ngBitCount :: ULONG
  ngCompression :: ULONG
  ngInterval :: ULONG

definition sizeInWindow :: "negotiated \<Rightarrow> data_range \<Rightarrow> bool" where
  "sizeInWindow n r \<longleftrightarrow>
     \<not> (sint (ngWidth n) < sint (cx (MinOutputSize (ConfigCaps r))) \<or> sint (ngWidth n) > sint (cx (MaxOutputSize (ConfigCaps r))) \<or>
        sint (ngHeight n) < sint (cy (MinOutputSize (ConfigCaps r))) \<or> sint (ngHeight n) > sint (cy (MaxOutputSize (ConfigCaps r))))"

definition covers :: "negotiated \<Rightarrow> data_range \<Rightarrow> bool" where
  "covers n r \<longleftrightarrow> ucast (biBitCount (bmiHeader (VideoInfoHeader r))) = ngBitCount n \<and>
     biCompression (bmiHeader (VideoInfoHeader r)) = ngCompression n \<and> sizeInWindow n r"

text \<open>The scan over the ranges with their mode indices, with (intervalMatch, sizeMatch) so far.\<close>

fun findMode :: "negotiated \<Rightarrow> (data_range \<times> nat) list \<Rightarrow> nat option \<Rightarrow> nat option \<Rightarrow> nat option" where
  "findMode n [] intervalMatch sizeMatch = (if intervalMatch \<noteq> None then intervalMatch else sizeMatch)"
| "findMode n ((r, mode) # rs) intervalMatch sizeMatch =
     (if \<not> covers n r then findMode n rs intervalMatch sizeMatch
      else let intervalOk = PhotonicStreamRangeIntervalOk r (ucast (ngInterval n)) in
        if intervalOk \<and> PhotonicStreamRangeDefaultSizeIs r (ngWidth n) (ngHeight n) then Some mode
        else findMode n rs (if intervalOk \<and> intervalMatch = None then Some mode else intervalMatch)
               (if sizeMatch = None then Some mode else sizeMatch))"

definition PhotonicStreamFindNegotiatedMode :: "video_mode list \<Rightarrow> format_table \<Rightarrow> negotiated \<Rightarrow> video_mode option" where
  "PhotonicStreamFindNegotiatedMode modes t n =
     map_option (\<lambda>i. modes ! i) (findMode n (zip (VideoRanges t) (RangeModeIndex t)) None None)"

end
