(* ===== verification/Property_Sets.thy ===== *)
theory Property_Sets
  imports Stream_Format Capture_Pool
begin

text \<open>
  photonic/properties.c: the KS property sets.  The image controls are discovered from the camera's DCAM
  feature registers during initialization; the device-level sets list the controls found, and GET and
  SET of a control read and write its feature value register.
\<close>

abbreviation (input) KSSTATUS_BUFFER_TOO_SMALL :: NTSTATUS where "KSSTATUS_BUFFER_TOO_SMALL \<equiv> 0xC0000023"

section \<open>Property sets and tables\<close>

definition PHOTONIC_KSPROPSETID_Connection :: guid where
  "PHOTONIC_KSPROPSETID_Connection = GUID 0x1d58c920 0xac9b 0x11cf [0xa5, 0xd6, 0x28, 0xdb, 0x04, 0xc1, 0x00, 0x00]"

definition PHOTONIC_PROPSETID_VIDCAP_VIDEOCONTROL :: guid where
  "PHOTONIC_PROPSETID_VIDCAP_VIDEOCONTROL = GUID 0x6a2e0670 0x28e4 0x11d0 [0xa1, 0x8c, 0x00, 0xa0, 0xc9, 0x11, 0x89, 0x56]"

definition PHOTONIC_PROPSETID_VIDCAP_VIDEOPROCAMP :: guid where
  "PHOTONIC_PROPSETID_VIDCAP_VIDEOPROCAMP = GUID 0xc6e13360 0x30ac 0x11d0 [0xa1, 0x8c, 0x00, 0xa0, 0xc9, 0x11, 0x89, 0x56]"

definition PHOTONIC_PROPSETID_VIDCAP_CAMERACONTROL :: guid where
  "PHOTONIC_PROPSETID_VIDCAP_CAMERACONTROL = GUID 0xc6e13370 0x30ac 0x11d0 [0xa1, 0x8c, 0x00, 0xa0, 0xc9, 0x11, 0x89, 0x56]"

text \<open>Sizes of the DDK's property structures.\<close>

abbreviation (input) sizeof_KSPROPERTY :: ULONG where "sizeof_KSPROPERTY \<equiv> 24"
abbreviation (input) sizeof_KSALLOCATOR_FRAMING :: ULONG where "sizeof_KSALLOCATOR_FRAMING \<equiv> 24"
abbreviation (input) sizeof_KSPROPERTY_VIDEOCONTROL_CAPS_S :: ULONG where "sizeof_KSPROPERTY_VIDEOCONTROL_CAPS_S \<equiv> 32"
abbreviation (input) sizeof_KSPROPERTY_VIDEOPROCAMP_S :: ULONG where "sizeof_KSPROPERTY_VIDEOPROCAMP_S \<equiv> 40"

text \<open>A property item; \<open>itRange\<close> is the stepped range with the default value (minimum, maximum, step, default).\<close>

record property_item =
  PropertyId :: ULONG
  GetSupported :: bool
  SetSupported :: bool
  MinProperty :: ULONG
  MinData :: ULONG
  itRange :: "(ULONG \<times> ULONG \<times> ULONG \<times> ULONG) option"

record property_set =
  psSet :: guid
  psItems :: "property_item list"

definition g_PhotonicConnectionProperties :: "property_item list" where
  "g_PhotonicConnectionProperties =
     [\<lparr>PropertyId = 3, GetSupported = True, SetSupported = False, MinProperty = sizeof_KSPROPERTY,
       MinData = sizeof_KSALLOCATOR_FRAMING, itRange = None\<rparr>]"

definition g_PhotonicStreamProperties :: "property_set list" where
  "g_PhotonicStreamProperties = [\<lparr>psSet = PHOTONIC_KSPROPSETID_Connection, psItems = g_PhotonicConnectionProperties\<rparr>]"

definition g_PhotonicVideoControlProperties :: "property_item list" where
  "g_PhotonicVideoControlProperties =
     [\<lparr>PropertyId = 0, GetSupported = True, SetSupported = False, MinProperty = sizeof_KSPROPERTY_VIDEOCONTROL_CAPS_S,
       MinData = sizeof_KSPROPERTY_VIDEOCONTROL_CAPS_S, itRange = None\<rparr>]"

section \<open>The feature map\<close>

abbreviation (input) PHOTONIC_DCAM_FEATURE_VALUE_OFFSET :: ULONG where "PHOTONIC_DCAM_FEATURE_VALUE_OFFSET \<equiv> 0x300"

abbreviation (input) PHOTONIC_FEATURE_PRESENCE :: ULONG where "PHOTONIC_FEATURE_PRESENCE \<equiv> 0x80000000"
abbreviation (input) PHOTONIC_FEATURE_ON :: ULONG where "PHOTONIC_FEATURE_ON \<equiv> 0x02000000"
abbreviation (input) PHOTONIC_FEATURE_AUTO :: ULONG where "PHOTONIC_FEATURE_AUTO \<equiv> 0x01000000"
abbreviation (input) PHOTONIC_FEATURE_VALUE_MASK :: ULONG where "PHOTONIC_FEATURE_VALUE_MASK \<equiv> 0x00000fff"
abbreviation (input) PHOTONIC_FEATURE_STEP :: ULONG where "PHOTONIC_FEATURE_STEP \<equiv> 1"

abbreviation (input) PHOTONIC_FEATINQ_PRESENCE :: ULONG where "PHOTONIC_FEATINQ_PRESENCE \<equiv> 0x80000000"
abbreviation (input) PHOTONIC_FEATINQ_READOUT :: ULONG where "PHOTONIC_FEATINQ_READOUT \<equiv> 0x08000000"
abbreviation (input) PHOTONIC_FEATINQ_AUTO :: ULONG where "PHOTONIC_FEATINQ_AUTO \<equiv> 0x02000000"
abbreviation (input) PHOTONIC_FEATINQ_MANUAL :: ULONG where "PHOTONIC_FEATINQ_MANUAL \<equiv> 0x01000000"

definition PHOTONIC_FEATINQ_MIN :: "ULONG \<Rightarrow> ULONG" where
  "PHOTONIC_FEATINQ_MIN w = drop_bit 12 w AND 0xfff"

definition PHOTONIC_FEATINQ_MAX :: "ULONG \<Rightarrow> ULONG" where
  "PHOTONIC_FEATINQ_MAX w = w AND 0xfff"

record feature_map =
  fmSet :: guid
  fmId :: ULONG
  InquiryRegister :: ULONG

definition g_PhotonicFeatureMap :: "feature_map list" where
  "g_PhotonicFeatureMap =
    map (\<lambda>(i, r). \<lparr>fmSet = PHOTONIC_PROPSETID_VIDCAP_VIDEOPROCAMP, fmId = i, InquiryRegister = r\<rparr>)
      [(0, 0x500), (1, 0x520), (2, 0x510), (3, 0x514), (4, 0x508), (5, 0x518), (7, 0x50c)] @
    map (\<lambda>(i, r). \<lparr>fmSet = PHOTONIC_PROPSETID_VIDCAP_CAMERACONTROL, fmId = i, InquiryRegister = r\<rparr>)
      [(0, 0x584), (1, 0x588), (3, 0x580), (4, 0x51c), (5, 0x524), (6, 0x528)]"

definition PhotonicFindFeature :: "guid \<Rightarrow> ULONG \<Rightarrow> nat option" where
  "PhotonicFindFeature set_guid prop_id =
     find (\<lambda>i. fmId (g_PhotonicFeatureMap ! i) = prop_id \<and> fmSet (g_PhotonicFeatureMap ! i) = set_guid)
       [0..<length g_PhotonicFeatureMap]"

definition valueRegister :: "feature_map \<Rightarrow> ULONG" where
  "valueRegister m = InquiryRegister m + PHOTONIC_DCAM_FEATURE_VALUE_OFFSET"

section \<open>Discovery\<close>

text \<open>PHOTONIC_IMAGER_FEATURE without the KS range data, which is that of its property item.\<close>

record imager_feature =
  Present :: bool
  AutoSupported :: bool
  Minimum :: ULONG
  Maximum :: ULONG
  DefaultValue :: ULONG

definition absentFeature :: imager_feature where
  "absentFeature = \<lparr>Present = False, AutoSupported = False, Minimum = 0, Maximum = 0, DefaultValue = 0\<rparr>"

definition inquiryUsable :: "ULONG \<Rightarrow> bool" where
  "inquiryUsable inquiry \<longleftrightarrow> inquiry AND PHOTONIC_FEATINQ_PRESENCE \<noteq> 0 \<and> inquiry AND PHOTONIC_FEATINQ_READOUT \<noteq> 0 \<and>
     inquiry AND PHOTONIC_FEATINQ_MANUAL \<noteq> 0 \<and> PHOTONIC_FEATINQ_MIN inquiry < PHOTONIC_FEATINQ_MAX inquiry"

text \<open>
  The probe of the auto mode: a write and a read back, the read only after a successful write.
\<close>

definition probeAuto :: "'b env \<Rightarrow> ULONG \<Rightarrow> ULONG \<Rightarrow> 'b drv \<Rightarrow> bool \<times> 'b drv" where
  "probeAuto ev reg word d =
     (case Photonic1394WriteRegister ev reg (PHOTONIC_FEATURE_PRESENCE OR PHOTONIC_FEATURE_ON OR
             PHOTONIC_FEATURE_AUTO OR (word AND PHOTONIC_FEATURE_VALUE_MASK)) d of
        (Inl _, d1) \<Rightarrow> (False, d1)
      | (Inr _, d1) \<Rightarrow> (case Photonic1394ReadRegister ev reg d1 of
            (Inl _, d2) \<Rightarrow> (False, d2)
          | (Inr probe, d2) \<Rightarrow> (probe AND PHOTONIC_FEATURE_AUTO \<noteq> 0, d2)))"

text \<open>The probe of the range; None when the full-scale write is rejected.\<close>

definition probeFeature :: "'b env \<Rightarrow> ULONG \<Rightarrow> ULONG \<Rightarrow> 'b drv \<Rightarrow> imager_feature option \<times> 'b drv" where
  "probeFeature ev reg word d =
     (case Photonic1394WriteRegister ev reg (PHOTONIC_FEATURE_PRESENCE OR PHOTONIC_FEATURE_ON OR
             PHOTONIC_FEATURE_VALUE_MASK) d of
        (Inl _, d1) \<Rightarrow> (None, d1)
      | (Inr _, d1) \<Rightarrow> (case Photonic1394ReadRegister ev reg d1 of (r, d2) \<Rightarrow>
          (case probeAuto ev reg word d2 of (auto_ok, d3) \<Rightarrow>
            (Some (absentFeature\<lparr>AutoSupported := auto_ok,
                Maximum := (case r of Inl _ \<Rightarrow> 0 | Inr probe \<Rightarrow> probe AND PHOTONIC_FEATURE_VALUE_MASK)\<rparr>),
             snd (Photonic1394WriteRegister ev reg word d3)))))"

text \<open>The default value is the current one, clamped into the range.\<close>

definition presentFeature :: "ULONG \<Rightarrow> imager_feature \<Rightarrow> imager_feature" where
  "presentFeature word f =
     (let v = word AND PHOTONIC_FEATURE_VALUE_MASK;
          v1 = (if sint v < sint (Minimum f) then Minimum f else v);
          v2 = (if sint v1 > sint (Maximum f) then Maximum f else v1)
      in f\<lparr>DefaultValue := v2, Present := True\<rparr>)"

definition PhotonicDiscoverImagerFeature ::
  "'b env \<Rightarrow> feature_map \<Rightarrow> 'b drv \<Rightarrow> imager_feature \<times> 'b drv" where
  "PhotonicDiscoverImagerFeature ev m d =
     (case Photonic1394ReadRegister ev (valueRegister m) d of
        (Inl _, d1) \<Rightarrow> (absentFeature, d1)
      | (Inr word, d1) \<Rightarrow>
          if word AND PHOTONIC_FEATURE_PRESENCE = 0 then (absentFeature, d1)
          else (case Photonic1394ReadRegister ev (InquiryRegister m) d1 of (r, d2) \<Rightarrow>
            (case (case r of Inl _ \<Rightarrow> None | Inr inquiry \<Rightarrow> if inquiryUsable inquiry then Some inquiry else None) of
               Some inquiry \<Rightarrow>
                 (presentFeature word (absentFeature\<lparr>Minimum := PHOTONIC_FEATINQ_MIN inquiry,
                    Maximum := PHOTONIC_FEATINQ_MAX inquiry,
                    AutoSupported := (inquiry AND PHOTONIC_FEATINQ_AUTO \<noteq> 0)\<rparr>), d2)
             | None \<Rightarrow> (case probeFeature ev (valueRegister m) word d2 of
                   (None, d3) \<Rightarrow> (absentFeature, d3)
                 | (Some f, d3) \<Rightarrow>
                     if sint (Maximum f) \<le> sint (Minimum f) then (f, d3) else (presentFeature word f, d3)))))"

definition PhotonicInitImagerPropertyItem :: "imager_feature \<Rightarrow> ULONG \<Rightarrow> property_item" where
  "PhotonicInitImagerPropertyItem f prop_id =
     \<lparr>PropertyId = prop_id, GetSupported = True, SetSupported = True, MinProperty = sizeof_KSPROPERTY_VIDEOPROCAMP_S,
      MinData = sizeof_KSPROPERTY_VIDEOPROCAMP_S,
      itRange = Some (Minimum f, Maximum f, PHOTONIC_FEATURE_STEP, DefaultValue f)\<rparr>"

fun discoverFeatures :: "'b env \<Rightarrow> feature_map list \<Rightarrow> 'b drv \<Rightarrow> imager_feature list \<times> 'b drv" where
  "discoverFeatures ev [] d = ([], d)"
| "discoverFeatures ev (m # ms) d =
     (case PhotonicDiscoverImagerFeature ev m d of (f, d1) \<Rightarrow>
        (case discoverFeatures ev ms d1 of (fs, d2) \<Rightarrow> (f # fs, d2)))"

text \<open>The items of one set: its present controls in map order; the set only when it has any.\<close>

definition imagerSet :: "imager_feature list \<Rightarrow> guid \<Rightarrow> property_set list" where
  "imagerSet fs set_guid =
     (let items = [PhotonicInitImagerPropertyItem f (fmId m). (m, f) \<leftarrow> zip g_PhotonicFeatureMap fs,
                     fmSet m = set_guid \<and> Present f]
      in if items = [] then [] else [\<lparr>psSet = set_guid, psItems = items\<rparr>])"

definition PhotonicBuildDevicePropertySets ::
  "'b env \<Rightarrow> 'b drv \<Rightarrow> (imager_feature list \<times> property_set list) \<times> 'b drv" where
  "PhotonicBuildDevicePropertySets ev d =
     (case (if CsrBaseAddress (fst d) \<noteq> 0 then discoverFeatures ev g_PhotonicFeatureMap d
            else (replicate (length g_PhotonicFeatureMap) absentFeature, d)) of (fs, d1) \<Rightarrow>
        ((fs, [\<lparr>psSet = PHOTONIC_PROPSETID_VIDCAP_VIDEOCONTROL, psItems = g_PhotonicVideoControlProperties\<rparr>] @
              imagerSet fs PHOTONIC_PROPSETID_VIDCAP_VIDEOPROCAMP @ imagerSet fs PHOTONIC_PROPSETID_VIDCAP_CAMERACONTROL), d1))"

section \<open>GET and SET\<close>

abbreviation (input) FLAGS_AUTO :: ULONG where "FLAGS_AUTO \<equiv> 1"
abbreviation (input) FLAGS_MANUAL :: ULONG where "FLAGS_MANUAL \<equiv> 2"

text \<open>The payload of KSPROPERTY_VIDEOPROCAMP_S.\<close>

record imager_value =
  ivValue :: ULONG
  ivFlags :: ULONG
  ivCapabilities :: ULONG

text \<open>A property descriptor: the set, the id, the size of the payload buffer, and the payload.\<close>

record property_request =
  prSet :: guid
  prId :: ULONG
  PropertyOutputSize :: ULONG
  prValue :: imager_value

definition presentIndex :: "imager_feature list \<Rightarrow> property_request \<Rightarrow> nat option" where
  "presentIndex fs p =
     (case PhotonicFindFeature (prSet p) (prId p) of
        None \<Rightarrow> None | Some i \<Rightarrow> if Present (fs ! i) then Some i else None)"

definition PhotonicImagerGetProperty ::
  "'b env \<Rightarrow> imager_feature list \<Rightarrow> property_request \<Rightarrow> ('b drv, imager_value \<times> ULONG) comp" where
  "PhotonicImagerGetProperty ev fs p d =
     (case presentIndex fs p of
        None \<Rightarrow> (Inl STATUS_NOT_FOUND, d)
      | Some i \<Rightarrow>
          if PropertyOutputSize p < sizeof_KSPROPERTY_VIDEOPROCAMP_S then (Inl KSSTATUS_BUFFER_TOO_SMALL, d)
          else andThen (Photonic1394ReadRegister ev (valueRegister (g_PhotonicFeatureMap ! i))) (\<lambda>word.
            ret (\<lparr>ivValue = word AND PHOTONIC_FEATURE_VALUE_MASK,
                  ivFlags = (if word AND PHOTONIC_FEATURE_AUTO \<noteq> 0 then FLAGS_AUTO else FLAGS_MANUAL),
                  ivCapabilities = (if AutoSupported (fs ! i) then FLAGS_MANUAL OR FLAGS_AUTO else FLAGS_MANUAL)\<rparr>,
                 sizeof_KSPROPERTY_VIDEOPROCAMP_S)) d)"

definition clampFeature :: "imager_feature \<Rightarrow> ULONG \<Rightarrow> ULONG" where
  "clampFeature f v =
     (let v1 = (if sint v < sint (Minimum f) then Minimum f else v) in
      if sint v1 > sint (Maximum f) then Maximum f else v1)"

text \<open>The word of a SET: the mode and value fields are composed, the rest of the register preserved.\<close>

definition imagerWord :: "imager_feature \<Rightarrow> imager_value \<Rightarrow> ULONG \<Rightarrow> ULONG" where
  "imagerWord f v current =
     (let word = (current AND NOT (PHOTONIC_FEATURE_ON OR PHOTONIC_FEATURE_AUTO OR PHOTONIC_FEATURE_VALUE_MASK)) OR
                 PHOTONIC_FEATURE_PRESENCE OR PHOTONIC_FEATURE_ON OR
                 (clampFeature f (ivValue v) AND PHOTONIC_FEATURE_VALUE_MASK)
      in if ivFlags v AND FLAGS_AUTO \<noteq> 0 \<and> AutoSupported f then word OR PHOTONIC_FEATURE_AUTO else word)"

definition PhotonicImagerSetProperty ::
  "'b env \<Rightarrow> imager_feature list \<Rightarrow> property_request \<Rightarrow> ('b drv, unit) comp" where
  "PhotonicImagerSetProperty ev fs p d =
     (case presentIndex fs p of
        None \<Rightarrow> (Inl STATUS_NOT_FOUND, d)
      | Some i \<Rightarrow>
          if PropertyOutputSize p < sizeof_KSPROPERTY_VIDEOPROCAMP_S then (Inl KSSTATUS_BUFFER_TOO_SMALL, d)
          else let reg = valueRegister (g_PhotonicFeatureMap ! i) in
            (case Photonic1394ReadRegister ev reg d of (r, d1) \<Rightarrow>
               Photonic1394WriteRegister ev reg
                 (imagerWord (fs ! i) (prValue p) (case r of Inl _ \<Rightarrow> 0 | Inr current \<Rightarrow> current)) d1))"

text \<open>The reply of a device-level GET: the (empty) video-control capabilities or a control's value.\<close>

datatype device_property = VideoControlCaps ULONG | ImagerValue imager_value

definition PhotonicGetDeviceProperty ::
  "'b env \<Rightarrow> imager_feature list \<Rightarrow> property_request \<Rightarrow> ('b drv, device_property \<times> ULONG) comp" where
  "PhotonicGetDeviceProperty ev fs p d =
     (if prSet p = PHOTONIC_PROPSETID_VIDCAP_VIDEOCONTROL \<and> prId p = 0
      then if PropertyOutputSize p < sizeof_KSPROPERTY_VIDEOCONTROL_CAPS_S then (Inl KSSTATUS_BUFFER_TOO_SMALL, d)
           else (Inr (VideoControlCaps 0, sizeof_KSPROPERTY_VIDEOCONTROL_CAPS_S), d)
      else andThen (PhotonicImagerGetProperty ev fs p) (\<lambda>(v, n). ret (ImagerValue v, n)) d)"

definition PhotonicSetDeviceProperty ::
  "'b env \<Rightarrow> imager_feature list \<Rightarrow> property_request \<Rightarrow> ('b drv, unit) comp" where
  "PhotonicSetDeviceProperty ev fs p = PhotonicImagerSetProperty ev fs p"

text \<open>The allocator framing of the pin.\<close>

record allocator_framing =
  RequirementsFlags :: ULONG
  PoolType :: ULONG
  afFrames :: ULONG
  FrameSize :: ULONG
  FileAlignment :: ULONG

definition PhotonicGetStreamProperty :: "ULONG \<Rightarrow> property_request \<Rightarrow> NTSTATUS + allocator_framing \<times> ULONG" where
  "PhotonicGetStreamProperty maxSampleSize p =
     (if prSet p = PHOTONIC_KSPROPSETID_Connection \<and> prId p = 3
      then if PropertyOutputSize p < sizeof_KSALLOCATOR_FRAMING then Inl KSSTATUS_BUFFER_TOO_SMALL
           else Inr (\<lparr>RequirementsFlags = 0x2 OR 0x1 OR 0x80000000, PoolType = 1,
                      afFrames = of_nat PHOTONIC_CAPTURE_FRAME_COUNT, FrameSize = maxSampleSize,
                      FileAlignment = 4096 - 1\<rparr>, sizeof_KSALLOCATOR_FRAMING)
      else Inl STATUS_NOT_FOUND)"

definition PhotonicSetStreamProperty :: "property_request \<Rightarrow> NTSTATUS" where
  "PhotonicSetStreamProperty p = STATUS_NOT_FOUND"

definition PhotonicGetStreamPropertySet :: "property_set list" where
  "PhotonicGetStreamPropertySet = g_PhotonicStreamProperties"

end
