(* ===== verification/Device_Srb.thy ===== *)
theory Device_Srb
  imports Ioctl_Dispatch Stream_Intersect Property_Sets
begin

text \<open>
  photonic/dispatch.c, photonic/stream/lifecycle.c and photonic/stream/control.c: the SRBs the class
  driver sends.  A device SRB or a stream control SRB takes the device with its tables and gives its
  status with both updated.  As for the IOCTL handlers, \<open>es\<close> is the schedule of the capture engine during
  the handler's one call into it, and the result is None when the machine does not admit it.
\<close>

section \<open>The device's tables\<close>

text \<open>
  What the SRB interface keeps in the device extension beside \<open>'b device\<close>: the advertised formats, the
  image controls and property sets, the power state and whether the control work item is allocated.
  \<open>ClosedPins\<close> records the streams closed.
\<close>

record 'b tables =
  FormatTable :: format_table
  ImagerFeatures :: "imager_feature list"
  DevicePropertySets :: "property_set list"
  DevicePowerState :: nat
  ControlWorkItem :: bool
  ClosedPins :: "('b, read_queue) world list"

type_synonym 'b served = "(NTSTATUS \<times> 'b device \<times> 'b tables) option"

section \<open>Opening the pin\<close>

text \<open>
  The part of PhotonicStreamOpen that reads the connection format: None when the image size the header
  claims contradicts its geometry.
\<close>

definition openFormat :: "video_mode list \<Rightarrow> format_table \<Rightarrow> data_format option \<Rightarrow> stream option" where
  "openFormat modes t fmt =
     (case fmt of
        None \<Rightarrow> Some PhotonicStreamExtensionInit
      | Some f \<Rightarrow>
          if dfFormatSize f < sizeof_KS_DATAFORMAT_VIDEOINFOHEADER then Some PhotonicStreamExtensionInit
          else
            let h = dfVideoInfo f; b = bmiHeader h; w = biWidth b; height = absLong (biHeight b);
                bits = ucast (biBitCount b); size = PhotonicImageBytes w height bits;
                i = ucast (AvgTimePerFrame h); interval = (if i = 0 then PHOTONIC_DEFAULT_FRAME_TIME else i);
                n = \<lparr>ngWidth = w, ngHeight = height, ngBitCount = bits, ngCompression = biCompression b, ngInterval = interval\<rparr>
            in if biSizeImage b \<noteq> 0 \<and> biSizeImage b \<noteq> size then None
               else Some (PhotonicStreamExtensionInit\<lparr>sWidth := w, sHeight := height, ImageSize := size,
                      FrameInterval := interval, sMode := PhotonicStreamFindNegotiatedMode modes t n\<rparr>))"

text \<open>The read queue of a zeroed stream extension; the SRBs are the class driver's memory.\<close>

definition newQueue :: "(nat \<Rightarrow> srb) \<Rightarrow> read_queue" where
  "newQueue srbs = \<lparr>PendingReads = [], Srbs = srbs, FrameNumber = 0, rqCompleted = [], rqReady = 0\<rparr>"

definition PhotonicStreamOpen ::
  "'b env \<Rightarrow> (nat \<Rightarrow> srb) \<Rightarrow> ULONG \<Rightarrow> data_format option \<Rightarrow> 'b device \<Rightarrow> 'b tables \<Rightarrow> NTSTATUS \<times> 'b device" where
  "PhotonicStreamOpen ev srbs StreamNumber fmt dv tb =
     (if StreamNumber \<noteq> 0 then (STATUS_INVALID_PARAMETER, dv)
      else if isRemoved dv then (STATUS_DEVICE_REMOVED, dv)
      else if ActiveCaptureStream dv \<noteq> NoStream then (STATUS_DEVICE_BUSY, dv)
      else case drvOf dv of (x, b) \<Rightarrow> (case PhotonicCaptureCreate ev b of
          ((status, None), b1) \<Rightarrow> (status, setDrv (x, b1) dv)
        | ((status, Some c), b1) \<Rightarrow> (case openFormat (Modes x) (FormatTable tb) fmt of
              None \<Rightarrow> (STATUS_INVALID_PARAMETER, setDrv (x, b1) dv)
            | Some s \<Rightarrow>
                (STATUS_SUCCESS, dv\<lparr>VideoStream := Some (opened c (x, b1) s (newQueue srbs)),
                   ActiveCaptureStream := DirectShowStream\<rparr>))))"

text \<open>
  The close is the program EvClose of the machine: the rundown of the data path, the stop, the
  destruction of the engine and the last drain.
\<close>

definition PhotonicStreamClose ::
  "'b env \<Rightarrow> ULONG \<Rightarrow> event list \<Rightarrow> 'b device \<Rightarrow> 'b tables \<Rightarrow> 'b served" where
  "PhotonicStreamClose ev extended es dv tb =
     (case VideoStream dv of
        None \<Rightarrow> None
      | Some w \<Rightarrow> (case engineCall ev (streamFront extended) es EvClose w of
            None \<Rightarrow> None
          | Some w1 \<Rightarrow> Some (STATUS_SUCCESS,
              dv\<lparr>dvDrv := wDrv w1, VideoStream := None, ActiveCaptureStream := NoStream\<rparr>,
              tb\<lparr>ClosedPins := ClosedPins tb @ [w1]\<rparr>)))"

section \<open>Stream control\<close>

definition setPin :: "('b, read_queue) world \<Rightarrow> 'b device \<Rightarrow> 'b device" where
  "setPin w dv = dv\<lparr>VideoStream := Some w\<rparr>"

definition resetFrameNumber :: "('b, read_queue) world \<Rightarrow> ('b, read_queue) world" where
  "resetFrameNumber w = (if Draining (wEng w) then w\<lparr>wFe := (wFe w)\<lparr>FrameNumber := 0\<rparr>\<rparr> else w)"

definition PhotonicStreamControlSetState ::
  "'b env \<Rightarrow> ULONG \<Rightarrow> event list \<Rightarrow> KSSTATE \<Rightarrow> ('b, read_queue) world \<Rightarrow> (NTSTATUS \<times> ('b, read_queue) world) option" where
  "PhotonicStreamControlSetState ev extended es newState w =
     (if newState = KSSTATE_RUN
      then map_option (\<lambda>w1. (returned w1, w1))
             (engineCall ev (streamFront extended) es (EvStart True) (resetFrameNumber w))
      else if newState = KSSTATE_STOP
      then map_option (\<lambda>w1. (STATUS_SUCCESS, w1)) (engineCall ev (streamFront extended) es EvStop w)
      else Some (STATUS_SUCCESS, w\<lparr>wStream := (wStream w)\<lparr>StreamState := newState\<rparr>\<rparr>))"

definition PhotonicStreamControlGetState :: "('b, 'f) world \<Rightarrow> KSSTATE" where
  "PhotonicStreamControlGetState w = StreamState (wStream w)"

text \<open>PhotonicStreamCompletePendingReads, its lock sections one after the other.\<close>

function flushReads :: "ULONG \<Rightarrow> stream \<Rightarrow> read_queue \<Rightarrow> read_queue" where
  "flushReads extended s q =
     (case PhotonicStreamCompletePendingReads extended s q of None \<Rightarrow> q | Some q1 \<Rightarrow> flushReads extended s q1)"
  by pat_completeness auto

termination
  by (relation "measure (\<lambda>(e, s, q). length (PendingReads q))")
    (auto simp: PhotonicStreamCompletePendingReads_def split: list.splits)

declare flushReads.simps [simp del]

definition PhotonicStreamControlBeginFlush ::
  "ULONG \<Rightarrow> ('b, read_queue) world \<Rightarrow> NTSTATUS \<times> ('b, read_queue) world" where
  "PhotonicStreamControlBeginFlush extended w =
     (STATUS_SUCCESS, w\<lparr>wFe := flushReads extended (wStream w) (wFe w)\<rparr>)"

datatype control_srb =
    SRB_SET_STREAM_STATE KSSTATE
  | SRB_GET_STREAM_STATE
  | SRB_GET_STREAM_PROPERTY property_request
  | SRB_SET_STREAM_PROPERTY property_request
  | SRB_OPEN_MASTER_CLOCK
  | SRB_INDICATE_MASTER_CLOCK
  | SRB_CLOSE_MASTER_CLOCK
  | SRB_BEGIN_FLUSH
  | SRB_END_FLUSH
  | SRB_PROPOSE_DATA_FORMAT
  | SRB_SET_DATA_FORMAT
  | SRB_GET_DATA_FORMAT
  | SRB_SET_STREAM_RATE
  | SRB_PROPOSE_STREAM_RATE
  | SRB_UNKNOWN_STREAM_COMMAND

text \<open>What a control SRB hands back beside its status.\<close>

datatype control_reply = NoControlReply | StateReply KSSTATE | FramingReply allocator_framing ULONG

definition PhotonicStreamReceiveControlPacket ::
  "'b env \<Rightarrow> ULONG \<Rightarrow> event list \<Rightarrow> control_srb \<Rightarrow> ('b, read_queue) world \<Rightarrow> 'b tables \<Rightarrow>
     (NTSTATUS \<times> control_reply \<times> ('b, read_queue) world) option" where
  "PhotonicStreamReceiveControlPacket ev extended es srb w tb =
     (case srb of
        SRB_SET_STREAM_STATE st \<Rightarrow>
          map_option (\<lambda>(status, w1). (status, NoControlReply, w1)) (PhotonicStreamControlSetState ev extended es st w)
      | SRB_GET_STREAM_STATE \<Rightarrow> Some (STATUS_SUCCESS, StateReply (PhotonicStreamControlGetState w), w)
      | SRB_GET_STREAM_PROPERTY p \<Rightarrow>
          (case PhotonicGetStreamProperty (MaxSampleSize (FormatTable tb)) p of
             Inl status \<Rightarrow> Some (status, NoControlReply, w)
           | Inr (framing, n) \<Rightarrow> Some (STATUS_SUCCESS, FramingReply framing n, w))
      | SRB_SET_STREAM_PROPERTY p \<Rightarrow> Some (PhotonicSetStreamProperty p, NoControlReply, w)
      | SRB_OPEN_MASTER_CLOCK \<Rightarrow> Some (STATUS_SUCCESS, NoControlReply, w)
      | SRB_INDICATE_MASTER_CLOCK \<Rightarrow> Some (STATUS_SUCCESS, NoControlReply, w)
      | SRB_CLOSE_MASTER_CLOCK \<Rightarrow> Some (STATUS_SUCCESS, NoControlReply, w)
      | SRB_BEGIN_FLUSH \<Rightarrow>
          (case PhotonicStreamControlBeginFlush extended w of (status, w1) \<Rightarrow> Some (status, NoControlReply, w1))
      | SRB_END_FLUSH \<Rightarrow> Some (STATUS_SUCCESS, NoControlReply, w)
      | _ \<Rightarrow> Some (STATUS_NOT_IMPLEMENTED, NoControlReply, w))"

section \<open>Bring-up\<close>

text \<open>A call that only returns a status, in the chain of the bring-up.\<close>

definition calls :: "('s \<Rightarrow> NTSTATUS \<times> 's) \<Rightarrow> ('s, unit) comp" where
  "calls f s = (case f s of (status, s1) \<Rightarrow> (if NT_SUCCESS status then Inr () else Inl status, s1))"

definition PhotonicBringUpDevice :: "'b env \<Rightarrow> ('b drv, unit) comp" where
  "PhotonicBringUpDevice ev =
     andThen (calls (Photonic1394RegisterBusResetNotification ev)) (\<lambda>_.
     andThen (calls (Photonic1394RefreshBusState ev)) (\<lambda>_.
     andThen (Photonic1394DiscoverCsrBase ev) (\<lambda>_.
     andThen (PhotonicDcamReset ev) (\<lambda>_.
     PhotonicDcamEnumerateModes ev))))"

text \<open>The zeroed extension with the device objects of the port configuration.\<close>

definition zeroExtension :: "bool \<Rightarrow> extension" where
  "zeroExtension pdo = \<lparr>HasPdo = pdo, CsrBaseAddress = 0, BusGeneration = 0, HostCapabilities = 0,
     MaxAsyncReadRequest = 0, MaxAsyncWriteRequest = 0, MaxDmaBufferSize = 0, MaxSpeedCode = 0,
     BusResetRegistered = False, BusResetPending = False, Modes = [], Removed = False\<rparr>"

definition zeroDevice :: "bool \<Rightarrow> 'b \<Rightarrow> 'b device" where
  "zeroDevice pdo b = \<lparr>dvDrv = (zeroExtension pdo, b), LastError = PL_SUCCESS, VideoStream = None,
     ActiveCaptureStream = NoStream, IoctlCapture = None, Retired = []\<rparr>"

definition zeroTables :: "'b tables" where
  "zeroTables = \<lparr>FormatTable = \<lparr>VideoRanges = [], RangeModeIndex = [], MaxSampleSize = 0,
       VideoStreamInfo = \<lparr>NumberOfPossibleInstances = 0, DataAccessible = False, NumberOfFormatArrayEntries = 0,
         StreamFormatsArray = [], Category = GUID_NULL, MediumsCount = 0\<rparr>\<rparr>,
     ImagerFeatures = replicate (length g_PhotonicFeatureMap) absentFeature, DevicePropertySets = [],
     DevicePowerState = 0, ControlWorkItem = False, ClosedPins = []\<rparr>"

abbreviation (input) PowerDeviceD0 :: nat where "PowerDeviceD0 \<equiv> 1"

text \<open>
  \<open>workItem\<close> is whether IoAllocateWorkItem succeeds.  The registration of the device with the IOCTL
  routing is done by the dispatcher below when the status is a success.
\<close>

definition PhotonicInitializeDevice ::
  "'b env \<Rightarrow> bool \<Rightarrow> bool \<Rightarrow> 'b \<Rightarrow> NTSTATUS \<times> 'b device \<times> 'b tables" where
  "PhotonicInitializeDevice ev workItem pdo b =
     (let dv = zeroDevice pdo b; tb = zeroTables\<lparr>DevicePowerState := PowerDeviceD0\<rparr> in
      if \<not> workItem then (STATUS_INSUFFICIENT_RESOURCES, dv, tb)
      else case PhotonicBringUpDevice ev (dvDrv dv) of (r, (x, b1)) \<Rightarrow>
        let x1 = (case r of Inl _ \<Rightarrow> x\<lparr>Modes := []\<rparr> | Inr _ \<Rightarrow> x) in
        (case PhotonicBuildDevicePropertySets ev (x1, b1) of ((fs, sets), (x2, b2)) \<Rightarrow>
           (STATUS_SUCCESS, dv\<lparr>dvDrv := (x2, b2)\<rparr>,
            tb\<lparr>ControlWorkItem := True, ImagerFeatures := fs, DevicePropertySets := sets,
               FormatTable := PhotonicStreamFormatBuild (Modes x2) (FormatTable tb)\<rparr>)))"

definition PhotonicChangePowerState :: "nat \<Rightarrow> 'b tables \<Rightarrow> NTSTATUS \<times> 'b tables" where
  "PhotonicChangePowerState st tb = (STATUS_SUCCESS, tb\<lparr>DevicePowerState := st\<rparr>)"

section \<open>Removal\<close>

definition markRemoved :: "'b device \<Rightarrow> 'b device" where
  "markRemoved dv = setDrv ((fst (drvOf dv))\<lparr>Removed := True\<rparr>, snd (drvOf dv)) dv"

text \<open>The stop of the active session, whichever interface owns it.\<close>

definition PhotonicSurpriseRemoval ::
  "'b env \<Rightarrow> ULONG \<Rightarrow> event list \<Rightarrow> 'b device \<Rightarrow> (NTSTATUS \<times> 'b device) option" where
  "PhotonicSurpriseRemoval ev extended es dv =
     (let dv1 = markRemoved dv in
      case ActiveCaptureStream dv1 of
        NoStream \<Rightarrow> Some (STATUS_SUCCESS, dv1)
      | DirectShowStream \<Rightarrow> (case VideoStream dv1 of
            None \<Rightarrow> None
          | Some w \<Rightarrow> map_option (\<lambda>w1. (STATUS_SUCCESS, setPin w1 dv1)) (engineCall ev (streamFront extended) es EvStop w))
      | IoctlStream \<Rightarrow> map_option (\<lambda>dv2. (STATUS_SUCCESS, dv2)) (PhotonicIoctlCaptureStop ev es dv1))"

text \<open>
  SRB_UNINITIALIZE_DEVICE after the device has left the IOCTL routing.  The wait for the remove lock
  changes nothing here: it lets the requests in flight end.
\<close>

definition uninitializeDevice ::
  "'b env \<Rightarrow> event list \<Rightarrow> 'b device \<Rightarrow> 'b tables \<Rightarrow> 'b served" where
  "uninitializeDevice ev es dv tb =
     (case PhotonicIoctlCaptureRelease ev es dv of
        None \<Rightarrow> None
      | Some dv1 \<Rightarrow> Some (STATUS_SUCCESS,
          setDrv (Photonic1394DeregisterBusResetNotification ev (drvOf dv1)) dv1, tb\<lparr>ControlWorkItem := False\<rparr>))"

section \<open>Device SRBs\<close>

text \<open>The IRP behind an unknown command: its major and minor function codes.\<close>

abbreviation (input) IRP_MJ_PNP :: nat where "IRP_MJ_PNP \<equiv> 0x1b"
abbreviation (input) IRP_MN_QUERY_PNP_DEVICE_STATE :: nat where "IRP_MN_QUERY_PNP_DEVICE_STATE \<equiv> 0x14"

text \<open>The second component is IoStatus.Information where the handler sets it.\<close>

definition PhotonicUnknownDeviceCommand :: "(nat \<times> nat) option \<Rightarrow> NTSTATUS \<times> ULONG64 option" where
  "PhotonicUnknownDeviceCommand i =
     (case i of
        None \<Rightarrow> (STATUS_NOT_IMPLEMENTED, None)
      | Some (major, minor) \<Rightarrow>
          if major = IRP_MJ_PNP \<and> minor = IRP_MN_QUERY_PNP_DEVICE_STATE then (STATUS_SUCCESS, Some 0)
          else (STATUS_NOT_IMPLEMENTED, None))"

datatype device_srb =
    SRB_INITIALIZE_DEVICE bool bool
  | SRB_GET_STREAM_INFO
  | SRB_OPEN_STREAM ULONG "data_format option"
  | SRB_CLOSE_STREAM
  | SRB_GET_DATA_INTERSECTION ULONG data_range ULONG
  | SRB_CHANGE_POWER_STATE nat
  | SRB_SURPRISE_REMOVAL
  | SRB_UNINITIALIZE_DEVICE
  | SRB_INITIALIZATION_COMPLETE
  | SRB_GET_DEVICE_PROPERTY property_request
  | SRB_SET_DEVICE_PROPERTY property_request
  | SRB_OPEN_DEVICE_INSTANCE
  | SRB_CLOSE_DEVICE_INSTANCE
  | SRB_NOTIFY_IDLE_STATE
  | SRB_PAGING_OUT_DRIVER
  | SRB_DEVICE_METHOD
  | SRB_STREAM_METHOD
  | SRB_UNKNOWN_DEVICE_COMMAND "(nat \<times> nat) option"

text \<open>PhotonicStreamGetInfo: one stream, the device's property sets, and the capture stream.\<close>

record stream_descriptor =
  NumberOfStreams :: nat
  DevicePropertiesArray :: "property_set list"
  StreamInfo :: "stream_information list"

definition PhotonicStreamGetInfo :: "'b tables \<Rightarrow> stream_descriptor" where
  "PhotonicStreamGetInfo tb = \<lparr>NumberOfStreams = 1, DevicePropertiesArray = DevicePropertySets tb,
     StreamInfo = [VideoStreamInfo (FormatTable tb)]\<rparr>"

datatype device_reply =
    NoReply
  | DescriptorReply stream_descriptor
  | IntersectionReply intersection ULONG
  | PropertyReply device_property ULONG
  | InformationReply ULONG64

text \<open>
  The driver with its devices' tables.  \<open>srbs\<close> is the class driver's SRB memory; \<open>dev\<close> the extension the
  SRB is for, whose ClassDeviceObject is \<open>Fdo\<close> of the driver.
\<close>

type_synonym 'b minidriver = "'b driver \<times> (nat \<Rightarrow> 'b tables)"

definition putDevice :: "nat \<Rightarrow> 'b device \<Rightarrow> 'b tables \<Rightarrow> 'b minidriver \<Rightarrow> 'b minidriver" where
  "putDevice dev dv tb = (\<lambda>(g, t). (g\<lparr>Extensions := (Extensions g)(dev := dv)\<rparr>, t(dev := tb)))"

definition PhotonicReceivePacket ::
  "'b env \<Rightarrow> ULONG \<Rightarrow> (nat \<Rightarrow> srb) \<Rightarrow> event list \<Rightarrow> nat \<Rightarrow> device_srb \<Rightarrow> 'b minidriver \<Rightarrow>
     (NTSTATUS \<times> device_reply \<times> 'b minidriver) option" where
  "PhotonicReceivePacket ev extended srbs es dev srb m =
     (let g = fst m; dv = Extensions g dev; tb = snd m dev in
      case srb of
        SRB_INITIALIZE_DEVICE workItem pdo \<Rightarrow>
          (case PhotonicInitializeDevice ev workItem pdo (snd (drvOf dv)) of (status, dv1, tb1) \<Rightarrow>
             let (g1, t1) = putDevice dev dv1 tb1 m in
             Some (status, NoReply, if NT_SUCCESS status then PhotonicIoctlRegisterDevice dev g1 else g1, t1))
      | SRB_GET_STREAM_INFO \<Rightarrow> Some (STATUS_SUCCESS, DescriptorReply (PhotonicStreamGetInfo tb), m)
      | SRB_OPEN_STREAM n fmt \<Rightarrow>
          (case PhotonicStreamOpen ev srbs n fmt dv tb of (status, dv1) \<Rightarrow>
             Some (status, NoReply, putDevice dev dv1 tb m))
      | SRB_CLOSE_STREAM \<Rightarrow>
          map_option (\<lambda>(status, dv1, tb1). (status, NoReply, putDevice dev dv1 tb1 m))
            (PhotonicStreamClose ev extended es dv tb)
      | SRB_GET_DATA_INTERSECTION n req len \<Rightarrow>
          (case PhotonicStreamGetDataIntersection (FormatTable tb) n req len of
             Inl status \<Rightarrow> Some (status, NoReply, m)
           | Inr (i, bytes) \<Rightarrow> Some (STATUS_SUCCESS, IntersectionReply i bytes, m))
      | SRB_CHANGE_POWER_STATE st \<Rightarrow>
          (case PhotonicChangePowerState st tb of (status, tb1) \<Rightarrow> Some (status, NoReply, putDevice dev dv tb1 m))
      | SRB_SURPRISE_REMOVAL \<Rightarrow>
          map_option (\<lambda>(status, dv1). (status, NoReply, putDevice dev dv1 tb m)) (PhotonicSurpriseRemoval ev extended es dv)
      | SRB_UNINITIALIZE_DEVICE \<Rightarrow>
          (let m1 = (PhotonicIoctlDeregisterDevice dev g, snd m) in
           map_option (\<lambda>(status, dv1, tb1). (status, NoReply, putDevice dev dv1 tb1 m1)) (uninitializeDevice ev es dv tb))
      | SRB_GET_DEVICE_PROPERTY p \<Rightarrow>
          (case onDevice (PhotonicGetDeviceProperty ev (ImagerFeatures tb) p) dv of
             (Inl status, dv1) \<Rightarrow> Some (status, NoReply, putDevice dev dv1 tb m)
           | (Inr (v, bytes), dv1) \<Rightarrow> Some (STATUS_SUCCESS, PropertyReply v bytes, putDevice dev dv1 tb m))
      | SRB_SET_DEVICE_PROPERTY p \<Rightarrow>
          (case onDevice (PhotonicSetDeviceProperty ev (ImagerFeatures tb) p) dv of (r, dv1) \<Rightarrow>
             Some (statusOf r, NoReply, putDevice dev dv1 tb m))
      | SRB_DEVICE_METHOD \<Rightarrow> Some (STATUS_NOT_FOUND, NoReply, m)
      | SRB_STREAM_METHOD \<Rightarrow> Some (STATUS_NOT_FOUND, NoReply, m)
      | SRB_UNKNOWN_DEVICE_COMMAND i \<Rightarrow>
          (case PhotonicUnknownDeviceCommand i of (status, info) \<Rightarrow>
             Some (status, case info of None \<Rightarrow> NoReply | Some n \<Rightarrow> InformationReply n, m))
      | _ \<Rightarrow> Some (STATUS_SUCCESS, NoReply, m))"

section \<open>Cancelling a read\<close>

text \<open>The cancel runs inside the gate of the pin's data path; a refused one leaves the stream alone.\<close>

definition PhotonicCancelPacket ::
  "'b env \<Rightarrow> ULONG \<Rightarrow> srb_command \<Rightarrow> nat \<Rightarrow> ('b, read_queue) world option \<Rightarrow> ('b, read_queue) world option" where
  "PhotonicCancelPacket ev extended cmd k pin =
     (if cmd \<noteq> SRB_READ_DATA then pin
      else case pin of
          None \<Rightarrow> None
        | Some w \<Rightarrow> (case step ev (streamFront extended) (EvCancel k) w of None \<Rightarrow> pin | Some w1 \<Rightarrow> Some w1))"

end
