(* ===== verification/Stream_Negotiation.thy ===== *)
theory Stream_Negotiation
  imports Device_Srb Dcam_Props
begin

text \<open>
  Format negotiation end to end: the advertised ranges are well formed and each is the range of its mode;
  a connection format obtained by intersection stays inside the range it came from; and the pin opens
  on it with a mode behind it.
\<close>

section \<open>Signed readings\<close>

lemma uint_unat_small: "unat (x :: ULONG) \<le> 0xFFFF \<Longrightarrow> uint x \<le> 0xFFFF"
  unfolding uint_nat by linarith

lemma signed_small: "- 0xFFFF \<le> y \<Longrightarrow> y \<le> 0xFFFF \<Longrightarrow> signed_take_bit 31 (y :: int) = y"
  by (rule signed_take_bit_int_eq_self) simp_all

lemma sint_small: "unat (x :: ULONG) \<le> 0xFFFF \<Longrightarrow> sint x = int (unat x)"
  using signed_small [of "uint x"] uint_unat_small [of x] uint_ge_0 [of x]
  unfolding sint_uint uint_nat [symmetric] by simp

lemma sint_minus:
  assumes "unat (h :: ULONG) \<le> 0xFFFF"
  shows "sint (- h) = - int (unat h)"
proof -
  have "signed_take_bit 31 (- uint h) = - uint h"
    using uint_unat_small [OF assms] by (intro signed_small) (simp, rule order.trans [of _ 0], simp, simp)
  then show ?thesis
    using sint_small [OF assms] unfolding sint_word_ariths uint_nat by simp
qed

lemma absLong_small: "unat h \<le> 0xFFFF \<Longrightarrow> absLong h = h"
  by (simp add: absLong_def sint_small)

lemma absLong_minus: "0 < unat h \<Longrightarrow> unat h \<le> 0xFFFF \<Longrightarrow> absLong (- h) = h"
  unfolding absLong_def by (subst sint_minus, assumption) (simp only: neg_less_0_iff_less of_nat_0_less_iff if_True minus_minus)

section \<open>Image sizes\<close>

lemma ImageBytes_exact:
  assumes "unat w \<le> 0xFFFF" and "unat h \<le> 0xFFFF" and "unat bpp \<le> 24" and "unat w * unat h * unat bpp div 8 \<le> 0x10000000"
  shows "unat (PhotonicImageBytes w h bpp) = unat w * unat h * unat bpp div 8"
proof -
  let ?p = "ucast w * ucast h * ucast bpp :: ULONG64"
  have "unat (drop_bit 3 ?p) = unat w * unat h * unat bpp div 8"
    using drop3_product [of w h bpp] assms(1-3) by simp
  then have "unat (?p div 8) = unat w * unat h * unat bpp div 8"
    by (simp add: drop_bit_eq_div)
  then show ?thesis
    using assms(4) by (simp add: PhotonicImageBytes_def unsigned_ucast_eq take_bit_nat_eq_self)
qed

lemma media_bpp:
  assumes "PhotonicStreamFormatPixelToMedia p = Some (g, bits, compression)"
  shows "PhotonicDcamCodingBpp p = bits" "bits \<noteq> 0" "unat bits \<le> 24" "ucast (ucast bits :: USHORT) = bits"
  using assms by (auto simp: PhotonicStreamFormatPixelToMedia_def PhotonicDcamCodingBpp_def split: if_splits)

text \<open>The geometry of an enumerated mode.\<close>

lemma std_slot:
  assumes "std_ok m"
  shows "0 < unat (Width m) \<and> unat (Width m) \<le> 1600 \<and> 0 < unat (Height m) \<and> unat (Height m) \<le> 1200"
proof -
  have "unat (Format m) \<in> {0, 1, 2}" "unat (Mode m) \<in> {0, 1, 2, 3, 4, 5, 6, 7}"
    using assms by (auto simp: std_ok_def word_less_nat_alt)
  then show ?thesis
    using assms unfolding std_ok_def g_DcamGeometry_def by auto
qed

definition minWidth :: "video_mode \<Rightarrow> ULONG" where
  "minWidth m = (if IsFormat7 m then UnitWidth m else Width m)"

definition minHeight :: "video_mode \<Rightarrow> ULONG" where
  "minHeight m = (if IsFormat7 m then UnitHeight m else Height m)"

lemma mode_geometry:
  assumes "mode_ok m"
  shows "0 < unat (minWidth m)" "unat (minWidth m) \<le> unat (DefaultWidth m)" "unat (DefaultWidth m) \<le> unat (Width m)"
    "unat (Width m) \<le> 0xFFFF" "unat (minWidth m) dvd unat (Width m)" "unat (minWidth m) dvd unat (DefaultWidth m)"
    "0 < unat (minHeight m)" "unat (minHeight m) \<le> unat (DefaultHeight m)" "unat (DefaultHeight m) \<le> unat (Height m)"
    "unat (Height m) \<le> 0xFFFF" "unat (minHeight m) dvd unat (Height m)" "unat (minHeight m) dvd unat (DefaultHeight m)"
proof -
  have f7: "unat u \<le> unat d" if "d \<noteq> 0" "unat u dvd unat d" for u d :: ULONG
    using that by (intro dvd_imp_le) (simp_all add: unat_gt_0)
  show "0 < unat (minWidth m)" "unat (minWidth m) \<le> unat (DefaultWidth m)" "unat (DefaultWidth m) \<le> unat (Width m)"
    "unat (Width m) \<le> 0xFFFF" "unat (minWidth m) dvd unat (Width m)" "unat (minWidth m) dvd unat (DefaultWidth m)"
    "0 < unat (minHeight m)" "unat (minHeight m) \<le> unat (DefaultHeight m)" "unat (DefaultHeight m) \<le> unat (Height m)"
    "unat (Height m) \<le> 0xFFFF" "unat (minHeight m) dvd unat (Height m)" "unat (minHeight m) dvd unat (DefaultHeight m)"
    using assms std_slot [of m] f7
    by (auto simp: mode_ok_def f7_ok_def std_ok_def minWidth_def minHeight_def word_le_nat_alt unat_gt_0 split: if_splits)
qed

lemma mode_frame:
  assumes "mode_ok m" and "PhotonicStreamFormatPixelToMedia (PixelFormat m) = Some (g, bits, compression)"
  shows "unat (Width m) * unat (Height m) * unat bits div 8 \<le> 0x10000000"
proof (cases "IsFormat7 m")
  case True
  then show ?thesis
    using assms media_bpp(1) [OF assms(2)] by (simp add: mode_ok_def f7_ok_def)
next
  case False
  then have "unat (Width m) \<le> 1600" "unat (Height m) \<le> 1200"
    using assms(1) std_slot by (simp_all add: mode_ok_def)
  then have "unat (Width m) * unat (Height m) \<le> 1600 * 1200"
    by (rule mult_le_mono)
  then have "unat (Width m) * unat (Height m) * unat bits \<le> 1600 * 1200 * 24"
    using media_bpp(3) [OF assms(2)] by (rule mult_le_mono)
  then show ?thesis
    by simp
qed

section \<open>A well-formed range\<close>

text \<open>One dimension: minimum, default, maximum, granularity.\<close>

definition size_ok :: "ULONG \<Rightarrow> ULONG \<Rightarrow> ULONG \<Rightarrow> ULONG \<Rightarrow> bool" where
  "size_ok mn d mx gran \<longleftrightarrow> 0 < unat mn \<and> unat mn \<le> unat d \<and> unat d \<le> unat mx \<and> unat mx \<le> 0xFFFF \<and>
     unat mn dvd unat d \<and> unat mn dvd unat mx \<and> gran = mn"

definition interval_ok :: "ULONG64 \<Rightarrow> bool" where
  "interval_ok i \<longleftrightarrow> 0 < sint i \<and> sint i < 2 ^ 32"

definition range_ok :: "data_range \<Rightarrow> bool" where
  "range_ok r \<longleftrightarrow>
     (let c = ConfigCaps r; b = bmiHeader (VideoInfoHeader r); bits = ucast (biBitCount b); h = absLong (biHeight b) in
      FormatSize r = sizeof_KS_DATARANGE_VIDEO \<and>
      size_ok (cx (MinOutputSize c)) (biWidth b) (cx (MaxOutputSize c)) (OutputGranularityX c) \<and>
      size_ok (cy (MinOutputSize c)) h (cy (MaxOutputSize c)) (OutputGranularityY c) \<and>
      biHeight b = (if biCompression b = KS_BI_RGB then - h else h) \<and>
      unat bits \<in> {8, 12, 16, 24} \<and> biSizeImage b = PhotonicImageBytes (biWidth b) h bits \<and>
      unat (SampleSize r) = unat (cx (MaxOutputSize c)) * unat (cy (MaxOutputSize c)) * unat bits div 8 \<and>
      unat (SampleSize r) \<le> 0x10000000 \<and>
      interval_ok (capsMinInterval c) \<and> interval_ok (capsMaxInterval c) \<and>
      AvgTimePerFrame (VideoInfoHeader r) = capsMinInterval c)"

lemma signed_wide: "0 \<le> y \<Longrightarrow> y < 2 ^ 32 \<Longrightarrow> signed_take_bit 63 (y :: int) = y"
  by (rule signed_take_bit_int_eq_self) simp_all

lemma sint_widened: "sint (ucast (i :: ULONG) :: ULONG64) = uint i"
proof -
  have "uint (ucast i :: ULONG64) = uint i"
    unfolding uint_nat unat_widen ..
  then show ?thesis
    using signed_wide [of "uint i"] unsigned_less [of i, where ?'a = int] uint_ge_0 [of i] unfolding sint_uint by simp
qed

lemma interval_widened: "i \<noteq> 0 \<Longrightarrow> interval_ok (ucast (i :: ULONG))"
  unfolding interval_ok_def sint_widened using unsigned_less [of i, where ?'a = int] uint_ge_0 [of i]
  by (auto simp: uint_0_iff intro: le_neq_trans)

lemma media_codings:
  assumes "PhotonicStreamFormatPixelToMedia p = Some (g, bits, compression)"
  shows "unat bits \<in> {8, 12, 16, 24}"
  using assms by (auto simp: PhotonicStreamFormatPixelToMedia_def split: if_splits)

lemma media_unique:
  assumes "PhotonicStreamFormatPixelToMedia p = Some (g, bits, compression)"
    and "PhotonicStreamFormatPixelToMedia p' = Some (g', bits, compression)"
  shows "g' = g"
  using assms by (auto simp: PhotonicStreamFormatPixelToMedia_def split: if_splits)

lemma modeRange_ok:
  assumes "mode_ok m" and "PhotonicStreamFormatPixelToMedia (PixelFormat m) = Some media"
  shows "range_ok (modeRange m media)"
proof -
  obtain g bits compression where media: "media = (g, bits, compression)"
    by (cases media)
  note geo = mode_geometry [OF assms(1)]
  note coding = media_bpp [OF assms(2) [unfolded media]] media_codings [OF assms(2) [unfolded media]]
  have h: "absLong (- DefaultHeight m) = DefaultHeight m" "absLong (DefaultHeight m) = DefaultHeight m"
    using geo by (intro absLong_minus absLong_small; linarith)+
  have size: "unat (PhotonicImageBytes (Width m) (Height m) bits) = unat (Width m) * unat (Height m) * unat bits div 8"
    using geo coding mode_frame [OF assms(1) assms(2) [unfolded media]] by (intro ImageBytes_exact) simp_all
  show ?thesis
    using geo coding h size mode_frame [OF assms(1) assms(2) [unfolded media]]
    by (simp add: range_ok_def modeRange_def media PhotonicStreamFormatFillRange_def Let_def size_ok_def
        minWidth_def [symmetric] minHeight_def [symmetric] interval_widened)
qed

section \<open>The advertised formats\<close>

text \<open>The reference definition of the build: the indices of the modes with a media type, and their ranges.\<close>

definition streamable :: "video_mode \<Rightarrow> bool" where
  "streamable m \<longleftrightarrow> PhotonicStreamFormatPixelToMedia (PixelFormat m) \<noteq> None"

definition rangeOf :: "video_mode \<Rightarrow> data_range" where
  "rangeOf m = modeRange m (the (PhotonicStreamFormatPixelToMedia (PixelFormat m)))"

definition advertisedModes :: "video_mode list \<Rightarrow> nat list" where
  "advertisedModes modes = filter (\<lambda>i. streamable (modes ! i)) [0..<length modes]"

lemma buildFormats_spec:
  assumes "length ims + FormatCount t \<le> PHOTONIC_MAX_VIDEO_MODES" and "length (RangeModeIndex t) = FormatCount t"
  shows "VideoRanges (buildFormats ims t) = VideoRanges t @ map (rangeOf \<circ> snd) (filter (streamable \<circ> snd) ims)"
    "RangeModeIndex (buildFormats ims t) = RangeModeIndex t @ map fst (filter (streamable \<circ> snd) ims)"
    "list_all (\<lambda>r. SampleSize r \<le> MaxSampleSize t) (VideoRanges t) \<Longrightarrow>
       list_all (\<lambda>r. SampleSize r \<le> MaxSampleSize (buildFormats ims t)) (VideoRanges (buildFormats ims t))"
proof (atomize (full), use assms in \<open>induction ims arbitrary: t\<close>)
  case Nil
  then show ?case by simp
next
  case (Cons im ims)
  obtain i m where im: "im = (i, m)" by (cases im)
  show ?case
  proof (cases "PhotonicStreamFormatPixelToMedia (PixelFormat m)")
    case None
    then have "\<not> streamable m" and skip: "buildFormats ((i, m) # ims) t = buildFormats ims t"
      using Cons.prems by (simp_all add: streamable_def)
    then show ?thesis
      unfolding im skip using Cons.IH [of t] Cons.prems by auto
  next
    case (Some media)
    define r where "r = modeRange m media"
    define t1 where "t1 = t\<lparr>VideoRanges := VideoRanges t @ [r], RangeModeIndex := RangeModeIndex t @ [i],
      MaxSampleSize := (if SampleSize r > MaxSampleSize t then SampleSize r else MaxSampleSize t)\<rparr>"
    have take: "buildFormats ((i, m) # ims) t = buildFormats ims t1"
      using Cons.prems by (simp add: Some Let_def t1_def r_def)
    have t1: "VideoRanges t1 = VideoRanges t @ [r]" "RangeModeIndex t1 = RangeModeIndex t @ [i]"
      by (simp_all add: t1_def)
    have max: "list_all (\<lambda>r. SampleSize r \<le> MaxSampleSize t1) (VideoRanges t1)"
      if "list_all (\<lambda>r. SampleSize r \<le> MaxSampleSize t) (VideoRanges t)"
      using that by (auto simp: t1_def list_all_iff)
    have "streamable m" "rangeOf m = r"
      using Some by (simp_all add: streamable_def rangeOf_def r_def)
    then show ?thesis
      unfolding im take using Cons.IH [of t1] Cons.prems max t1 by auto
  qed
qed

lemma enumerate_map: "List.enumerate 0 xs = map (\<lambda>i. (i, xs ! i)) [0..<length xs]"
  by (rule nth_equalityI) (simp_all add: nth_enumerate_eq)

lemma FormatBuild_spec:
  assumes "table_ok modes"
  shows "RangeModeIndex (PhotonicStreamFormatBuild modes t0) = advertisedModes modes"
    "VideoRanges (PhotonicStreamFormatBuild modes t0) = map (\<lambda>i. rangeOf (modes ! i)) (advertisedModes modes)"
    "list_all (\<lambda>r. SampleSize r \<le> MaxSampleSize (PhotonicStreamFormatBuild modes t0))
       (VideoRanges (PhotonicStreamFormatBuild modes t0))"
proof -
  let ?t = "t0\<lparr>VideoRanges := [], RangeModeIndex := [], MaxSampleSize := 0\<rparr>"
  have "length (List.enumerate 0 modes) + FormatCount ?t \<le> PHOTONIC_MAX_VIDEO_MODES"
    using assms by (simp add: table_ok_def)
  note spec = buildFormats_spec [OF this]
  show "RangeModeIndex (PhotonicStreamFormatBuild modes t0) = advertisedModes modes"
    "VideoRanges (PhotonicStreamFormatBuild modes t0) = map (\<lambda>i. rangeOf (modes ! i)) (advertisedModes modes)"
    "list_all (\<lambda>r. SampleSize r \<le> MaxSampleSize (PhotonicStreamFormatBuild modes t0))
       (VideoRanges (PhotonicStreamFormatBuild modes t0))"
    using spec by (simp_all add: PhotonicStreamFormatBuild_def Let_def enumerate_map filter_map advertisedModes_def comp_def)
qed

lemma advertisedModes_set: "i \<in> set (advertisedModes modes) \<longleftrightarrow> i < length modes \<and> streamable (modes ! i)"
  by (auto simp: advertisedModes_def)

lemma rangeOf_ok: "mode_ok m \<Longrightarrow> streamable m \<Longrightarrow> range_ok (rangeOf m)"
  by (auto simp: streamable_def rangeOf_def intro: modeRange_ok)

lemma FormatBuild_ok: "table_ok modes \<Longrightarrow> list_all range_ok (VideoRanges (PhotonicStreamFormatBuild modes t0))"
  by (auto simp: FormatBuild_spec list_all_iff advertisedModes_set table_ok_def intro!: rangeOf_ok)

section \<open>Initialization\<close>









section \<open>Negotiated sizes\<close>

lemma sint_le_unat: "0 \<le> sint (v :: ULONG) \<Longrightarrow> sint v = int (unat v)"
  using sint_lt [of v] unfolding uint_nat [symmetric] uint_sint by (subst take_bit_int_eq_self) simp_all

text \<open>One dimension: the result of the clamps and the rounding is in the window and on the grid.\<close>

lemma fitSize_ok:
  assumes "size_ok mn d mx gran" and "sint v > 0"
  shows "unat mn \<le> unat (fitSize mn mx gran v)" "unat (fitSize mn mx gran v) \<le> unat mx"
    "unat mn dvd unat (fitSize mn mx gran v)"
proof -
  have ok: "0 < unat mn" "unat mn \<le> unat mx" "unat mx \<le> 0xFFFF" "gran = mn"
    using assms(1) by (auto simp: size_ok_def)
  then have small: "sint mn = int (unat mn)" "sint mx = int (unat mx)"
    by (intro sint_small; linarith)+
  define v1 where "v1 = (if sint v > sint mx then mx else v)"
  define v2 where "v2 = (if sint v1 < sint mn then mn else v1)"
  have v: "sint v = int (unat v)"
    using assms(2) by (intro sint_le_unat) simp
  have "v2 = mx \<or> v2 = mn \<or> v2 = v \<and> sint mn \<le> sint v \<and> sint v \<le> sint mx"
    by (auto simp: v1_def v2_def)
  then have v2: "unat mn \<le> unat v2 \<and> unat v2 \<le> unat mx"
    unfolding small v of_nat_le_iff using ok(2) by (elim disjE) (simp_all only: order.refl simp_thms)
  have "gran \<noteq> 0"
    using ok(1,4) by (auto simp: unat_gt_0)
  then have fit: "fitSize mn mx gran v = v2 div mn * mn"
    using ok by (simp add: fitSize_def Let_def v1_def v2_def)
  have "unat v2 div unat mn * unat mn \<le> unat v2"
    by (rule div_times_less_eq_dividend)
  then have "unat (v2 div mn) * unat mn < 2 ^ LENGTH(32)"
    unfolding unat_div by (rule order.strict_trans1) (rule unsigned_less)
  then have "unat (v2 div mn * mn) = unat (v2 div mn) * unat mn"
    by (rule unat_mult_lem [THEN iffD1])
  then have exact: "unat (fitSize mn mx gran v) = unat v2 div unat mn * unat mn"
    unfolding fit unat_div .
  have "1 \<le> unat v2 div unat mn"
    using v2 ok by (simp add: Suc_le_eq div_greater_zero_iff)
  then show "unat mn \<le> unat (fitSize mn mx gran v)"
    unfolding exact by simp
  show "unat (fitSize mn mx gran v) \<le> unat mx"
    unfolding exact using v2 by (meson div_times_less_eq_dividend order.trans)
  show "unat mn dvd unat (fitSize mn mx gran v)"
    unfolding exact by simp
qed

section \<open>A connection format of a range\<close>

lemma unat_widen16: "unat (ucast (x :: USHORT) :: ULONG) = unat x"
  using unsigned_less [of x, where ?'a = nat] by (simp add: unsigned_ucast_eq take_bit_nat_eq_self)

lemma clampSint_cases: "clampSint mn mx v = mn \<or> clampSint mn mx v = mx \<or>
    clampSint mn mx v = v \<and> sint mn \<le> sint v \<and> sint v \<le> sint mx"
  by (auto simp: clampSint_def Let_def)

lemma interval_between: "interval_ok mn \<Longrightarrow> interval_ok mx \<Longrightarrow> sint mn \<le> sint v \<Longrightarrow> sint v \<le> sint mx \<Longrightarrow> interval_ok v"
  unfolding interval_ok_def by linarith

lemma range_interval:
  assumes "range_ok r"
  shows "interval_ok (capsMinInterval (ConfigCaps r))" "interval_ok (capsMaxInterval (ConfigCaps r))"
    "interval_ok (AvgTimePerFrame (VideoInfoHeader r))"
  using assms unfolding range_ok_def Let_def by simp_all

lemma negotiateInterval_ok:
  assumes "range_ok r"
  shows "interval_ok (AvgTimePerFrame (negotiateInterval req r (VideoInfoHeader r)))"
proof -
  have "interval_ok (clampSint (capsMinInterval (ConfigCaps r)) (capsMaxInterval (ConfigCaps r)) v)" for v
    using clampSint_cases [of "capsMinInterval (ConfigCaps r)" "capsMaxInterval (ConfigCaps r)" v]
      range_interval [OF assms] interval_between [of "capsMinInterval (ConfigCaps r)" "capsMaxInterval (ConfigCaps r)" v]
    by (elim disjE conjE) simp_all
  then show ?thesis
    using range_interval(3) [OF assms] by (simp add: negotiateInterval_def Let_def)
qed

lemma negotiateInterval_header: "bmiHeader (negotiateInterval req r h) = bmiHeader h"
  by (simp add: negotiateInterval_def Let_def)

text \<open>An image no larger than the largest of its range has an exact size.\<close>

lemma range_image:
  assumes "range_ok r" and "unat w \<le> unat (cx (MaxOutputSize (ConfigCaps r)))" and "unat h \<le> unat (cy (MaxOutputSize (ConfigCaps r)))"
  shows "unat (PhotonicImageBytes w h (ucast (biBitCount (bmiHeader (VideoInfoHeader r))))) =
      unat w * unat h * unat (biBitCount (bmiHeader (VideoInfoHeader r))) div 8" (is ?exact)
    "PhotonicImageBytes w h (ucast (biBitCount (bmiHeader (VideoInfoHeader r)))) \<le> SampleSize r" (is ?fits)
proof -
  let ?mx = "MaxOutputSize (ConfigCaps r)" and ?bits = "ucast (biBitCount (bmiHeader (VideoInfoHeader r))) :: ULONG"
  have r: "unat (cx ?mx) \<le> 0xFFFF" "unat (cy ?mx) \<le> 0xFFFF" "unat ?bits \<le> 24"
      "unat (SampleSize r) = unat (cx ?mx) * unat (cy ?mx) * unat ?bits div 8" "unat (SampleSize r) \<le> 0x10000000"
    using assms(1) unfolding range_ok_def Let_def size_ok_def by auto
  have le: "unat w * unat h * unat ?bits div 8 \<le> unat (SampleSize r)"
    unfolding r(4) using assms(2,3) by (intro div_le_mono mult_le_mono) simp_all
  have "unat (PhotonicImageBytes w h ?bits) = unat w * unat h * unat ?bits div 8"
    using assms(2,3) r le by (intro ImageBytes_exact) linarith+
  then show ?exact and ?fits
    using le by (simp_all add: word_le_nat_alt unat_widen16)
qed

text \<open>What the connection inherits from its range, resized or not.\<close>

lemma range_fields:
  assumes "range_ok r"
  shows "size_ok (cx (MinOutputSize (ConfigCaps r))) (biWidth (bmiHeader (VideoInfoHeader r)))
      (cx (MaxOutputSize (ConfigCaps r))) (OutputGranularityX (ConfigCaps r))"
    "size_ok (cy (MinOutputSize (ConfigCaps r))) (absLong (biHeight (bmiHeader (VideoInfoHeader r))))
      (cy (MaxOutputSize (ConfigCaps r))) (OutputGranularityY (ConfigCaps r))"
    "biSizeImage (bmiHeader (VideoInfoHeader r)) = PhotonicImageBytes (biWidth (bmiHeader (VideoInfoHeader r)))
      (absLong (biHeight (bmiHeader (VideoInfoHeader r)))) (ucast (biBitCount (bmiHeader (VideoInfoHeader r))))"
    "unat (SampleSize r) \<le> 0x10000000"
  using assms unfolding range_ok_def Let_def by simp_all

lemma size_bounds:
  assumes "size_ok mn d mx gran"
  shows "unat d \<le> unat mx" "0 < unat d" "unat d \<le> 0xFFFF"
  using assms unfolding size_ok_def by auto

lemma absLong_sign: "0 < unat h \<Longrightarrow> unat h \<le> 0xFFFF \<Longrightarrow> absLong (if neg then - h else h) = h"
  by (simp add: absLong_minus absLong_small)

lemma fitSize_size: "size_ok mn d mx gran \<Longrightarrow> sint v > 0 \<Longrightarrow> size_ok mn (fitSize mn mx gran v) mx gran"
  using fitSize_ok [of mn d mx gran v] by (simp add: size_ok_def)

lemma appendPalette_fields:
  "dfFormatSize (appendPalette n f) = dfFormatSize f" "dfSampleSize (appendPalette n f) = dfSampleSize f"
  "dfSubFormat (appendPalette n f) = dfSubFormat f"
  "AvgTimePerFrame (dfVideoInfo (appendPalette n f)) = AvgTimePerFrame (dfVideoInfo f)"
  "biWidth (bmiHeader (dfVideoInfo (appendPalette n f))) = biWidth (bmiHeader (dfVideoInfo f))"
  "biHeight (bmiHeader (dfVideoInfo (appendPalette n f))) = biHeight (bmiHeader (dfVideoInfo f))"
  "biBitCount (bmiHeader (dfVideoInfo (appendPalette n f))) = biBitCount (bmiHeader (dfVideoInfo f))"
  "biCompression (bmiHeader (dfVideoInfo (appendPalette n f))) = biCompression (bmiHeader (dfVideoInfo f))"
  "biSizeImage (bmiHeader (dfVideoInfo (appendPalette n f))) = biSizeImage (bmiHeader (dfVideoInfo f))"
  by (simp_all add: appendPalette_def)

text \<open>The part of a format that the size negotiation decides.\<close>

definition sized :: "data_range \<Rightarrow> data_format \<Rightarrow> bool" where
  "sized r f \<longleftrightarrow>
     (let c = ConfigCaps r; b = bmiHeader (dfVideoInfo f); h = absLong (biHeight b) in
      biBitCount b = biBitCount (bmiHeader (VideoInfoHeader r)) \<and>
      biCompression b = biCompression (bmiHeader (VideoInfoHeader r)) \<and>
      size_ok (cx (MinOutputSize c)) (biWidth b) (cx (MaxOutputSize c)) (OutputGranularityX c) \<and>
      size_ok (cy (MinOutputSize c)) h (cy (MaxOutputSize c)) (OutputGranularityY c) \<and>
      biSizeImage b = PhotonicImageBytes (biWidth b) h (ucast (biBitCount b)) \<and>
      biSizeImage b \<le> dfSampleSize f \<and> dfSampleSize f \<le> SampleSize r)"

lemma sized_start:
  assumes "range_ok r" and "bmiHeader (dfVideoInfo f) = bmiHeader (VideoInfoHeader r)" and "dfSampleSize f = SampleSize r"
  shows "sized r f"
  using range_fields [OF assms(1)] range_image(2) [OF assms(1)]
    size_bounds(1) [OF range_fields(1) [OF assms(1)]] size_bounds(1) [OF range_fields(2) [OF assms(1)]] assms(2,3)
  by (simp add: sized_def)

lemma sized_negotiated:
  assumes r: "range_ok r" and f: "sized r f"
  shows "sized r (negotiateSize req r f)"
proof (cases "negotiateSize req r f = f")
  case False
  define w where "w = fitSize (cx (MinOutputSize (ConfigCaps r))) (cx (MaxOutputSize (ConfigCaps r)))
    (OutputGranularityX (ConfigCaps r)) (biWidth (bmiHeader (VideoInfoHeader req)))"
  define h where "h = fitSize (cy (MinOutputSize (ConfigCaps r))) (cy (MaxOutputSize (ConfigCaps r)))
    (OutputGranularityY (ConfigCaps r)) (absLong (biHeight (bmiHeader (VideoInfoHeader req))))"
  have pos: "sint (biWidth (bmiHeader (VideoInfoHeader req))) > 0"
    "sint (absLong (biHeight (bmiHeader (VideoInfoHeader req)))) > 0"
    using False by (auto simp: negotiateSize_def Let_def split: if_splits)
  have ok: "size_ok (cx (MinOutputSize (ConfigCaps r))) w (cx (MaxOutputSize (ConfigCaps r))) (OutputGranularityX (ConfigCaps r))"
    "size_ok (cy (MinOutputSize (ConfigCaps r))) h (cy (MaxOutputSize (ConfigCaps r))) (OutputGranularityY (ConfigCaps r))"
    unfolding w_def h_def using fitSize_size range_fields(1,2) [OF r] pos by blast+
  note size = size_bounds [OF ok(1)] size_bounds [OF ok(2)]
  show ?thesis
    using False f ok range_image(2) [OF r size(1,4)] absLong_sign [OF size(5,6)]
    by (auto simp: sized_def negotiateSize_def Let_def w_def [symmetric] h_def [symmetric] split: if_splits)
qed (simp add: f)

lemma sized_palette: "sized r (appendPalette n f) = sized r f"
  by (simp add: sized_def appendPalette_fields Let_def)

lemma negotiateSize_fields:
  "dfFormatSize (negotiateSize req r f) = dfFormatSize f" "dfSubFormat (negotiateSize req r f) = dfSubFormat f"
  "AvgTimePerFrame (dfVideoInfo (negotiateSize req r f)) = AvgTimePerFrame (dfVideoInfo f)"
  "dfPalette (negotiateSize req r f) = dfPalette f"
  by (simp_all add: negotiateSize_def Let_def)

definition format_ok :: "data_range \<Rightarrow> data_format \<Rightarrow> bool" where
  "format_ok r f \<longleftrightarrow> sized r f \<and> dfSubFormat f = SubFormat r \<and>
     dfFormatSize f = sizeof_KS_DATAFORMAT_VIDEOINFOHEADER + of_nat (length (dfPalette f)) * sizeof_KS_RGBQUAD \<and>
     length (dfPalette f) \<in> {0, 256} \<and> interval_ok (AvgTimePerFrame (dfVideoInfo f))"

lemma connectionFormat_ok:
  assumes "range_ok r"
  shows "format_ok r (connectionFormat req r)"
proof -
  have "sized r (connectionFormat req r)"
    unfolding connectionFormat_def Let_def sized_palette
    by (intro sized_negotiated sized_start assms) (simp_all add: negotiateInterval_header)
  moreover have "paletteColors r \<in> {0, 256}"
    by (simp add: paletteColors_def)
  ultimately show ?thesis
    using negotiateInterval_ok [OF assms, of req]
    by (auto simp: format_ok_def connectionFormat_def Let_def appendPalette_fields negotiateSize_fields appendPalette_def greyPalette_def)
qed

section \<open>Opening on a connection format\<close>

lemma findMode_some:
  assumes "(r, i) \<in> set rs \<and> covers n r \<or> iv \<noteq> None \<or> sz \<noteq> None"
  shows "findMode n rs iv sz \<noteq> None"
  using assms by (induction n rs iv sz rule: findMode.induct) (auto simp: Let_def)

lemma findMode_covers:
  assumes "findMode n rs iv sz = Some mode"
  shows "iv = Some mode \<or> sz = Some mode \<or> (\<exists>r. (r, mode) \<in> set rs \<and> covers n r)"
  using assms by (induction n rs iv sz rule: findMode.induct) (auto simp: Let_def split: if_splits)

text \<open>The geometry a stream was opened with, and the mode behind it.\<close>

definition delivers :: "data_format \<Rightarrow> stream \<Rightarrow> video_mode \<Rightarrow> bool" where
  "delivers f s m \<longleftrightarrow>
     (let b = bmiHeader (dfVideoInfo f) in
      (\<exists>media. PhotonicStreamFormatPixelToMedia (PixelFormat m) = Some media \<and>
         media = (dfSubFormat f, ucast (biBitCount b), biCompression b)) \<and>
      sWidth s = biWidth b \<and> sHeight s = absLong (biHeight b) \<and>
      unat (minWidth m) \<le> unat (sWidth s) \<and> unat (sWidth s) \<le> unat (Width m) \<and>
      unat (minHeight m) \<le> unat (sHeight s) \<and> unat (sHeight s) \<le> unat (Height m) \<and>
      ImageSize s = biSizeImage b \<and> unat (ImageSize s) = unat (sWidth s) * unat (sHeight s) * unat (biBitCount b) div 8 \<and>
      ImageSize s \<le> dfSampleSize f \<and> unat (dfSampleSize f) \<le> 0x10000000 \<and>
      uint (FrameInterval s) = sint (AvgTimePerFrame (dfVideoInfo f)))"

lemma rangeOf_fields:
  assumes "PhotonicStreamFormatPixelToMedia (PixelFormat m) = Some (g, bits, compression)"
  shows "MinOutputSize (ConfigCaps (rangeOf m)) = \<lparr>cx = minWidth m, cy = minHeight m\<rparr>"
    "MaxOutputSize (ConfigCaps (rangeOf m)) = \<lparr>cx = Width m, cy = Height m\<rparr>"
    "SubFormat (rangeOf m) = g" "biBitCount (bmiHeader (VideoInfoHeader (rangeOf m))) = ucast bits"
    "biCompression (bmiHeader (VideoInfoHeader (rangeOf m))) = compression"
  using assms by (simp_all add: rangeOf_def modeRange_def PhotonicStreamFormatFillRange_def Let_def minWidth_def minHeight_def)

lemma sizeInWindow_small:
  assumes "unat (ngWidth n) \<le> 0xFFFF" and "unat (ngHeight n) \<le> 0xFFFF" and "unat (cx mx) \<le> 0xFFFF" and "unat (cy mx) \<le> 0xFFFF"
    and "unat (cx mn) \<le> unat (cx mx)" and "unat (cy mn) \<le> unat (cy mx)"
    and "MinOutputSize (ConfigCaps r) = mn" and "MaxOutputSize (ConfigCaps r) = mx"
  shows "sizeInWindow n r \<longleftrightarrow> unat (cx mn) \<le> unat (ngWidth n) \<and> unat (ngWidth n) \<le> unat (cx mx) \<and>
     unat (cy mn) \<le> unat (ngHeight n) \<and> unat (ngHeight n) \<le> unat (cy mx)"
proof -
  have "sint (ngWidth n) = int (unat (ngWidth n))" "sint (ngHeight n) = int (unat (ngHeight n))"
    "sint (cx mx) = int (unat (cx mx))" "sint (cy mx) = int (unat (cy mx))"
    "sint (cx mn) = int (unat (cx mn))" "sint (cy mn) = int (unat (cy mn))"
    using assms by (intro sint_small; linarith)+
  then show ?thesis
    unfolding sizeInWindow_def assms(7,8) by (simp only: of_nat_less_iff not_less de_Morgan_disj conj_assoc)
qed

lemma sized_small:
  assumes "sized r f"
  shows "0 < unat (biWidth (bmiHeader (dfVideoInfo f)))" "unat (biWidth (bmiHeader (dfVideoInfo f))) \<le> 0xFFFF"
    "0 < unat (absLong (biHeight (bmiHeader (dfVideoInfo f))))" "unat (absLong (biHeight (bmiHeader (dfVideoInfo f)))) \<le> 0xFFFF"
  using assms size_bounds(2,3) unfolding sized_def Let_def by blast+

lemma sized_covered:
  assumes "sized r f"
  shows "covers \<lparr>ngWidth = biWidth (bmiHeader (dfVideoInfo f)), ngHeight = absLong (biHeight (bmiHeader (dfVideoInfo f))),
    ngBitCount = ucast (biBitCount (bmiHeader (dfVideoInfo f))), ngCompression = biCompression (bmiHeader (dfVideoInfo f)),
    ngInterval = v\<rparr> r"
proof -
  let ?n = "\<lparr>ngWidth = biWidth (bmiHeader (dfVideoInfo f)), ngHeight = absLong (biHeight (bmiHeader (dfVideoInfo f))),
    ngBitCount = ucast (biBitCount (bmiHeader (dfVideoInfo f))), ngCompression = biCompression (bmiHeader (dfVideoInfo f)),
    ngInterval = v\<rparr>"
  have "sizeInWindow ?n r"
    using assms sized_small [OF assms]
    by (subst sizeInWindow_small [OF _ _ _ _ _ _ refl refl]) (auto simp: sized_def size_ok_def Let_def)
  then show ?thesis
    using assms by (simp add: covers_def sized_def Let_def)
qed

lemma interval_narrowed:
  assumes "interval_ok v"
  shows "uint (ucast v :: ULONG) = sint v" "(ucast v :: ULONG) \<noteq> 0"
proof -
  have "uint v = sint v"
    using assms sint_lt [of v] unfolding interval_ok_def uint_sint by (subst take_bit_int_eq_self) simp_all
  then show "uint (ucast v :: ULONG) = sint v"
    using assms by (simp add: interval_ok_def unsigned_ucast_eq take_bit_int_eq_self)
  then show "(ucast v :: ULONG) \<noteq> 0"
    using assms by (auto simp: interval_ok_def)
qed

lemma connection_opens:
  assumes modes: "table_ok modes" and t: "t = PhotonicStreamFormatBuild modes t0"
    and r: "r \<in> set (VideoRanges t)" and f: "format_ok r f"
  shows "\<exists>s m. openFormat modes t (Some f) = Some s \<and> sMode s = Some m \<and> m \<in> set modes \<and> delivers f s m"
proof -
  let ?b = "bmiHeader (dfVideoInfo f)"
  obtain i where i: "i \<in> set (advertisedModes modes)" "r = rangeOf (modes ! i)"
    using r by (auto simp: t FormatBuild_spec [OF modes])
  have ranges: "set (zip (VideoRanges t) (RangeModeIndex t)) = (\<lambda>i. (rangeOf (modes ! i), i)) ` set (advertisedModes modes)"
    by (simp add: t FormatBuild_spec [OF modes] zip_map1 zip_same_conv_map)
  have mode: "mode_ok (modes ! i)" "streamable (modes ! i)" if "i \<in> set (advertisedModes modes)" for i
    using that modes by (auto simp: advertisedModes_set table_ok_def list_all_length)
  have ok: "range_ok r"
    using mode [OF i(1)] rangeOf_ok i(2) by simp
  define n where "n = \<lparr>ngWidth = biWidth ?b, ngHeight = absLong (biHeight ?b), ngBitCount = ucast (biBitCount ?b),
    ngCompression = biCompression ?b, ngInterval = ucast (AvgTimePerFrame (dfVideoInfo f))\<rparr>"
  have in_source: "covers n r"
    using f unfolding n_def format_ok_def by (intro sized_covered) simp
  then obtain j where j: "findMode n (zip (VideoRanges t) (RangeModeIndex t)) None None = Some j"
    using findMode_some [of r i "zip (VideoRanges t) (RangeModeIndex t)" n None None] i ranges by auto
  then have found: "j \<in> set (advertisedModes modes)" "covers n (rangeOf (modes ! j))"
    using findMode_covers [OF j] ranges by auto
  obtain g bits compression where media: "PhotonicStreamFormatPixelToMedia (PixelFormat (modes ! j)) = Some (g, bits, compression)"
    using mode(2) [OF found(1)] by (auto simp: streamable_def)
  obtain g' bits' compression' where media': "PhotonicStreamFormatPixelToMedia (PixelFormat (modes ! i)) = Some (g', bits', compression')"
    using mode(2) [OF i(1)] by (auto simp: streamable_def)
  have sized: "sized r f"
    using f by (simp add: format_ok_def)
  have coding: "bits = ucast (biBitCount ?b)" "compression = biCompression ?b"
    using found(2) rangeOf_fields(4,5) [OF media] media_bpp(4) [OF media] by (simp_all add: covers_def n_def)
  have "bits' = ucast (biBitCount ?b)" "compression' = biCompression ?b" "g' = dfSubFormat f"
    using sized f rangeOf_fields(3-5) [OF media'] media_bpp(4) [OF media'] i(2)
    by (simp_all add: sized_def Let_def format_ok_def)
  then have g: "g = dfSubFormat f"
    using media_unique [OF media'] media coding by simp
  note geo = mode_geometry [OF mode(1) [OF found(1)]]
  have window: "unat (minWidth (modes ! j)) \<le> unat (biWidth ?b)" "unat (biWidth ?b) \<le> unat (Width (modes ! j))"
    "unat (minHeight (modes ! j)) \<le> unat (absLong (biHeight ?b))" "unat (absLong (biHeight ?b)) \<le> unat (Height (modes ! j))"
    using found(2) geo sized_small [OF sized]
    by (simp_all add: covers_def sizeInWindow_small [OF _ _ _ _ _ _ rangeOf_fields(1,2) [OF media]] n_def)
  have interval: "uint (ucast (AvgTimePerFrame (dfVideoInfo f)) :: ULONG) = sint (AvgTimePerFrame (dfVideoInfo f))"
    "(ucast (AvgTimePerFrame (dfVideoInfo f)) :: ULONG) \<noteq> 0"
    using f interval_narrowed by (simp_all add: format_ok_def)
  have size: "biSizeImage ?b = PhotonicImageBytes (biWidth ?b) (absLong (biHeight ?b)) (ucast (biBitCount ?b))"
    "biSizeImage ?b \<le> dfSampleSize f" "dfSampleSize f \<le> SampleSize r" "biBitCount ?b = biBitCount (bmiHeader (VideoInfoHeader r))"
    "unat (biWidth ?b) \<le> unat (cx (MaxOutputSize (ConfigCaps r)))"
    "unat (absLong (biHeight ?b)) \<le> unat (cy (MaxOutputSize (ConfigCaps r)))"
    using sized unfolding sized_def Let_def size_ok_def by metis+
  have exact: "unat (biSizeImage ?b) = unat (biWidth ?b) * unat (absLong (biHeight ?b)) * unat (biBitCount ?b) div 8"
    using range_image(1) [OF ok size(5,6)] unfolding size(1,4) .
  have cap: "unat (dfSampleSize f) \<le> 0x10000000"
    using size(3) range_fields(4) [OF ok] by (simp add: word_le_nat_alt)
  have "\<not> dfFormatSize f < sizeof_KS_DATAFORMAT_VIDEOINFOHEADER"
    using f by (auto simp: format_ok_def)
  then obtain s where s: "openFormat modes t (Some f) = Some s" "sWidth s = biWidth ?b" "sHeight s = absLong (biHeight ?b)"
      "ImageSize s = biSizeImage ?b" "FrameInterval s = ucast (AvgTimePerFrame (dfVideoInfo f))" "sMode s = Some (modes ! j)"
    using interval(2) j size(1) by (simp add: openFormat_def Let_def PhotonicStreamFindNegotiatedMode_def n_def [symmetric])
  have "modes ! j \<in> set modes"
    using found(1) by (simp add: advertisedModes_set)
  moreover have "delivers f s (modes ! j)"
    using media coding g window exact size(2) cap interval(1) by (simp add: delivers_def Let_def s)
  ultimately show ?thesis
    using s by blast
qed

lemma findRange_from:
  assumes "findRange req rs (preferred, windowMatch, fallback) = Some r"
  shows "r \<in> set rs \<or> preferred = Some r \<or> windowMatch = Some r \<or> fallback = Some r"
  using assms
proof (induction rs arbitrary: preferred windowMatch fallback)
  case Nil
  then show ?case by (auto split: if_splits)
next
  case (Cons r' rs)
  then show ?case
    unfolding findRange.simps Let_def by (auto split: if_splits dest!: Cons.IH)
qed

section \<open>Properties\<close>


text \<open>
  C12: A connection format obtained by intersection with any request opens: over a well-formed mode table,
  PhotonicStreamOpen accepts the geometry of the format PhotonicStreamGetDataIntersection returned and
  finds an enumerated mode behind it, of the format's coding and with the negotiated size inside its
  window; the stream's image size is the exact size of that geometry, at most the connection's sample size and 256 MB,
  and the frame interval survives the narrowing to 32 bits.
\<close>

theorem intersection_opens:
  assumes "table_ok modes" and "t = PhotonicStreamFormatBuild modes t0"
    and "PhotonicStreamGetDataIntersection t StreamNumber req len = Inr (Connection f, bytes)"
  shows "bytes = dfFormatSize f \<and> bytes \<le> len \<and>
    (\<exists>s m. openFormat modes t (Some f) = Some s \<and> sMode s = Some m \<and> m \<in> set modes \<and> delivers f s m)"
proof -
  obtain r where r: "PhotonicStreamIntersectFindRange t req = Some r" "f = connectionFormat req r"
      "bytes = sizeof_KS_DATAFORMAT_VIDEOINFOHEADER + paletteColors r * sizeof_KS_RGBQUAD" "bytes \<le> len"
    using assms(3) by (auto simp: PhotonicStreamGetDataIntersection_def Let_def split: if_splits option.splits)
  have in_table: "r \<in> set (VideoRanges t)"
    using findRange_from [OF r(1) [unfolded PhotonicStreamIntersectFindRange_def]] by simp
  then have "range_ok r"
    using FormatBuild_ok [OF assms(1), of t0] by (simp add: assms(2) list_all_iff)
  then have "format_ok r f"
    unfolding r(2) by (rule connectionFormat_ok)
  moreover have "bytes = dfFormatSize f"
    by (simp add: r(2,3) connectionFormat_def Let_def appendPalette_fields negotiateSize_fields)
  ultimately show ?thesis
    using connection_opens [OF assms(1,2) in_table] r(4) by blast
qed

text \<open>A Format 7 mode of 640x480 in steps of 4x2, and a request for 322x241 of it.\<close>

definition f7Mono :: video_mode where
  "f7Mono = \<lparr>Format = 7, Mode = 0, PixelFormat = PIX_MONO8, Width = 640, Height = 480, DefaultWidth = 320, DefaultHeight = 240,
     IsFormat7 = True, UnitWidth = 4, UnitHeight = 2, Format7CsrOffset = 0x400, RateMask = 0, MinFrameInterval = 333333, MaxFrameInterval = 666666\<rparr>"

definition monoTable :: format_table where
  "monoTable = PhotonicStreamFormatBuild [f7Mono] (FormatTable (zeroTables :: unit tables))"

definition monoRequest :: data_range where
  "monoRequest = (let r = rangeOf f7Mono; h = VideoInfoHeader r in
     r\<lparr>VideoInfoHeader := h\<lparr>AvgTimePerFrame := 400000, bmiHeader := (bmiHeader h)\<lparr>biWidth := 322, biHeight := 241\<rparr>\<rparr>\<rparr>)"

definition monoFormat :: data_format where
  "monoFormat = connectionFormat monoRequest (rangeOf f7Mono)"

lemma f7Mono_ok: "table_ok [f7Mono]"
  by (simp add: table_ok_def mode_ok_def f7_ok_def f7Mono_def PhotonicDcamCodingBpp_def)

lemma mono_intersection:
  "PhotonicStreamGetDataIntersection monoTable 0 monoRequest 2000 = Inr (Connection monoFormat, 1176)"
  by code_simp

theorem intersection_opens_witness:
  "\<exists>s m. openFormat [f7Mono] monoTable (Some monoFormat) = Some s \<and> sMode s = Some m \<and> m \<in> set [f7Mono] \<and> delivers monoFormat s m"
  using intersection_opens [OF f7Mono_ok monoTable_def mono_intersection] by blast

end
