(* ===== verification/Fake_Registers.thy ===== *)
theory Fake_Registers
  imports Bus1394
begin

text \<open>
  fake-fw-dev/video.c, format7.c and features.c: the register file of the emulated camera the driver is
  tested against.  Register values are 32-bit words; an enum latched from three bits of a word is its
  number.
\<close>

section \<open>Standard formats (video.c)\<close>

text \<open>(pixel format, width, height, packet geometry per rate) per format and mode.\<close>

record dcam_mode_info =
  miPixfmt :: ULONG
  miWidth :: ULONG
  miHeight :: ULONG
  miRate :: "(ULONG \<times> ULONG) list"

definition modeInfo :: "ULONG \<Rightarrow> ULONG \<Rightarrow> ULONG \<Rightarrow> (ULONG \<times> ULONG) list \<Rightarrow> dcam_mode_info" where
  "modeInfo p w h r = \<lparr>miPixfmt = p, miWidth = w, miHeight = h, miRate = r\<rparr>"

definition dcam_modes :: "dcam_mode_info list list" where
  "dcam_modes =
    [[modeInfo PIX_YUV444 160 120 [(0, 0), (0, 0), (60, 960), (120, 480), (240, 240), (0, 0)],
      modeInfo PIX_YUV422 320 240 [(0, 0), (80, 1920), (160, 960), (320, 480), (640, 240), (0, 0)],
      modeInfo PIX_YUV411 640 480 [(0, 0), (240, 1920), (480, 960), (960, 480), (1920, 240), (0, 0)],
      modeInfo PIX_YUV422 640 480 [(0, 0), (320, 1920), (640, 960), (1280, 480), (2560, 240), (0, 0)],
      modeInfo PIX_RGB24 640 480 [(0, 0), (480, 1920), (960, 960), (1920, 480), (3840, 240), (0, 0)],
      modeInfo PIX_MONO8 640 480 [(0, 0), (160, 1920), (320, 960), (640, 480), (1280, 240), (2560, 120)],
      modeInfo PIX_MONO16 640 480 [(0, 0), (320, 1920), (640, 960), (1280, 480), (2560, 240), (0, 0)],
      modeInfo PIX_INVALID 0 0 [(0, 0), (0, 0), (0, 0), (0, 0), (0, 0), (0, 0)]],
     [modeInfo PIX_YUV422 800 600 [(0, 0), (500, 1920), (1000, 960), (2000, 480), (4000, 240), (0, 0)],
      modeInfo PIX_RGB24 800 600 [(0, 0), (0, 0), (1500, 960), (3000, 480), (0, 0), (0, 0)],
      modeInfo PIX_MONO8 800 600 [(0, 0), (0, 0), (500, 960), (1000, 480), (2000, 240), (4000, 120)],
      modeInfo PIX_YUV422 1024 768 [(384, 4096), (768, 2048), (1536, 1024), (3072, 512), (0, 0), (0, 0)],
      modeInfo PIX_RGB24 1024 768 [(576, 4096), (1152, 2048), (2304, 1024), (0, 0), (0, 0), (0, 0)],
      modeInfo PIX_MONO8 1024 768 [(192, 4096), (384, 2048), (768, 1024), (1536, 512), (3072, 256), (0, 0)],
      modeInfo PIX_MONO16 800 600 [(0, 0), (500, 1920), (1000, 960), (2000, 480), (4000, 240), (0, 0)],
      modeInfo PIX_MONO16 1024 768 [(384, 4096), (768, 2048), (1536, 1024), (3072, 512), (0, 0), (0, 0)]],
     [modeInfo PIX_YUV422 1280 960 [(640, 3840), (1280, 1920), (2560, 960), (0, 0), (0, 0), (0, 0)],
      modeInfo PIX_RGB24 1280 960 [(960, 3840), (1920, 1920), (3840, 960), (0, 0), (0, 0), (0, 0)],
      modeInfo PIX_MONO8 1280 960 [(320, 3840), (640, 1920), (1280, 960), (2560, 480), (0, 0), (0, 0)],
      modeInfo PIX_YUV422 1600 1200 [(1000, 3840), (2000, 1920), (4000, 960), (0, 0), (0, 0), (0, 0)],
      modeInfo PIX_RGB24 1600 1200 [(1500, 3840), (3000, 1920), (0, 0), (0, 0), (0, 0), (0, 0)],
      modeInfo PIX_MONO8 1600 1200 [(500, 3840), (1000, 1920), (2000, 960), (4000, 480), (0, 0), (0, 0)],
      modeInfo PIX_MONO16 1280 960 [(640, 3840), (1280, 1920), (2560, 960), (0, 0), (0, 0), (0, 0)],
      modeInfo PIX_MONO16 1600 1200 [(1000, 3840), (2000, 1920), (4000, 960), (0, 0), (0, 0), (0, 0)]]]"

definition dcam_mode_info_get :: "nat \<Rightarrow> nat \<Rightarrow> dcam_mode_info" where
  "dcam_mode_info_get format mode = dcam_modes ! format ! mode"

definition dcam_packet_geom :: "nat \<Rightarrow> nat \<Rightarrow> nat \<Rightarrow> ULONG \<times> ULONG" where
  "dcam_packet_geom format mode rate = miRate (dcam_modes ! format ! mode) ! rate"

text \<open>The mask of the ids that satisfy a test: bit 31 is id 0.\<close>

definition idMask :: "(nat \<Rightarrow> bool) \<Rightarrow> nat \<Rightarrow> ULONG" where
  "idMask P n = fold (\<lambda>i bitmap. if P i then bitmap OR drop_bit i 0x80000000 else bitmap) [0..<n] 0"

definition dcam_frame_rate_inq :: "nat \<Rightarrow> nat \<Rightarrow> ULONG" where
  "dcam_frame_rate_inq format mode = idMask (\<lambda>rate. fst (dcam_packet_geom format mode rate) \<noteq> 0) 6"

definition dcam_video_mode_inq :: "nat \<Rightarrow> ULONG" where
  "dcam_video_mode_inq format = idMask (\<lambda>mode. dcam_frame_rate_inq format mode \<noteq> 0) 8"

section \<open>Format 7 (format7.c)\<close>

record dcam_f7_mode_info =
  max_width :: ULONG
  max_height :: ULONG
  unit_width :: ULONG
  unit_height :: ULONG
  def_width :: ULONG
  def_height :: ULONG
  color_coding_inq :: ULONG

definition f7Info :: "ULONG \<Rightarrow> ULONG \<Rightarrow> ULONG \<Rightarrow> ULONG \<Rightarrow> ULONG \<Rightarrow> ULONG \<Rightarrow> ULONG \<Rightarrow> dcam_f7_mode_info" where
  "f7Info mw mh uw uh dw dh inq = \<lparr>max_width = mw, max_height = mh, unit_width = uw, unit_height = uh,
     def_width = dw, def_height = dh, color_coding_inq = inq\<rparr>"

abbreviation (input) DCAM_NUM_F7_MODES :: nat where "DCAM_NUM_F7_MODES \<equiv> 4"

definition dcam_f7_modes :: "dcam_f7_mode_info list" where
  "dcam_f7_modes =
    [f7Info 1575 1053 4 4 1388 1032 0x84000000,
     f7Info 1280 960 8 8 1280 960 0x85000000,
     f7Info 640 480 8 8 640 480 0xA5000000,
     f7Info 320 240 4 4 320 240 0xA5000000]"

definition dcam_f7_bits_per_pixel :: "ULONG \<Rightarrow> ULONG" where
  "dcam_f7_bits_per_pixel coding =
     (if coding = 0 then 8 else if coding = 1 then 12 else if coding = 2 \<or> coding = 5 then 16
      else if coding = 3 \<or> coding = 4 then 24 else if coding = 6 then 48
      else if coding = 7 \<or> coding = 8 then 8 else 0)"

record dcam_f7_live =
  lvWidth :: ULONG
  lvHeight :: ULONG
  lvOffx :: ULONG
  lvOffy :: ULONG
  color_coding :: ULONG
  bytes_per_packet :: ULONG

definition dcam_f7_frame_bytes :: "dcam_f7_live \<Rightarrow> ULONG" where
  "dcam_f7_frame_bytes l =
     ucast (drop_bit 3 (ucast (lvWidth l) * ucast (lvHeight l) * ucast (dcam_f7_bits_per_pixel (color_coding l)) :: ULONG64))"

abbreviation (input) DCAM_F7_BUS_MAX_BPP :: ULONG where "DCAM_F7_BUS_MAX_BPP \<equiv> 4096"

text \<open>(unit, max).\<close>

definition dcam_f7_packet_params :: "dcam_f7_live \<Rightarrow> ULONG \<times> ULONG" where
  "dcam_f7_packet_params l =
     (let bits = dcam_f7_bits_per_pixel (color_coding l);
          line = ucast (drop_bit 3 (ucast (lvWidth l) * ucast bits + 7 :: ULONG64));
          aligned = (line + 3) AND NOT 3;
          step = (if aligned = 0 then 4 else aligned);
          mx = DCAM_F7_BUS_MAX_BPP div step * step
      in (step, if mx < step then step else mx))"

definition dcam_f7_bpp_is_legal :: "dcam_f7_live \<Rightarrow> ULONG \<Rightarrow> bool" where
  "dcam_f7_bpp_is_legal l bpp \<longleftrightarrow>
     (case dcam_f7_packet_params l of (step, mx) \<Rightarrow> bpp \<ge> step \<and> bpp \<le> mx \<and> bpp mod step = 0)"

definition dcam_f7_recommended_bpp :: "dcam_f7_live \<Rightarrow> ULONG" where
  "dcam_f7_recommended_bpp l = fst (dcam_f7_packet_params l)"

definition dcam_f7_packets_per_frame :: "dcam_f7_live \<Rightarrow> ULONG" where
  "dcam_f7_packets_per_frame l =
     (let frame = dcam_f7_frame_bytes l; bpp = dcam_f7_recommended_bpp l in
      if bpp = 0 then 0 else (frame + bpp - 1) div bpp)"

abbreviation (input) DCAM_F7_CSR_BLOCK :: ULONG where "DCAM_F7_CSR_BLOCK \<equiv> 0xA00"
abbreviation (input) DCAM_F7_CSR_BLOCK_LEN :: ULONG where "DCAM_F7_CSR_BLOCK_LEN \<equiv> 0x100"

definition dcam_f7_csr_pointer :: "ULONG \<Rightarrow> nat \<Rightarrow> ULONG" where
  "dcam_f7_csr_pointer base mode =
     (base - 0xF0000000 + (DCAM_F7_CSR_BLOCK + of_nat mode * DCAM_F7_CSR_BLOCK_LEN)) div 4"

definition dcam_f7_csr_read :: "dcam_f7_live list \<Rightarrow> nat \<Rightarrow> ULONG \<Rightarrow> ULONG" where
  "dcam_f7_csr_read f7 mode reg =
     (let mi = dcam_f7_modes ! mode; l = f7 ! mode in
      if reg = 0x00 then push_bit 16 (max_width mi) OR max_height mi
      else if reg = 0x04 then push_bit 16 (unit_width mi) OR unit_height mi
      else if reg = 0x08 then push_bit 16 (lvOffx l) OR (lvOffy l AND 0xFFFF)
      else if reg = 0x0C then push_bit 16 (lvWidth l) OR (lvHeight l AND 0xFFFF)
      else if reg = 0x10 then push_bit 24 (color_coding l)
      else if reg = 0x14 then color_coding_inq mi
      else if reg = 0x40 then (case dcam_f7_packet_params l of (step, mx) \<Rightarrow> push_bit 16 step OR mx)
      else if reg = 0x44 then push_bit 16 (dcam_f7_recommended_bpp l)
      else if reg = 0x34 then lvWidth l * lvHeight l
      else if reg = 0x38 then 0
      else if reg = 0x3C then dcam_f7_frame_bytes l
      else if reg = 0x48 then dcam_f7_packets_per_frame l
      else 0)"

text \<open>The response codes of the bus (linux/firewire-constants.h).\<close>

datatype rcode = RCODE_COMPLETE | RCODE_DATA_ERROR

definition resize :: "dcam_f7_live \<Rightarrow> dcam_f7_live" where
  "resize l = l\<lparr>bytes_per_packet := dcam_f7_recommended_bpp l\<rparr>"

definition dcam_f7_csr_write :: "nat \<Rightarrow> ULONG \<Rightarrow> ULONG \<Rightarrow> dcam_f7_live list \<Rightarrow> rcode \<times> dcam_f7_live list" where
  "dcam_f7_csr_write mode reg logical f7 =
     (let l = f7 ! mode in
      if reg = 0x08 then (RCODE_COMPLETE, f7[mode := l\<lparr>lvOffx := drop_bit 16 logical, lvOffy := logical AND 0xFFFF\<rparr>])
      else if reg = 0x0C
      then (RCODE_COMPLETE, f7[mode := resize (l\<lparr>lvWidth := drop_bit 16 logical, lvHeight := logical AND 0xFFFF\<rparr>)])
      else if reg = 0x10 then (RCODE_COMPLETE, f7[mode := resize (l\<lparr>color_coding := drop_bit 24 logical\<rparr>)])
      else if reg = 0x44
      then (let bpp = drop_bit 16 logical in
            if \<not> dcam_f7_bpp_is_legal l bpp then (RCODE_DATA_ERROR, f7)
            else (RCODE_COMPLETE, f7[mode := l\<lparr>bytes_per_packet := bpp\<rparr>]))
      else (RCODE_COMPLETE, f7))"

definition dcam_f7_reset :: "dcam_f7_live list" where
  "dcam_f7_reset = map (\<lambda>mi. resize \<lparr>lvWidth = def_width mi, lvHeight = def_height mi, lvOffx = 0, lvOffy = 0,
     color_coding = 0, bytes_per_packet = 0\<rparr>) dcam_f7_modes"

section \<open>Features (features.c)\<close>

abbreviation (input) DCAM_NUM_FEATURES :: nat where "DCAM_NUM_FEATURES \<equiv> 13"
abbreviation (input) DCAM_FEATURE_VALUE_OFFSET :: ULONG where "DCAM_FEATURE_VALUE_OFFSET \<equiv> 0x300"
abbreviation (input) DCAM_FEATURE_INQ_BITS :: ULONG where "DCAM_FEATURE_INQ_BITS \<equiv> 0x8B000000"
abbreviation (input) DCAM_FEATURE_VALUE_BITS :: ULONG where "DCAM_FEATURE_VALUE_BITS \<equiv> 0x82000000"

text \<open>(inquiry register, name).\<close>

definition dcam_features :: "(ULONG \<times> string) list" where
  "dcam_features =
    [(0x500, ''brightness''), (0x508, ''sharpness''), (0x50C, ''whitebalance''), (0x510, ''hue''), (0x514, ''saturation''),
     (0x518, ''gamma''), (0x51C, ''exposure''), (0x520, ''contrast''), (0x524, ''iris''), (0x528, ''focus''), (0x580, ''zoom''),
     (0x584, ''pan''), (0x588, ''tilt'')]"

text \<open>(minimum, maximum, default), from common/frame_meta.h.\<close>

definition dcam_feature_ranges :: "(ULONG \<times> ULONG \<times> ULONG) list" where
  "dcam_feature_ranges =
    [(0, 255, 128), (0, 7, 4), (0, 1023, 512), (16, 240, 128), (0, 511, 256), (1, 3, 2), (0, 4095, 2048), (0, 383, 192),
     (0, 100, 50), (50, 1000, 525), (0, 63, 32), (10, 170, 90), (0, 90, 45)]"

definition dcam_feature_by_inq :: "ULONG \<Rightarrow> nat option" where
  "dcam_feature_by_inq off = find (\<lambda>i. fst (dcam_features ! i) = off) [0..<DCAM_NUM_FEATURES]"

definition dcam_feature_by_value :: "ULONG \<Rightarrow> nat option" where
  "dcam_feature_by_value off = find (\<lambda>i. fst (dcam_features ! i) + DCAM_FEATURE_VALUE_OFFSET = off) [0..<DCAM_NUM_FEATURES]"

definition featPresent :: "ULONG \<Rightarrow> nat \<Rightarrow> bool" where
  "featPresent bitmap i \<longleftrightarrow> bitmap AND push_bit i 1 \<noteq> 0"

definition dcam_feature_block_inq :: "ULONG \<Rightarrow> ULONG \<Rightarrow> ULONG" where
  "dcam_feature_block_inq block present_mask =
     fold (\<lambda>i bitmap. let reg = fst (dcam_features ! i) in
             if featPresent present_mask i \<and> reg \<ge> block \<and> reg < block + 0x40
             then bitmap OR drop_bit (unat ((reg - block) div 4)) 0x80000000 else bitmap)
       [0..<DCAM_NUM_FEATURES] 0"

text \<open>The comma-separated names of PHOTONIC_FEATURES; an unknown name is only logged.\<close>

fun splitComma :: "string \<Rightarrow> string list" where
  "splitComma [] = [[]]"
| "splitComma (c # cs) =
     (if c = CHR '','' then [] # splitComma cs
      else case splitComma cs of [] \<Rightarrow> [[c]] | w # ws \<Rightarrow> (c # w) # ws)"

definition dcam_feature_parse_present :: "string option \<Rightarrow> ULONG" where
  "dcam_feature_parse_present spec =
     (case spec of
        None \<Rightarrow> 0x1FFF
      | Some s \<Rightarrow>
          if s = [] \<or> s = ''all'' then 0x1FFF
          else if s = ''none'' then 0
          else fold (\<lambda>w bitmap. case find (\<lambda>i. snd (dcam_features ! i) = w) [0..<DCAM_NUM_FEATURES] of
                        None \<Rightarrow> bitmap | Some i \<Rightarrow> bitmap OR push_bit i 1) (splitComma s) 0)"

definition dcam_feature_inq_word :: "nat \<Rightarrow> ULONG" where
  "dcam_feature_inq_word i = (case dcam_feature_ranges ! i of (mn, mx, df) \<Rightarrow>
     DCAM_FEATURE_INQ_BITS OR push_bit 12 (mn AND 0xFFF) OR (mx AND 0xFFF))"

definition dcam_feature_default_word :: "nat \<Rightarrow> ULONG" where
  "dcam_feature_default_word i = (case dcam_feature_ranges ! i of (mn, mx, df) \<Rightarrow> DCAM_FEATURE_VALUE_BITS OR (df AND 0xFFF))"

definition dcam_feature_clamp_word :: "nat \<Rightarrow> ULONG \<Rightarrow> ULONG" where
  "dcam_feature_clamp_word i word = (case dcam_feature_ranges ! i of (mn, mx, df) \<Rightarrow>
     (let value = word AND 0xFFF;
          v1 = (if value < mn then mn else value);
          v2 = (if v1 > mx then mx else v1)
      in (word AND NOT 0xFFF) OR v2))"

end
