(* ===== verification/Fake_Camera.thy ===== *)
theory Fake_Camera
  imports Fake_Registers
begin

text \<open>
  fake-fw-dev/dcam.c, i2c.c, trigger.c, iso.c, mailbox.c and avc.c: the emulated camera.  Its state is one
  record; a bus transaction is a function from the state to the response and the new state.  The Linux
  firewire and tty interfaces under it are the parameter \<open>fw_host\<close>.
\<close>

section \<open>The Linux side\<close>

text \<open>
  What the ioctls of fw-cdev answer: whether the device opens, the context is created, a buffer of so many
  bytes maps (with whether a refusal is ENOMEM), the context starts; and how many of \<open>n\<close> submitted packets
  are taken when \<open>q\<close> have been taken since the context was created (None when the ioctl fails).
\<close>

datatype map_answer = Mapped | NoMemory | Refused

record fw_host =
  hostOpen :: bool
  hostCreate :: bool
  hostMap :: "nat \<Rightarrow> map_answer"
  hostQueue :: "nat \<Rightarrow> nat \<Rightarrow> nat option"
  hostStart :: bool

section \<open>The camera\<close>

record dcam_camera =
  dcam_base :: ULONG64
  csr_base :: ULONG
  cur_format :: nat
  cur_mode :: nat
  cur_rate :: nat
  f7 :: "dcam_f7_live list"
  feat_value :: "ULONG list"
  feat_present :: ULONG
  iso_tag :: ULONG
  iso_sy_all :: bool
  advertise_std_formats :: bool
  num_f7_modes :: nat
  iso_created :: bool
  iso_buffer :: "nat option"
  iso_running :: bool
  iso_channel :: ULONG
  iso_speed :: ULONG
  refill_slot :: ULONG
  iso_acked_packets :: ULONG
  frame_counter :: ULONG
  frames_transmitted :: ULONG
  iso_oneshot :: bool
  iso_bpp :: ULONG
  iso_ppf :: ULONG
  frame_bytes :: ULONG
  ring_frames :: ULONG
  pixfmt :: ULONG
  img_width :: ULONG
  img_height :: ULONG
  iso_queue :: "(ULONG \<times> nat) list"
  mailbox_cmd :: "byte list"
  trigger_pending :: ULONG
  i2c_regs :: "byte list"

text \<open>
  \<open>iso_queue\<close> lists the packets the context has taken since it was created, as (control word, offset in the
  buffer) pairs, oldest first.
\<close>

definition dcam_video_format_inq :: "dcam_camera \<Rightarrow> ULONG" where
  "dcam_video_format_inq cam =
     (if advertise_std_formats cam
      then fold (\<lambda>format bitmap. if dcam_video_mode_inq format \<noteq> 0 then bitmap OR drop_bit format 0x80000000 else bitmap)
             [0..<3] (drop_bit 7 0x80000000)
      else drop_bit 7 0x80000000)"

definition dcam_reset_video_state :: "dcam_camera \<Rightarrow> dcam_camera" where
  "dcam_reset_video_state cam = cam\<lparr>cur_format := 0, cur_mode := 5, cur_rate := 4, f7 := dcam_f7_reset\<rparr>"

section \<open>The trigger input (trigger.c)\<close>

abbreviation (input) CAMREG_I2C_DEV_ADDR :: byte where "CAMREG_I2C_DEV_ADDR \<equiv> 0x14"
abbreviation (input) CAMREG_COUNT :: nat where "CAMREG_COUNT \<equiv> 0x30"
abbreviation (input) CAMREG_STATUS :: nat where "CAMREG_STATUS \<equiv> 0x2A"
abbreviation (input) CAMREG_TRIGGER_MODE :: nat where "CAMREG_TRIGGER_MODE \<equiv> 0x2C"
abbreviation (input) CAMREG_STATUS_FRAME_READY :: byte where "CAMREG_STATUS_FRAME_READY \<equiv> 0x04"
abbreviation (input) CAMREG_TRIGGER_EXTERNAL :: byte where "CAMREG_TRIGGER_EXTERNAL \<equiv> 0x31"

text \<open>One wake-up of the watcher thread.\<close>

definition trigger_thread :: "dcam_camera \<Rightarrow> dcam_camera" where
  "trigger_thread cam =
     (if i2c_regs cam ! CAMREG_TRIGGER_MODE \<noteq> CAMREG_TRIGGER_EXTERNAL then cam
      else cam\<lparr>trigger_pending := trigger_pending cam + 1\<rparr>)"

definition dcam_trigger_consume :: "dcam_camera \<Rightarrow> dcam_camera" where
  "dcam_trigger_consume cam =
     (if trigger_pending cam > 0 then cam\<lparr>trigger_pending := trigger_pending cam - 1\<rparr> else cam)"

definition dcam_trigger_disarm :: "dcam_camera \<Rightarrow> dcam_camera" where
  "dcam_trigger_disarm cam = cam\<lparr>trigger_pending := 0\<rparr>"

section \<open>The camera head (i2c.c)\<close>

definition dcam_i2c_reset :: "dcam_camera \<Rightarrow> dcam_camera" where
  "dcam_i2c_reset cam = cam\<lparr>i2c_regs := (replicate CAMREG_COUNT 0)[0x00 := 1, 0x02 := 1, 0x0C := 1, 0x0D := 1]\<rparr>"

definition dcam_i2c_status :: "dcam_camera \<Rightarrow> byte" where
  "dcam_i2c_status cam =
     (if i2c_regs cam ! CAMREG_TRIGGER_MODE = CAMREG_TRIGGER_EXTERNAL
      then (if trigger_pending cam > 0 then CAMREG_STATUS_FRAME_READY else 0)
      else if iso_running cam then CAMREG_STATUS_FRAME_READY else 0)"

definition dcam_i2c_read_reg :: "dcam_camera \<Rightarrow> nat \<Rightarrow> byte" where
  "dcam_i2c_read_reg cam reg =
     (if reg = CAMREG_STATUS then dcam_i2c_status cam
      else if reg < CAMREG_COUNT then i2c_regs cam ! reg else 0)"

definition dcam_i2c_write_reg :: "nat \<Rightarrow> byte \<Rightarrow> dcam_camera \<Rightarrow> dcam_camera" where
  "dcam_i2c_write_reg reg v cam =
     (if reg = CAMREG_STATUS \<or> reg \<ge> CAMREG_COUNT then cam
      else let cam1 = cam\<lparr>i2c_regs := (i2c_regs cam)[reg := v]\<rparr> in
        if reg = CAMREG_TRIGGER_MODE \<and> v \<noteq> CAMREG_TRIGGER_EXTERNAL then dcam_trigger_disarm cam1 else cam1)"

section \<open>Isochronous transmit (iso.c)\<close>

abbreviation (input) ISO_MAX_PACKETS_PER_FRAME :: ULONG where "ISO_MAX_PACKETS_PER_FRAME \<equiv> 4096"
abbreviation (input) ISO_INTR_STRIDE :: nat where "ISO_INTR_STRIDE \<equiv> 512"
abbreviation (input) ISO_MAX_PKTS_PER_QUEUE :: nat where "ISO_MAX_PKTS_PER_QUEUE \<equiv> 512"

definition iso_compute_geometry_f7 :: "dcam_camera \<Rightarrow> dcam_camera option" where
  "iso_compute_geometry_f7 cam =
     (if cur_mode cam \<ge> DCAM_NUM_F7_MODES then None
      else let l = f7 cam ! cur_mode cam; bits = dcam_f7_bits_per_pixel (color_coding l) in
        if bits = 0 then None
        else let bpp = bytes_per_packet l in
          if bpp = 0 \<or> lvWidth l = 0 \<or> lvHeight l = 0 then None
          else let image_bytes = dcam_f7_frame_bytes l; ppf = image_bytes div bpp in
            if ppf = 0 \<or> ppf > ISO_MAX_PACKETS_PER_FRAME then None
            else Some (cam\<lparr>iso_bpp := bpp, iso_ppf := ppf, frame_bytes := image_bytes,
              pixfmt := (if color_coding l = 2 then PIX_YUV422 else if color_coding l = 5 then PIX_MONO16
                         else if color_coding l = 7 then PIX_RAW8 else PIX_MONO8),
              img_width := lvWidth l, img_height := lvHeight l\<rparr>))"

definition iso_compute_geometry :: "dcam_camera \<Rightarrow> dcam_camera option" where
  "iso_compute_geometry cam =
     (if cur_format cam = 7 then iso_compute_geometry_f7 cam
      else if cur_format cam \<ge> 3 \<or> cur_mode cam \<ge> 8 \<or> cur_rate cam \<ge> 6 then None
      else let mi = dcam_mode_info_get (cur_format cam) (cur_mode cam); (bpp, ppf) = miRate mi ! cur_rate cam in
        if bpp = 0 \<or> ppf = 0 \<or> ppf > ISO_MAX_PACKETS_PER_FRAME then None
        else Some (cam\<lparr>iso_bpp := bpp, iso_ppf := ppf, frame_bytes := bpp * ppf, pixfmt := miPixfmt mi,
          img_width := miWidth mi, img_height := miHeight mi\<rparr>))"

text \<open>The control word of a packet: length, interrupt, tag and sy (linux/firewire-cdev.h).\<close>

definition iso_control :: "dcam_camera \<Rightarrow> nat \<Rightarrow> ULONG" where
  "iso_control cam pkt =
     (let sy = (if iso_sy_all cam \<or> pkt = 0 then 1 else 0);
          control = iso_bpp cam OR push_bit 18 (iso_tag cam) OR push_bit 20 sy
      in if pkt = unat (iso_ppf cam) - 1 \<or> (pkt + 1) mod ISO_INTR_STRIDE = 0 then control OR push_bit 16 1 else control)"

text \<open>
  The submit loop: one chunk of at most 512 packets per call, resubmitted past what the kernel took; it
  ends on an error or when the kernel takes nothing.  \<open>queued\<close> counts the packets the kernel has taken.
\<close>

function iso_submit :: "fw_host \<Rightarrow> nat \<Rightarrow> nat \<Rightarrow> nat \<Rightarrow> dcam_camera \<Rightarrow> dcam_camera" where
  "iso_submit h slot queued chunk_end cam =
     (if queued \<ge> unat (iso_ppf cam) then cam
      else
        let stop = (if queued < chunk_end then chunk_end else min (unat (iso_ppf cam)) (queued + ISO_MAX_PKTS_PER_QUEUE));
            taken = (case hostQueue h (length (iso_queue cam)) (stop - queued) of None \<Rightarrow> 0 | Some n \<Rightarrow> min n (stop - queued))
        in if taken = 0 then cam
           else iso_submit h slot (queued + taken) stop
                  (cam\<lparr>iso_queue := iso_queue cam @
                     map (\<lambda>pkt. (iso_control cam pkt, slot * unat (frame_bytes cam) + pkt * unat (iso_bpp cam)))
                       [queued..<queued + taken]\<rparr>))"
  by pat_completeness auto

termination
proof (relation "measure (\<lambda>(h, slot, queued, chunk_end, cam). unat (iso_ppf cam) - queued)", goal_cases)
  case 1
  show ?case by (rule wf_measure)
next
  case (2 h slot queued chunk_end cam stop taken)
  then have "queued < unat (iso_ppf cam)" "0 < taken" by (simp_all add: not_le)
  then show ?case by (simp add: diff_less_mono2)
qed

declare iso_submit.simps [simp del]

definition iso_queue_frame :: "fw_host \<Rightarrow> nat \<Rightarrow> dcam_camera \<Rightarrow> dcam_camera" where
  "iso_queue_frame h slot cam = iso_submit h slot 0 0 cam"

text \<open>The mapping sizes tried: 12 MB, halved down to 256 KB.\<close>

definition isoMapSizes :: "nat list" where
  "isoMapSizes = [12582912, 6291456, 3145728, 1572864, 786432, 393216]"

fun iso_map_sizes :: "fw_host \<Rightarrow> nat list \<Rightarrow> nat option" where
  "iso_map_sizes h [] = None"
| "iso_map_sizes h (want # rest) =
     (case hostMap h want of Mapped \<Rightarrow> Some want | NoMemory \<Rightarrow> iso_map_sizes h rest | Refused \<Rightarrow> None)"

definition iso_map_buffer_once :: "fw_host \<Rightarrow> dcam_camera \<Rightarrow> dcam_camera option" where
  "iso_map_buffer_once h cam =
     (if iso_buffer cam \<noteq> None then Some cam
      else map_option (\<lambda>n. cam\<lparr>iso_buffer := Some n\<rparr>) (iso_map_sizes h isoMapSizes))"

definition iso_setup_ring :: "dcam_camera \<Rightarrow> dcam_camera option" where
  "iso_setup_ring cam =
     (let ring = (case iso_buffer cam of None \<Rightarrow> 0 | Some n \<Rightarrow> n div unat (frame_bytes cam)) in
      if ring = 0 then None else Some (cam\<lparr>ring_frames := of_nat (min ring 4)\<rparr>))"

fun isoPrefill :: "fw_host \<Rightarrow> nat list \<Rightarrow> dcam_camera \<Rightarrow> dcam_camera" where
  "isoPrefill h [] cam = cam"
| "isoPrefill h (slot # slots) cam =
     isoPrefill h slots (iso_queue_frame h slot (cam\<lparr>frame_counter := frame_counter cam + 1\<rparr>))"

text \<open>A start that fails part way leaves what it has set up.\<close>

definition dcam_iso_start :: "fw_host \<Rightarrow> dcam_camera \<Rightarrow> dcam_camera" where
  "dcam_iso_start h cam =
     (if iso_running cam then cam
      else case iso_compute_geometry cam of
          None \<Rightarrow> cam
        | Some c1 \<Rightarrow>
            if \<not> iso_created c1 \<and> \<not> (hostOpen h \<and> hostCreate h) then c1
            else let c2 = c1\<lparr>iso_created := True, iso_queue := (if iso_created c1 then iso_queue c1 else [])\<rparr> in
              (case iso_map_buffer_once h c2 of
                 None \<Rightarrow> c2
               | Some c3 \<Rightarrow> (case iso_setup_ring c3 of
                     None \<Rightarrow> c3
                   | Some c4 \<Rightarrow>
                       let prefill = (if iso_oneshot c4 then 1 else ring_frames c4);
                           c5 = isoPrefill h [0..<unat prefill]
                                  (c4\<lparr>frame_counter := 0, frames_transmitted := 0, iso_acked_packets := 0\<rparr>);
                           c6 = c5\<lparr>refill_slot := prefill mod ring_frames c5\<rparr>
                       in if hostStart h then c6\<lparr>iso_running := True\<rparr> else c6)))"

definition dcam_iso_stop :: "dcam_camera \<Rightarrow> dcam_camera" where
  "dcam_iso_stop cam =
     (if \<not> iso_running cam \<and> \<not> iso_created cam then cam
      else cam\<lparr>iso_buffer := None, iso_created := False, iso_queue := [], iso_running := False\<rparr>)"

text \<open>The loop of the completion handler, one frame acknowledged per round.\<close>

function isoRefill :: "fw_host \<Rightarrow> dcam_camera \<Rightarrow> dcam_camera" where
  "isoRefill h cam =
     (if iso_ppf cam = 0 \<or> iso_acked_packets cam < iso_ppf cam then cam
      else
        let c1 = cam\<lparr>iso_acked_packets := iso_acked_packets cam - iso_ppf cam,
                     frames_transmitted := frames_transmitted cam + 1\<rparr>;
            c2 = (if i2c_regs c1 ! CAMREG_TRIGGER_MODE = CAMREG_TRIGGER_EXTERNAL then dcam_trigger_consume c1 else c1)
        in if iso_oneshot c2 then dcam_iso_stop c2
           else isoRefill h ((iso_queue_frame h (unat (refill_slot c2)) (c2\<lparr>frame_counter := frame_counter c2 + 1\<rparr>))
                  \<lparr>refill_slot := (refill_slot c2 + 1) mod ring_frames c2\<rparr>))"
  by pat_completeness auto

lemma iso_submit_keeps:
  "iso_acked_packets (iso_submit h slot queued stop cam) = iso_acked_packets cam \<and>
   iso_ppf (iso_submit h slot queued stop cam) = iso_ppf cam"
proof (induction h slot queued stop cam rule: iso_submit.induct)
  case (1 h slot queued chunk_end cam)
  show ?case by (subst (1 2) iso_submit.simps) (simp add: Let_def 1)
qed

lemma consume_keeps:
  "iso_acked_packets (dcam_trigger_consume cam) = iso_acked_packets cam"
  by (simp add: dcam_trigger_consume_def)

lemma ulong_shrinks: "(p :: ULONG) \<noteq> 0 \<Longrightarrow> \<not> a < p \<Longrightarrow> unat (a - p) < unat a"
  by (metis diff_less unat_eq_zero not_less unat_sub word_le_nat_alt gr0I le_zero_eq)

termination isoRefill
proof (relation "measure (\<lambda>(h, cam). unat (iso_acked_packets cam))", goal_cases)
  case 1
  show ?case by (rule wf_measure)
next
  case (2 h cam c1 c2)
  then have "unat (iso_acked_packets cam - iso_ppf cam) < unat (iso_acked_packets cam)" by (intro ulong_shrinks) auto
  with 2 show ?case by (simp add: iso_queue_frame_def iso_submit_keeps consume_keeps)
qed

declare isoRefill.simps [simp del]

definition dcam_on_iso_interrupt :: "fw_host \<Rightarrow> ULONG \<Rightarrow> dcam_camera \<Rightarrow> dcam_camera" where
  "dcam_on_iso_interrupt h completed_packets cam =
     (if \<not> iso_running cam \<or> iso_ppf cam = 0 \<or> ring_frames cam = 0 then cam
      else let outstanding = ring_frames cam * iso_ppf cam;
               completed = (if completed_packets > outstanding then outstanding else completed_packets)
           in isoRefill h (cam\<lparr>iso_acked_packets := iso_acked_packets cam + completed\<rparr>))"

definition dcam_on_iso_error :: "dcam_camera \<Rightarrow> dcam_camera" where
  "dcam_on_iso_error cam = dcam_iso_stop cam"

section \<open>The register space (dcam.c)\<close>

definition f7Block :: "dcam_camera \<Rightarrow> ULONG \<Rightarrow> bool" where
  "f7Block cam off \<longleftrightarrow> off \<ge> DCAM_F7_CSR_BLOCK \<and> off < DCAM_F7_CSR_BLOCK + of_nat (num_f7_modes cam) * DCAM_F7_CSR_BLOCK_LEN"

definition dcam_on_register_read :: "dcam_camera \<Rightarrow> ULONG \<Rightarrow> ULONG" where
  "dcam_on_register_read cam off =
     (if off = 0x100 then dcam_video_format_inq cam
      else if off \<ge> 0x180 \<and> off \<le> 0x188 \<and> off AND 3 = 0 then dcam_video_mode_inq (unat ((off - 0x180) div 4))
      else if off \<ge> 0x200 \<and> off \<le> 0x25C \<and> off AND 3 = 0
      then let combined = unat ((off - 0x200) div 4) in dcam_frame_rate_inq (combined div 8) (combined mod 8)
      else if off = 0x19C then idMask (\<lambda>m. True) (num_f7_modes cam)
      else if off \<ge> 0x2E0 \<and> off < 0x2E0 + of_nat (num_f7_modes cam) * 4 \<and> off AND 3 = 0
      then dcam_f7_csr_pointer (csr_base cam) (unat ((off - 0x2E0) div 4))
      else if f7Block cam off
      then let rel = off - DCAM_F7_CSR_BLOCK in
        dcam_f7_csr_read (f7 cam) (unat (rel div DCAM_F7_CSR_BLOCK_LEN)) (rel mod DCAM_F7_CSR_BLOCK_LEN)
      else if off = 0x600 then push_bit 29 (of_nat (cur_rate cam))
      else if off = 0x604 then push_bit 29 (of_nat (cur_mode cam))
      else if off = 0x608 then push_bit 29 (of_nat (cur_format cam))
      else if off = 0x404 then dcam_feature_block_inq 0x500 (feat_present cam)
      else if off = 0x408 then dcam_feature_block_inq 0x580 (feat_present cam)
      else case dcam_feature_by_inq off of
          Some i \<Rightarrow> if featPresent (feat_present cam) i then dcam_feature_inq_word i else 0
        | None \<Rightarrow> (case dcam_feature_by_value off of Some i \<Rightarrow> feat_value cam ! i | None \<Rightarrow> 0))"

text \<open>The register write, with the value it carries (a write shorter than a quadlet carries zero).\<close>

definition writeChannel :: "ULONG \<Rightarrow> dcam_camera \<Rightarrow> dcam_camera" where
  "writeChannel logical cam =
     (let channel = drop_bit 28 logical AND 0x0F; speed = drop_bit 24 logical AND 0x0F in
      if iso_created cam \<and> (channel \<noteq> iso_channel cam \<or> speed \<noteq> iso_speed cam) then cam
      else cam\<lparr>iso_channel := channel, iso_speed := speed\<rparr>)"

definition writeFeature :: "ULONG \<Rightarrow> ULONG \<Rightarrow> dcam_camera \<Rightarrow> rcode \<times> dcam_camera" where
  "writeFeature off logical cam =
     (case dcam_feature_by_value off of
        None \<Rightarrow> (RCODE_COMPLETE, cam)
      | Some i \<Rightarrow> if \<not> featPresent (feat_present cam) i then (RCODE_DATA_ERROR, cam)
                  else (RCODE_COMPLETE, cam\<lparr>feat_value := (feat_value cam)[i := dcam_feature_clamp_word i logical]\<rparr>))"

definition dcam_on_register_write :: "fw_host \<Rightarrow> ULONG \<Rightarrow> ULONG \<Rightarrow> dcam_camera \<Rightarrow> rcode \<times> dcam_camera" where
  "dcam_on_register_write h off logical cam =
     (if off = 0x000
      then (RCODE_COMPLETE, if logical AND 0x80000000 \<noteq> 0 then dcam_reset_video_state cam else cam)
      else if off = 0x608 then (RCODE_COMPLETE, cam\<lparr>cur_format := unat (drop_bit 29 logical)\<rparr>)
      else if off = 0x604 then (RCODE_COMPLETE, cam\<lparr>cur_mode := unat (drop_bit 29 logical)\<rparr>)
      else if off = 0x600 then (RCODE_COMPLETE, cam\<lparr>cur_rate := unat (drop_bit 29 logical)\<rparr>)
      else if off = 0x60C then (RCODE_COMPLETE, writeChannel logical cam)
      else if off = 0x614
      then (RCODE_COMPLETE, if logical AND 0x80000000 \<noteq> 0 then dcam_iso_start h (cam\<lparr>iso_oneshot := False\<rparr>) else dcam_iso_stop cam)
      else if off = 0x61C
      then (RCODE_COMPLETE,
            if logical AND 0x80000000 \<noteq> 0 then dcam_iso_start h ((dcam_iso_stop cam)\<lparr>iso_oneshot := True\<rparr>) else cam)
      else if f7Block cam off
      then let rel = off - DCAM_F7_CSR_BLOCK in
        (case dcam_f7_csr_write (unat (rel div DCAM_F7_CSR_BLOCK_LEN)) (rel mod DCAM_F7_CSR_BLOCK_LEN) logical (f7 cam) of
           (rc, ls) \<Rightarrow> (rc, cam\<lparr>f7 := ls\<rparr>))
      else writeFeature off logical cam)"

text \<open>
  The camera as created; the address is the one fw_device_allocate returns, and the mode count that of
  PHOTONIC_F7_MODES.
\<close>

definition dcam_create :: "ULONG64 \<Rightarrow> ULONG \<Rightarrow> bool \<Rightarrow> bool \<Rightarrow> nat \<Rightarrow> string option \<Rightarrow> dcam_camera" where
  "dcam_create base tag sy_all std modes features =
     (let present = dcam_feature_parse_present features in
      dcam_i2c_reset (dcam_reset_video_state
        \<lparr>dcam_base = base, csr_base = ucast base, cur_format = 0, cur_mode = 0, cur_rate = 0, f7 = [],
         feat_value = map (\<lambda>i. if featPresent present i then dcam_feature_default_word i else 0) [0..<DCAM_NUM_FEATURES],
         feat_present = present, iso_tag = tag, iso_sy_all = sy_all, advertise_std_formats = std,
         num_f7_modes = (if 1 \<le> modes \<and> modes \<le> DCAM_NUM_F7_MODES then modes
                         else if modes > DCAM_NUM_F7_MODES then DCAM_NUM_F7_MODES else 1),
         iso_created = False, iso_buffer = None, iso_running = False, iso_channel = 0, iso_speed = 2, refill_slot = 0,
         iso_acked_packets = 0, frame_counter = 0, frames_transmitted = 0, iso_oneshot = False, iso_bpp = 0, iso_ppf = 0,
         frame_bytes = 0, ring_frames = 0, pixfmt = 0, img_width = 0, img_height = 0, iso_queue = [], mailbox_cmd = [],
         trigger_pending = 0, i2c_regs = []\<rparr>))"

definition dcam_force_stream :: "fw_host \<Rightarrow> ULONG \<Rightarrow> dcam_camera \<Rightarrow> dcam_camera" where
  "dcam_force_stream h bpp cam =
     (let c1 = cam\<lparr>cur_format := 7, cur_mode := 0\<rparr>;
          (rc, ls) = (if bpp \<noteq> 0 then dcam_f7_csr_write 0 0x44 (push_bit 16 bpp) (f7 c1) else (RCODE_COMPLETE, f7 c1))
      in if rc \<noteq> RCODE_COMPLETE then c1 else dcam_iso_start h (c1\<lparr>f7 := ls, iso_oneshot := False\<rparr>))"

section \<open>The command mailbox (mailbox.c)\<close>

text \<open>Each complete word reversed, the tail as it is.\<close>

fun dcam_swap_dwords :: "byte list \<Rightarrow> byte list" where
  "dcam_swap_dwords (a # b # c # d # rest) = d # c # b # a # dcam_swap_dwords rest"
| "dcam_swap_dwords tail = tail"

definition mailboxCommand :: "byte list \<Rightarrow> ULONG" where
  "mailboxCommand bs = (if length bs \<ge> 4 then of_le_bytes (take 4 bs) else 0)"

definition dcam_on_mailbox_write :: "byte list \<Rightarrow> dcam_camera \<Rightarrow> dcam_camera" where
  "dcam_on_mailbox_write payload cam =
     (let cmd = dcam_swap_dwords (take 512 payload); cam1 = cam\<lparr>mailbox_cmd := cmd\<rparr> in
      if length cmd \<ge> 9 \<and> mailboxCommand cmd = 0x1009 \<and> cmd ! 4 = CAMREG_I2C_DEV_ADDR
      then dcam_i2c_write_reg (unat (cmd ! 5)) (cmd ! 8) cam1 else cam1)"

definition dcam_on_mailbox_read :: "nat \<Rightarrow> dcam_camera \<Rightarrow> byte list" where
  "dcam_on_mailbox_read len cam =
     (let outlen = min len 512; cmd = mailbox_cmd cam; resp = replicate outlen 0 in
      dcam_swap_dwords
        (if mailboxCommand cmd = 0x1008
         then (if outlen > 8 \<and> length cmd > 5
               then resp[8 := (if cmd ! 4 = CAMREG_I2C_DEV_ADDR then dcam_i2c_read_reg cam (unat (cmd ! 5)) else 1)]
               else resp)
         else if mailboxCommand cmd = 0x100D
         then (if outlen > 5 \<and> length cmd > 4 then resp[5 := cmd ! 4] else resp)
         else resp))"

section \<open>AV/C commands (avc.c)\<close>

text \<open>The FCP response frame; None when the command is too short for one.\<close>

definition dcam_on_fcp_command :: "byte list \<Rightarrow> byte list option" where
  "dcam_on_fcp_command cmd =
     (if length cmd < 3 then None
      else let ctype = cmd ! 0; opcode = cmd ! 2;
               r0 = (take 512 cmd)[0 := (if ctype = 0x00 then 0x09 else if ctype = 0x01 then 0x0C else 0x08)];
               r1 = (if ctype = 0x01 \<and> opcode = 0x31 \<and> length r0 \<ge> 8
                     then r0[3 := 0x00, 4 := 0x01, 5 := 0x00, 6 := 0x00, 7 := 0x00] else r0)
           in Some (if opcode = 0x30 then r1[0 := 0x08] else r1))"

end
