(* ===== verification/Fake_Camera_Props.thy ===== *)
theory Fake_Camera_Props
  imports Fake_Camera
begin

text \<open>
  The emulated camera under every sequence of bus transactions, completion interrupts and trigger
  pulses: its registers stay in range, its isochronous packets stay inside the mapped buffer, and its
  refill loop keeps the look-ahead it was started with.
\<close>

section \<open>Registers\<close>

definition live_ok :: "dcam_f7_live \<Rightarrow> bool" where
  "live_ok l \<longleftrightarrow> dcam_f7_bpp_is_legal l (bytes_per_packet l)"

lemma packet_params_same:
  "lvWidth l' = lvWidth l \<Longrightarrow> color_coding l' = color_coding l \<Longrightarrow> dcam_f7_packet_params l' = dcam_f7_packet_params l"
  by (simp add: dcam_f7_packet_params_def)

lemma packet_step: "fst (dcam_f7_packet_params l) \<le> snd (dcam_f7_packet_params l)"
proof -
  have "(a :: ULONG) \<le> (if b < a then a else b)" for a b by (simp add: not_less)
  then show ?thesis unfolding dcam_f7_packet_params_def Let_def fst_conv snd_conv by blast
qed

lemma resize_params: "dcam_f7_packet_params (resize l) = dcam_f7_packet_params l"
  by (rule packet_params_same) (simp_all add: resize_def)

lemma live_ok_resize: "live_ok (resize l)"
proof -
  have "bytes_per_packet (resize l) = fst (dcam_f7_packet_params l)"
    by (simp add: resize_def dcam_f7_recommended_bpp_def)
  then show ?thesis
    using packet_step [of l] by (simp add: live_ok_def dcam_f7_bpp_is_legal_def resize_params split_beta)
qed

lemma live_ok_position: "live_ok l \<Longrightarrow> live_ok (l\<lparr>lvOffx := a, lvOffy := b\<rparr>)"
  by (simp add: live_ok_def dcam_f7_bpp_is_legal_def packet_params_same [of "l\<lparr>lvOffx := a, lvOffy := b\<rparr>" l])

lemma live_ok_packet: "dcam_f7_bpp_is_legal l b \<Longrightarrow> live_ok (l\<lparr>bytes_per_packet := b\<rparr>)"
  by (simp add: live_ok_def dcam_f7_bpp_is_legal_def packet_params_same [of "l\<lparr>bytes_per_packet := b\<rparr>" l])

lemma live_ok_update:
  "list_all live_ok ls \<Longrightarrow> (n < length ls \<Longrightarrow> live_ok x) \<Longrightarrow> list_all live_ok (ls[n := x])"
  by (cases "n < length ls") (auto simp: list_all_length nth_list_update)

lemma csr_write_ok:
  assumes "list_all live_ok ls"
  shows "list_all live_ok (snd (dcam_f7_csr_write mode reg v ls)) \<and>
    length (snd (dcam_f7_csr_write mode reg v ls)) = length ls"
proof -
  have "live_ok (ls ! mode)" if "mode < length ls" using that assms by (simp add: list_all_length)
  then have position: "list_all live_ok (ls[mode := (ls ! mode)\<lparr>lvOffx := a, lvOffy := b\<rparr>])" for a b
    using assms by (simp add: live_ok_update live_ok_position)
  have packet: "list_all live_ok (ls[mode := (ls ! mode)\<lparr>bytes_per_packet := b\<rparr>])"
    if "dcam_f7_bpp_is_legal (ls ! mode) b" for b
    using assms that by (simp add: live_ok_update live_ok_packet)
  have sized: "list_all live_ok (ls[mode := resize l])" for l
    using assms by (simp add: live_ok_update live_ok_resize)
  show ?thesis
    by (simp add: dcam_f7_csr_write_def Let_def position packet sized assms)
qed

text \<open>A feature register holds a value of its range, or nothing when the feature is disabled.\<close>

definition feature_ok :: "ULONG \<Rightarrow> ULONG list \<Rightarrow> nat \<Rightarrow> bool" where
  "feature_ok present vs i \<longleftrightarrow>
     (if featPresent present i
      then fst (dcam_feature_ranges ! i) \<le> (vs ! i) AND 0xFFF \<and> (vs ! i) AND 0xFFF \<le> fst (snd (dcam_feature_ranges ! i))
      else vs ! i = 0)"

lemma low12:
  assumes "v \<le> 0xFFF"
  shows "(w AND - 4096 OR v) AND 0xFFF = (v :: ULONG)"
proof -
  have m: "(0xFFF :: ULONG) = mask 12" by (simp add: mask_eq_exp_minus_1)
  have "v < 2 ^ 12" using assms by (simp add: word_less_nat_alt word_le_nat_alt)
  then have "v AND 0xFFF = v"
    unfolding m by (rule less_mask_eq)
  then show ?thesis by (simp add: bit.conj_disj_distrib2 word_bw_assocs)
qed

lemma ranges_ordered:
  "list_all (\<lambda>(mn, mx, df). mn \<le> df \<and> df \<le> mx \<and> mx \<le> 0xFFF) dcam_feature_ranges"
  "length dcam_feature_ranges = 13"
  by (simp_all add: dcam_feature_ranges_def)

lemma clamp_in_range:
  assumes "i < 13"
  shows "fst (dcam_feature_ranges ! i) \<le> dcam_feature_clamp_word i w AND 0xFFF \<and>
    dcam_feature_clamp_word i w AND 0xFFF \<le> fst (snd (dcam_feature_ranges ! i))"
proof -
  obtain mn mx df where r: "dcam_feature_ranges ! i = (mn, mx, df)" by (cases "dcam_feature_ranges ! i")
  have "mn \<le> mx" "mx \<le> 0xFFF"
    using ranges_ordered assms r by (auto simp: list_all_length)
  moreover have "w AND 0xFFF \<le> 0xFFF" by (rule word_and_le1)
  ultimately show ?thesis
    by (auto simp: dcam_feature_clamp_word_def r Let_def low12 dest: order_trans)
qed

lemma default_in_range:
  assumes "i < 13"
  shows "fst (dcam_feature_ranges ! i) \<le> dcam_feature_default_word i AND 0xFFF \<and>
    dcam_feature_default_word i AND 0xFFF \<le> fst (snd (dcam_feature_ranges ! i))"
  using assms by (simp add: less_Suc_eq numeral_eq_Suc dcam_feature_default_word_def dcam_feature_ranges_def) auto

lemma find_value_index: "dcam_feature_by_value off = Some i \<Longrightarrow> i < 13"
  by (auto simp: dcam_feature_by_value_def find_Some_iff)

section \<open>Queueing a frame\<close>

definition framePacket :: "dcam_camera \<Rightarrow> nat \<Rightarrow> nat \<Rightarrow> ULONG \<times> nat" where
  "framePacket cam slot pkt = (iso_control cam pkt, slot * unat (frame_bytes cam) + pkt * unat (iso_bpp cam))"

text \<open>The kernel takes something of every submission.\<close>

definition hostTakes :: "fw_host \<Rightarrow> bool" where
  "hostTakes h \<longleftrightarrow> (\<forall>q n. 0 < n \<longrightarrow> (\<exists>k > 0. hostQueue h q n = Some k))"

lemma hostTakesD: "hostTakes h \<Longrightarrow> 0 < n \<Longrightarrow> \<exists>k > 0. hostQueue h q n = Some k"
  by (simp add: hostTakes_def)

lemma framePacket_queue [simp]: "framePacket (cam\<lparr>iso_queue := q\<rparr>) = framePacket cam"
  by (simp add: fun_eq_iff framePacket_def iso_control_def)

lemma iso_submit_prefix:
  assumes "queued \<le> unat (iso_ppf cam)" and "chunk_end \<le> unat (iso_ppf cam)"
  shows "\<exists>k. queued \<le> k \<and> k \<le> unat (iso_ppf cam) \<and> (hostTakes h \<longrightarrow> k = unat (iso_ppf cam)) \<and>
    iso_submit h slot queued chunk_end cam =
      cam\<lparr>iso_queue := iso_queue cam @ map (framePacket cam slot) [queued..<k]\<rparr>"
  using assms
proof (induction h slot queued chunk_end cam rule: iso_submit.induct)
  case (1 h slot queued chunk_end cam)
  define stop where "stop = (if queued < chunk_end then chunk_end else min (unat (iso_ppf cam)) (queued + 512))"
  define taken where "taken = (case hostQueue h (length (iso_queue cam)) (stop - queued) of None \<Rightarrow> 0 | Some n \<Rightarrow> min n (stop - queued))"
  show ?case
  proof (cases "queued \<ge> unat (iso_ppf cam) \<or> taken = 0")
    case True
    moreover have "queued \<ge> unat (iso_ppf cam)" if "hostTakes h"
    proof (rule ccontr)
      assume "\<not> queued \<ge> unat (iso_ppf cam)"
      then have "queued < stop" unfolding stop_def by (cases "queued < chunk_end") simp_all
      then have "0 < stop - queued" by simp
      with hostTakesD [OF that] obtain k where "k > 0" "hostQueue h (length (iso_queue cam)) (stop - queued) = Some k"
        by metis
      then have "taken \<noteq> 0" using \<open>0 < stop - queued\<close> by (simp add: taken_def)
      with True \<open>\<not> queued \<ge> unat (iso_ppf cam)\<close> show False by simp
    qed
    ultimately have "iso_submit h slot queued chunk_end cam = cam"
      by (subst iso_submit.simps) (elim disjE; simp only: Let_def stop_def [symmetric] taken_def [symmetric] if_True simp_thms if_cancel)
    then show ?thesis
      using 1(2) \<open>hostTakes h \<Longrightarrow> queued \<ge> unat (iso_ppf cam)\<close> by (intro exI [of _ queued]) auto
  next
    case False
    let ?c = "cam\<lparr>iso_queue := iso_queue cam @ map (framePacket cam slot) [queued..<queued + taken]\<rparr>"
    have fp: "(\<lambda>pkt. (iso_control cam pkt, slot * unat (frame_bytes cam) + pkt * unat (iso_bpp cam))) = framePacket cam slot"
      by (simp add: fun_eq_iff framePacket_def)
    have step: "iso_submit h slot queued chunk_end cam = iso_submit h slot (queued + taken) stop ?c"
      using False by (subst iso_submit.simps) (simp only: Let_def stop_def [symmetric] taken_def [symmetric] fp if_False de_Morgan_disj)
    have le: "stop \<le> unat (iso_ppf cam)" "taken \<le> stop - queued"
      using 1(3) by (auto simp: stop_def taken_def split: option.split)
    then have "queued + taken \<le> unat (iso_ppf cam)" using False by linarith
    with 1(1) [OF _ stop_def taken_def, unfolded fp] False le(1)
    obtain k where k: "queued + taken \<le> k" "k \<le> unat (iso_ppf cam)" "hostTakes h \<longrightarrow> k = unat (iso_ppf cam)"
      "iso_submit h slot (queued + taken) stop ?c =
        ?c\<lparr>iso_queue := iso_queue ?c @ map (framePacket ?c slot) [queued + taken..<k]\<rparr>"
      by auto
    have "[queued..<k] = [queued..<queued + taken] @ [queued + taken..<k]"
      using upt_add_eq_append [of queued "queued + taken" "k - (queued + taken)"] k(1) by simp
    then have "map (framePacket cam slot) [queued..<k] =
      map (framePacket cam slot) [queued..<queued + taken] @ map (framePacket cam slot) [queued + taken..<k]" by simp
    then show ?thesis using k step by (intro exI [of _ k]) (simp only: dcam_camera.simps framePacket_queue append_assoc, simp)
  qed
qed

text \<open>The low half of a control word is the payload length, and that is at most a packet.\<close>

lemma low16_push: "16 \<le> k \<Longrightarrow> push_bit k t AND 0xFFFF = (0 :: ULONG)"
proof -
  have m: "(0xFFFF :: ULONG) = mask 16" by (simp add: mask_eq_exp_minus_1)
  show "16 \<le> k \<Longrightarrow> ?thesis" unfolding m by (rule bit_word_eqI) (auto simp: bit_simps)
qed

lemma control_length: "iso_control cam pkt AND 0xFFFF = iso_bpp cam AND 0xFFFF"
  by (simp add: iso_control_def Let_def bit.conj_disj_distrib2 low16_push)

lemma control_fits: "unat (iso_control cam pkt AND 0xFFFF) \<le> unat (iso_bpp cam)"
  using word_and_le2 [of "iso_bpp cam" "0xFFFF"] by (simp add: control_length word_le_nat_alt word_bw_comms)

definition packet_in :: "nat \<Rightarrow> ULONG \<times> nat \<Rightarrow> bool" where
  "packet_in n p \<longleftrightarrow> snd p + unat (fst p AND 0xFFFF) \<le> n"

definition transmit_ok :: "dcam_camera \<Rightarrow> bool" where
  "transmit_ok cam \<longleftrightarrow> iso_bpp cam \<noteq> 0 \<and> iso_ppf cam \<noteq> 0 \<and> iso_ppf cam \<le> ISO_MAX_PACKETS_PER_FRAME \<and>
     unat (iso_bpp cam) * unat (iso_ppf cam) \<le> unat (frame_bytes cam)"

lemma framePacket_in:
  assumes "transmit_ok cam" and "pkt < unat (iso_ppf cam)" and "Suc slot * unat (frame_bytes cam) \<le> n"
  shows "packet_in n (framePacket cam slot pkt)"
proof -
  have "Suc pkt * unat (iso_bpp cam) \<le> unat (iso_ppf cam) * unat (iso_bpp cam)"
    using assms(2) by (intro mult_le_mono1) simp
  then have "pkt * unat (iso_bpp cam) + unat (iso_bpp cam) \<le> unat (frame_bytes cam)"
    using assms(1) by (simp add: transmit_ok_def mult.commute)
  then show ?thesis
    using control_fits [of cam pkt] assms(3) by (simp add: packet_in_def framePacket_def)
qed

lemma iso_queue_frame_in:
  assumes "transmit_ok cam" and "Suc slot * unat (frame_bytes cam) \<le> n" and "list_all (packet_in n) (iso_queue cam)"
  shows "\<exists>q. iso_queue_frame h slot cam = cam\<lparr>iso_queue := q\<rparr> \<and> list_all (packet_in n) q"
proof -
  obtain k where k: "k \<le> unat (iso_ppf cam)"
    "iso_queue_frame h slot cam = cam\<lparr>iso_queue := iso_queue cam @ map (framePacket cam slot) [0..<k]\<rparr>"
    using iso_submit_prefix [of 0 cam 0 h slot] by (auto simp: iso_queue_frame_def)
  then show ?thesis
    using assms(3) framePacket_in [OF assms(1) _ assms(2)]
    by (intro exI [of _ "iso_queue cam @ map (framePacket cam slot) [0..<k]"]) (auto simp: list_all_iff)
qed

section \<open>The stream's geometry\<close>

lemma dcam_modes_fit:
  "list_all (list_all (\<lambda>mi. list_all (\<lambda>(b, p). unat b * unat p = unat (b * p)) (miRate mi))) dcam_modes"
  by (simp add: dcam_modes_def modeInfo_def)

lemma dcam_modes_dims:
  "length dcam_modes = 3" "list_all (\<lambda>row. length row = 8 \<and> list_all (\<lambda>mi. length (miRate mi) = 6) row) dcam_modes"
  by (simp_all add: dcam_modes_def modeInfo_def)

text \<open>What an operation of the stream leaves alone.\<close>

definition same_regs :: "dcam_camera \<Rightarrow> dcam_camera \<Rightarrow> bool" where
  "same_regs c c' \<longleftrightarrow> f7 c' = f7 c \<and> feat_value c' = feat_value c \<and> feat_present c' = feat_present c \<and>
     num_f7_modes c' = num_f7_modes c \<and> cur_format c' = cur_format c \<and> cur_mode c' = cur_mode c \<and>
     cur_rate c' = cur_rate c \<and> iso_channel c' = iso_channel c \<and> iso_speed c' = iso_speed c \<and>
     i2c_regs c' = i2c_regs c \<and> mailbox_cmd c' = mailbox_cmd c"

definition same_context :: "dcam_camera \<Rightarrow> dcam_camera \<Rightarrow> bool" where
  "same_context c c' \<longleftrightarrow> iso_running c' = iso_running c \<and> iso_created c' = iso_created c \<and>
     iso_buffer c' = iso_buffer c \<and> iso_queue c' = iso_queue c \<and> iso_oneshot c' = iso_oneshot c"

lemma geometry_f7:
  assumes "iso_compute_geometry_f7 cam = Some c"
  shows "transmit_ok c \<and> same_regs cam c \<and> same_context cam c"
proof -
  let ?l = "f7 cam ! cur_mode cam"
  let ?n = "dcam_f7_frame_bytes ?l" and ?b = "bytes_per_packet ?l"
  have c: "iso_bpp c = ?b" "iso_ppf c = ?n div ?b" "frame_bytes c = ?n" "same_regs cam c" "same_context cam c"
    and b: "?b \<noteq> 0" "?n div ?b \<noteq> 0" "?n div ?b \<le> ISO_MAX_PACKETS_PER_FRAME"
    using assms by (auto simp: iso_compute_geometry_f7_def Let_def same_regs_def same_context_def not_less split: if_split_asm)
  have "unat ?b * unat (?n div ?b) \<le> unat ?n" by (simp add: unat_div)
  with c b show ?thesis by (simp add: transmit_ok_def)
qed

lemma geometry_some:
  assumes "iso_compute_geometry cam = Some c"
  shows "transmit_ok c \<and> same_regs cam c \<and> same_context cam c"
proof (cases "cur_format cam = 7")
  case True
  then show ?thesis using assms geometry_f7 by (simp add: iso_compute_geometry_def)
next
  case False
  let ?mi = "dcam_mode_info_get (cur_format cam) (cur_mode cam)"
  obtain b p where r: "miRate ?mi ! cur_rate cam = (b, p)" by fastforce
  have "cur_format cam < 3" "cur_mode cam < 8" "cur_rate cam < 6"
    using assms False by (auto simp: iso_compute_geometry_def not_le split: if_split_asm)
  then have "(b, p) \<in> set (miRate ?mi)" "?mi \<in> set (dcam_modes ! cur_format cam)" "dcam_modes ! cur_format cam \<in> set dcam_modes"
    using dcam_modes_dims r by (auto simp: dcam_mode_info_get_def list_all_length intro: nth_mem dest: sym)
  then have "unat b * unat p = unat (b * p)"
    using dcam_modes_fit by (fastforce simp: list_all_iff)
  then show ?thesis
    using assms False r
    by (auto simp: iso_compute_geometry_def Let_def transmit_ok_def same_regs_def same_context_def not_less split: if_split_asm)
qed

section \<open>Start, stop and refill\<close>

text \<open>The geometry of a running stream and its context, which no operation but a stop changes.\<close>

definition same_stream :: "dcam_camera \<Rightarrow> dcam_camera \<Rightarrow> bool" where
  "same_stream c c' \<longleftrightarrow> iso_running c' = iso_running c \<and> iso_created c' = iso_created c \<and>
     iso_buffer c' = iso_buffer c \<and> iso_oneshot c' = iso_oneshot c \<and> iso_bpp c' = iso_bpp c \<and>
     iso_ppf c' = iso_ppf c \<and> frame_bytes c' = frame_bytes c \<and> ring_frames c' = ring_frames c"

definition queue_in :: "dcam_camera \<Rightarrow> bool" where
  "queue_in cam \<longleftrightarrow> (case iso_buffer cam of None \<Rightarrow> iso_queue cam = [] | Some n \<Rightarrow> list_all (packet_in n) (iso_queue cam))"

definition ring_ok :: "dcam_camera \<Rightarrow> bool" where
  "ring_ok cam \<longleftrightarrow> iso_created cam \<and> transmit_ok cam \<and> ring_frames cam \<noteq> 0 \<and> ring_frames cam \<le> 4 \<and>
     refill_slot cam < ring_frames cam \<and>
     (\<exists>n. iso_buffer cam = Some n \<and> unat (ring_frames cam) * unat (frame_bytes cam) \<le> n) \<and>
     1 \<le> frame_counter cam - frames_transmitted cam \<and> frame_counter cam - frames_transmitted cam \<le> ring_frames cam"

definition stream_ok :: "dcam_camera \<Rightarrow> bool" where
  "stream_ok cam \<longleftrightarrow> queue_in cam \<and> (iso_running cam \<longrightarrow> ring_ok cam \<and> iso_acked_packets cam < iso_ppf cam)"

lemma ring_slot_in:
  assumes "ring_ok cam" and "iso_buffer cam = Some n" and "slot < unat (ring_frames cam)"
  shows "Suc slot * unat (frame_bytes cam) \<le> n"
proof -
  have "Suc slot * unat (frame_bytes cam) \<le> unat (ring_frames cam) * unat (frame_bytes cam)"
    using assms(3) by (intro mult_le_mono1) simp
  then show ?thesis using assms by (auto simp: ring_ok_def)
qed

lemma isoPrefill_in:
  assumes "transmit_ok cam" and "\<forall>slot \<in> set slots. Suc slot * unat (frame_bytes cam) \<le> n"
    and "list_all (packet_in n) (iso_queue cam)"
  shows "\<exists>q. isoPrefill h slots cam = cam\<lparr>iso_queue := q, frame_counter := frame_counter cam + of_nat (length slots)\<rparr> \<and>
    list_all (packet_in n) q"
  using assms
proof (induction h slots cam rule: isoPrefill.induct)
  case (1 h cam)
  then show ?case by (intro exI [of _ "iso_queue cam"]) simp
next
  case (2 h slot slots cam)
  let ?c = "cam\<lparr>frame_counter := frame_counter cam + 1\<rparr>"
  have "transmit_ok ?c" using 2(2) by (simp add: transmit_ok_def)
  then obtain q where q: "iso_queue_frame h slot ?c = ?c\<lparr>iso_queue := q\<rparr>" "list_all (packet_in n) q"
    using iso_queue_frame_in [of ?c slot n h] 2(3,4) by auto
  have "transmit_ok (?c\<lparr>iso_queue := q\<rparr>)" using 2(2) by (simp add: transmit_ok_def)
  with 2(1) [unfolded q(1)] 2(3) q(2)
  obtain q' where "isoPrefill h slots (?c\<lparr>iso_queue := q\<rparr>) =
      ?c\<lparr>iso_queue := q\<rparr>\<lparr>iso_queue := q', frame_counter := frame_counter ?c + of_nat (length slots)\<rparr>"
    "list_all (packet_in n) q'" by auto
  then show ?case by (intro exI [of _ q']) (simp add: q(1) add.assoc)
qed

lemma stop_ok: "stream_ok cam \<Longrightarrow> stream_ok (dcam_iso_stop cam) \<and> same_regs cam (dcam_iso_stop cam)"
  by (simp add: dcam_iso_stop_def stream_ok_def queue_in_def same_regs_def)

lemma setup_ring:
  assumes "iso_setup_ring cam = Some c" and "transmit_ok cam"
  shows "\<exists>n r. iso_buffer cam = Some n \<and> c = cam\<lparr>ring_frames := r\<rparr> \<and> r \<noteq> 0 \<and> r \<le> 4 \<and> unat r * unat (frame_bytes cam) \<le> n"
proof -
  let ?k = "case iso_buffer cam of None \<Rightarrow> 0 | Some n \<Rightarrow> n div unat (frame_bytes cam)"
  have k: "?k \<noteq> 0" "c = cam\<lparr>ring_frames := of_nat (min ?k 4)\<rparr>"
    using assms(1) by (auto simp: iso_setup_ring_def Let_def split: if_split_asm)
  then obtain n where n: "iso_buffer cam = Some n" by (cases "iso_buffer cam") auto
  have u: "unat (of_nat (min ?k 4) :: ULONG) = min ?k 4"
    by (subst unat_of_nat) (rule mod_less, simp)
  have "min ?k 4 * unat (frame_bytes cam) \<le> ?k * unat (frame_bytes cam)" by (rule mult_le_mono1) simp
  also have "\<dots> \<le> n" by (simp add: n)
  finally show ?thesis
    using k n u by (intro exI [of _ n] exI [of _ "of_nat (min ?k 4)"]) (auto simp: word_le_nat_alt unat_eq_zero [symmetric])
qed

text \<open>Before the ring is filled: the context exists, its buffer holds the ring, nothing runs.\<close>

lemma ring_start_ok:
  assumes "transmit_ok c" and "iso_created c" and "\<not> iso_running c" and "iso_buffer c = Some n"
    and "list_all (packet_in n) (iso_queue c)" and "ring_frames c \<noteq> 0" "ring_frames c \<le> 4"
    and "unat (ring_frames c) * unat (frame_bytes c) \<le> n"
    and "prefill = (if iso_oneshot c then 1 else ring_frames c)"
    and "c5 = isoPrefill h [0..<unat prefill] (c\<lparr>frame_counter := 0, frames_transmitted := 0, iso_acked_packets := 0\<rparr>)"
    and "c6 = c5\<lparr>refill_slot := prefill mod ring_frames c5\<rparr>"
  shows "stream_ok (c6\<lparr>iso_running := b\<rparr>) \<and> same_regs c c6 \<and> \<not> iso_running c6"
proof -
  let ?c = "c\<lparr>frame_counter := 0, frames_transmitted := 0, iso_acked_packets := 0\<rparr>"
  have one: "1 \<le> ring_frames c"
    using assms(6) by (simp add: word_le_nat_alt) (metis One_nat_def Suc_leI gr0I unat_eq_zero)
  then have pre: "1 \<le> prefill" "prefill \<le> ring_frames c" using assms(9) by auto
  have "Suc slot * unat (frame_bytes c) \<le> n" if "slot < unat prefill" for slot
  proof -
    have "Suc slot \<le> unat (ring_frames c)" using that pre(2) by (simp add: word_le_nat_alt)
    then have "Suc slot * unat (frame_bytes c) \<le> unat (ring_frames c) * unat (frame_bytes c)" by (rule mult_le_mono1)
    with assms(8) show ?thesis by simp
  qed
  then obtain q where q: "c5 = ?c\<lparr>iso_queue := q, frame_counter := prefill\<rparr>" "list_all (packet_in n) q"
    using isoPrefill_in [of ?c "[0..<unat prefill]" n h] assms(1,5,10) by (auto simp: transmit_ok_def)
  have "prefill mod ring_frames c < ring_frames c"
    using assms(6) by (simp add: word_mod_less_divisor word_less_nat_alt unat_mod unat_gt_0)
  moreover have "0 < iso_ppf c" using assms(1) by (simp add: transmit_ok_def word_neq_0_conv)
  ultimately show ?thesis
    using assms(1,2,3,4,6,7,8,11) q pre
    by (simp add: stream_ok_def queue_in_def ring_ok_def transmit_ok_def same_regs_def)
qed

lemma start_ok:
  assumes "stream_ok cam"
  shows "stream_ok (dcam_iso_start h cam) \<and> same_regs cam (dcam_iso_start h cam)"
proof (cases "iso_running cam \<or> iso_compute_geometry cam = None")
  case True
  with assms show ?thesis by (auto simp: dcam_iso_start_def same_regs_def)
next
  case False
  then obtain c1 where c1: "iso_compute_geometry cam = Some c1" and idle: "\<not> iso_running cam" by auto
  note g = geometry_some [OF c1]
  show ?thesis
  proof (cases "\<not> iso_created c1 \<and> \<not> (hostOpen h \<and> hostCreate h)")
    case True
    with assms idle g show ?thesis
      by (simp add: dcam_iso_start_def c1 stream_ok_def same_context_def queue_in_def split: option.splits)
  next
    case False
    define c2 where "c2 = c1\<lparr>iso_created := True, iso_queue := (if iso_created c1 then iso_queue c1 else [])\<rparr>"
    have unf: "dcam_iso_start h cam =
      (case iso_map_buffer_once h c2 of None \<Rightarrow> c2
       | Some c3 \<Rightarrow> (case iso_setup_ring c3 of None \<Rightarrow> c3
         | Some c4 \<Rightarrow>
             let prefill = (if iso_oneshot c4 then 1 else ring_frames c4);
                 c5 = isoPrefill h [0..<unat prefill]
                        (c4\<lparr>frame_counter := 0, frames_transmitted := 0, iso_acked_packets := 0\<rparr>);
                 c6 = c5\<lparr>refill_slot := prefill mod ring_frames c5\<rparr>
             in if hostStart h then c6\<lparr>iso_running := True\<rparr> else c6))"
      using idle by (simp only: dcam_iso_start_def c1 option.case if_not_P [OF False] c2_def [symmetric] Let_def if_False)
    have c2: "iso_created c2" "\<not> iso_running c2" "transmit_ok c2" "same_regs cam c2" "queue_in c2"
      using g idle assms by (auto simp: c2_def same_context_def transmit_ok_def same_regs_def queue_in_def stream_ok_def
        split: option.splits)
    show ?thesis
    proof (cases "iso_map_buffer_once h c2")
      case None
      with c2 show ?thesis by (simp add: unf stream_ok_def)
    next
      case (Some c3)
      then have c3: "iso_created c3" "\<not> iso_running c3" "transmit_ok c3" "same_regs cam c3" "queue_in c3"
        using c2 by (auto simp: iso_map_buffer_once_def transmit_ok_def same_regs_def queue_in_def split: if_split_asm)
      show ?thesis
      proof (cases "iso_setup_ring c3")
        case None
        with Some c3 show ?thesis by (simp add: unf stream_ok_def)
      next
        case (Some c4)
        then obtain n r where r: "iso_buffer c3 = Some n" "c4 = c3\<lparr>ring_frames := r\<rparr>" "r \<noteq> 0" "r \<le> 4"
          "unat r * unat (frame_bytes c3) \<le> n"
          using setup_ring c3(3) by blast
        define pre where "pre = (if iso_oneshot c4 then 1 else ring_frames c4)"
        define c5 where "c5 = isoPrefill h [0..<unat pre] (c4\<lparr>frame_counter := 0, frames_transmitted := 0, iso_acked_packets := 0\<rparr>)"
        define c6 where "c6 = c5\<lparr>refill_slot := pre mod ring_frames c5\<rparr>"
        have ok: "stream_ok (c6\<lparr>iso_running := b\<rparr>) \<and> same_regs c4 c6 \<and> \<not> iso_running c6" for b
          by (rule ring_start_ok [OF _ _ _ _ _ _ _ _ pre_def c5_def c6_def, of n])
            (use r c3 in \<open>simp_all add: transmit_ok_def queue_in_def\<close>)
        then have "c6 = c6\<lparr>iso_running := False\<rparr>" by simp
        then have "stream_ok c6" using ok by metis
        moreover have "dcam_iso_start h cam = (if hostStart h then c6\<lparr>iso_running := True\<rparr> else c6)"
          using \<open>iso_map_buffer_once h c2 = Some c3\<close> Some by (simp add: unf Let_def pre_def c5_def c6_def)
        ultimately show ?thesis
          using ok [of True] c3(4) r(2) by (simp add: same_regs_def)
      qed
    qed
  qed
qed

section \<open>The refill loop\<close>

text \<open>One round: the acknowledged packets and the counters; the rest of the stream is as it was.\<close>

lemma consume_same:
  "same_regs c (dcam_trigger_consume c) \<and> same_stream c (dcam_trigger_consume c) \<and>
   iso_queue (dcam_trigger_consume c) = iso_queue c \<and> frame_counter (dcam_trigger_consume c) = frame_counter c \<and>
   frames_transmitted (dcam_trigger_consume c) = frames_transmitted c \<and>
   refill_slot (dcam_trigger_consume c) = refill_slot c"
  by (simp add: dcam_trigger_consume_def same_regs_def same_stream_def)

definition afterFrame :: "dcam_camera \<Rightarrow> dcam_camera" where
  "afterFrame cam =
     (let c1 = cam\<lparr>iso_acked_packets := iso_acked_packets cam - iso_ppf cam, frames_transmitted := frames_transmitted cam + 1\<rparr>
      in if i2c_regs c1 ! CAMREG_TRIGGER_MODE = CAMREG_TRIGGER_EXTERNAL then dcam_trigger_consume c1 else c1)"

lemma afterFrame_same:
  "same_regs c (afterFrame c)" "same_stream c (afterFrame c)" "iso_queue (afterFrame c) = iso_queue c"
  "frame_counter (afterFrame c) = frame_counter c" "frames_transmitted (afterFrame c) = frames_transmitted c + 1"
  "refill_slot (afterFrame c) = refill_slot c" "iso_acked_packets (afterFrame c) = iso_acked_packets c - iso_ppf c"
  using consume_same [of "c\<lparr>iso_acked_packets := iso_acked_packets c - iso_ppf c, frames_transmitted := frames_transmitted c + 1\<rparr>"]
  by (simp_all add: afterFrame_def Let_def same_regs_def same_stream_def consume_keeps)

definition refillFrame :: "fw_host \<Rightarrow> dcam_camera \<Rightarrow> dcam_camera" where
  "refillFrame h c2 = (iso_queue_frame h (unat (refill_slot c2)) (c2\<lparr>frame_counter := frame_counter c2 + 1\<rparr>))
     \<lparr>refill_slot := (refill_slot c2 + 1) mod ring_frames c2\<rparr>"

lemma isoRefill_step:
  "isoRefill h cam =
     (if iso_ppf cam = 0 \<or> iso_acked_packets cam < iso_ppf cam then cam
      else if iso_oneshot (afterFrame cam) then dcam_iso_stop (afterFrame cam)
      else isoRefill h (refillFrame h (afterFrame cam)))"
  by (subst isoRefill.simps) (simp add: afterFrame_def refillFrame_def Let_def)

lemma ring_ok_same:
  "ring_ok c \<Longrightarrow> same_stream c c' \<Longrightarrow> refill_slot c' < ring_frames c \<Longrightarrow>
   frame_counter c' - frames_transmitted c' = frame_counter c - frames_transmitted c \<Longrightarrow> ring_ok c'"
  by (simp add: ring_ok_def same_stream_def transmit_ok_def)

text \<open>After a round in continuous mode one more frame is queued, in the slot that was due.\<close>

lemma refill_round:
  assumes "ring_ok cam" and "queue_in cam" and "c' = refillFrame h (afterFrame cam)"
  shows "ring_ok c' \<and> queue_in c' \<and> same_regs cam c' \<and> same_stream cam c' \<and>
    iso_acked_packets c' = iso_acked_packets cam - iso_ppf cam \<and>
    frames_transmitted c' = frames_transmitted cam + 1 \<and> frame_counter c' = frame_counter cam + 1 \<and>
    refill_slot c' = (refill_slot cam + 1) mod ring_frames cam"
proof -
  define c2 where "c2 = (afterFrame cam)\<lparr>frame_counter := frame_counter cam + 1\<rparr>"
  obtain n where n: "iso_buffer cam = Some n" using assms(1) by (auto simp: ring_ok_def)
  have c2: "same_regs cam c2" "same_stream cam c2" "iso_queue c2 = iso_queue cam" "refill_slot c2 = refill_slot cam"
    "frames_transmitted c2 = frames_transmitted cam + 1" "frame_counter c2 = frame_counter cam + 1"
    "iso_acked_packets c2 = iso_acked_packets cam - iso_ppf cam"
    using afterFrame_same [of cam] by (simp_all add: c2_def same_regs_def same_stream_def)
  have slot: "Suc (unat (refill_slot cam)) * unat (frame_bytes c2) \<le> n"
    using ring_slot_in [OF assms(1) n, of "unat (refill_slot cam)"] assms(1) c2(2)
    by (simp add: ring_ok_def word_less_nat_alt same_stream_def)
  have "transmit_ok c2" using assms(1) c2(2) by (simp add: ring_ok_def transmit_ok_def same_stream_def)
  then obtain q where q: "iso_queue_frame h (unat (refill_slot cam)) c2 = c2\<lparr>iso_queue := q\<rparr>" "list_all (packet_in n) q"
    using iso_queue_frame_in [OF _ slot] assms(2) n c2(3) by (auto simp: queue_in_def)
  have c': "c' = c2\<lparr>iso_queue := q, refill_slot := (refill_slot cam + 1) mod ring_frames cam\<rparr>"
    using q(1) c2(2,4) afterFrame_same [of cam]
    by (simp add: assms(3) refillFrame_def c2_def same_stream_def)
  have "(refill_slot cam + 1) mod ring_frames cam < ring_frames cam"
    using assms(1) by (simp add: ring_ok_def word_less_nat_alt unat_mod unat_gt_0)
  then have "ring_ok c'"
    using assms(1) c2 by (intro ring_ok_same [OF assms(1)]) (simp_all add: c' same_stream_def)
  then show ?thesis
    using c2 q(2) n by (simp add: c' same_regs_def same_stream_def queue_in_def)
qed

text \<open>In continuous mode the loop runs once per whole frame acknowledged.\<close>

lemma isoRefill_runs:
  assumes "ring_ok cam" and "queue_in cam" and "\<not> iso_oneshot cam"
  shows "let k = unat (iso_acked_packets cam) div unat (iso_ppf cam); c' = isoRefill h cam in
    ring_ok c' \<and> queue_in c' \<and> same_regs cam c' \<and> same_stream cam c' \<and>
    unat (iso_acked_packets c') = unat (iso_acked_packets cam) mod unat (iso_ppf cam) \<and>
    frames_transmitted c' = frames_transmitted cam + of_nat k \<and> frame_counter c' = frame_counter cam + of_nat k \<and>
    unat (refill_slot c') = (unat (refill_slot cam) + k) mod unat (ring_frames cam)"
  using assms
proof (induction "unat (iso_acked_packets cam)" arbitrary: cam rule: less_induct)
  case less
  let ?a = "iso_acked_packets cam" and ?p = "iso_ppf cam" and ?r = "ring_frames cam"
  have p: "?p \<noteq> 0" "unat ?p \<noteq> 0" and slot: "unat (refill_slot cam) < unat ?r" and r4: "unat ?r \<le> 4"
    using less(2) by (auto simp: ring_ok_def transmit_ok_def unat_eq_zero word_less_nat_alt word_le_nat_alt)
  show ?case
  proof (cases "?a < ?p")
    case True
    then have "isoRefill h cam = cam" by (subst isoRefill_step) simp
    moreover have "unat ?a < unat ?p" using True by (simp add: word_less_nat_alt)
    ultimately show ?thesis
      using less(2,3) slot by (simp add: Let_def same_regs_def same_stream_def)
  next
    case False
    define c where "c = refillFrame h (afterFrame cam)"
    note round = refill_round [OF less(2,3) c_def]
    have one: "\<not> iso_oneshot (afterFrame cam)" "\<not> iso_oneshot c"
      using less(4) afterFrame_same [of cam] round by (simp_all add: same_stream_def)
    have run: "isoRefill h cam = isoRefill h c"
      using False p one by (subst isoRefill_step) (simp add: c_def)
    have ua: "unat (iso_acked_packets c) = unat ?a - unat ?p" and ge: "unat ?p \<le> unat ?a"
      using round False by (simp_all add: unat_sub not_less word_le_nat_alt)
    then have "unat (iso_acked_packets c) < unat ?a" using p by simp
    note IH = less(1) [OF this _ _ one(2)]
    have same: "iso_ppf c = ?p" "ring_frames c = ?r" using round by (simp_all add: same_stream_def)
    have k: "unat ?a div unat ?p = Suc ((unat ?a - unat ?p) div unat ?p)"
      and m: "unat ?a mod unat ?p = (unat ?a - unat ?p) mod unat ?p"
      using ge p by (simp_all add: le_div_geq le_mod_geq)
    have "unat (refill_slot cam + 1) = unat (refill_slot cam) + 1"
      using slot r4 by (simp add: unat_word_ariths)
    then have s: "unat (refill_slot c) = (unat (refill_slot cam) + 1) mod unat ?r"
      using round by (simp add: unat_mod)
    then have "(unat (refill_slot c) + j) mod unat ?r = (unat (refill_slot cam) + Suc j) mod unat ?r" for j
      by (simp add: mod_add_left_eq)
    then show ?thesis
      using IH round unfolding run Let_def same k m ua
      by (auto simp: same_regs_def same_stream_def)
  qed
qed

text \<open>One shot: the first whole frame ends the stream.\<close>

lemma isoRefill_oneshot:
  assumes "ring_ok cam" and "queue_in cam" and "iso_oneshot cam"
  shows "isoRefill h cam = (if iso_acked_packets cam < iso_ppf cam then cam else dcam_iso_stop (afterFrame cam))"
  using assms afterFrame_same [of cam]
  by (subst isoRefill_step) (simp add: ring_ok_def transmit_ok_def same_stream_def)

lemma stop_idle: "iso_created cam \<Longrightarrow> stream_ok (dcam_iso_stop cam) \<and> same_regs cam (dcam_iso_stop cam)"
  by (simp add: dcam_iso_stop_def stream_ok_def queue_in_def same_regs_def)


definition creditPackets :: "dcam_camera \<Rightarrow> ULONG \<Rightarrow> dcam_camera" where
  "creditPackets cam n = cam\<lparr>iso_acked_packets := iso_acked_packets cam +
     (if n > ring_frames cam * iso_ppf cam then ring_frames cam * iso_ppf cam else n)\<rparr>"

lemma interrupt_refill:
  "stream_ok cam \<Longrightarrow> iso_running cam \<Longrightarrow> dcam_on_iso_interrupt h n cam = isoRefill h (creditPackets cam n)"
  by (simp add: dcam_on_iso_interrupt_def creditPackets_def Let_def stream_ok_def ring_ok_def transmit_ok_def)

lemma credit_ok:
  assumes "stream_ok cam" and "iso_running cam"
  shows "ring_ok (creditPackets cam n) \<and> queue_in (creditPackets cam n) \<and> same_regs cam (creditPackets cam n) \<and>
    same_stream cam (creditPackets cam n)"
  using assms by (simp add: creditPackets_def stream_ok_def ring_ok_def queue_in_def transmit_ok_def same_regs_def
      same_stream_def split del: if_split split: option.splits)

lemma interrupt_ok:
  assumes "stream_ok cam"
  shows "stream_ok (dcam_on_iso_interrupt h n cam) \<and> same_regs cam (dcam_on_iso_interrupt h n cam)"
proof (cases "iso_running cam")
  case False
  then show ?thesis using assms by (simp add: dcam_on_iso_interrupt_def same_regs_def)
next
  case True
  note c = credit_ok [OF assms True, of n]
  show ?thesis
  proof (cases "iso_oneshot cam")
    case one: True
    then have "iso_oneshot (creditPackets cam n)" by (simp add: creditPackets_def)
    note run = isoRefill_oneshot [OF _ _ this]
    have "iso_created (afterFrame (creditPackets cam n))"
      using c afterFrame_same [of "creditPackets cam n"] by (simp add: ring_ok_def same_stream_def)
    then show ?thesis
      using c run stop_idle [of "afterFrame (creditPackets cam n)"] afterFrame_same [of "creditPackets cam n"]
      by (auto simp: interrupt_refill [OF assms True] stream_ok_def same_regs_def)
  next
    case False
    then have "\<not> iso_oneshot (creditPackets cam n)" by (simp add: creditPackets_def)
    note run = isoRefill_runs [OF _ _ this, of h]
    have "unat (iso_acked_packets (creditPackets cam n)) mod unat (iso_ppf (creditPackets cam n)) < unat (iso_ppf (creditPackets cam n))"
      using c by (simp add: ring_ok_def transmit_ok_def unat_gt_0)
    then show ?thesis
      using c run by (simp add: interrupt_refill [OF assms True] Let_def stream_ok_def same_regs_def same_stream_def word_less_nat_alt)
  qed
qed

section \<open>Runs of the camera\<close>

text \<open>Everything that changes the camera: the transactions that write, its interrupts and its trigger input.\<close>

datatype cam_event =
    RegisterWrite ULONG ULONG
  | MailboxWrite "byte list"
  | IsoInterrupt ULONG
  | IsoError
  | TriggerPulse
  | ForceStream ULONG

fun camera_step :: "fw_host \<Rightarrow> cam_event \<Rightarrow> dcam_camera \<Rightarrow> dcam_camera" where
  "camera_step h (RegisterWrite off v) cam = snd (dcam_on_register_write h off v cam)"
| "camera_step h (MailboxWrite bs) cam = dcam_on_mailbox_write bs cam"
| "camera_step h (IsoInterrupt n) cam = dcam_on_iso_interrupt h n cam"
| "camera_step h IsoError cam = dcam_on_iso_error cam"
| "camera_step h TriggerPulse cam = trigger_thread cam"
| "camera_step h (ForceStream bpp) cam = dcam_force_stream h bpp cam"

inductive camera_run :: "dcam_camera \<Rightarrow> dcam_camera \<Rightarrow> bool" for c0 where
  run_start: "camera_run c0 c0"
| run_step: "camera_run c0 cam \<Longrightarrow> camera_run c0 (camera_step h e cam)"

definition regs_ok :: "dcam_camera \<Rightarrow> bool" where
  "regs_ok cam \<longleftrightarrow> length (f7 cam) = DCAM_NUM_F7_MODES \<and> list_all live_ok (f7 cam) \<and>
     1 \<le> num_f7_modes cam \<and> num_f7_modes cam \<le> DCAM_NUM_F7_MODES \<and>
     cur_format cam < 8 \<and> cur_mode cam < 8 \<and> cur_rate cam < 8 \<and>
     length (feat_value cam) = DCAM_NUM_FEATURES \<and> (\<forall>i < DCAM_NUM_FEATURES. feature_ok (feat_present cam) (feat_value cam) i) \<and>
     length (i2c_regs cam) = CAMREG_COUNT \<and> i2c_regs cam ! CAMREG_STATUS = 0 \<and> length (mailbox_cmd cam) \<le> 512"

lemma regs_ok_same: "regs_ok c \<Longrightarrow> same_regs c c' \<Longrightarrow> regs_ok c'"
  by (simp add: regs_ok_def same_regs_def)

lemma select_below: "unat (drop_bit 29 (v :: ULONG)) < 8"
proof -
  have "unat v < 4294967296" using unsigned_less [of v, where ?'a = nat] by simp
  then show ?thesis by (simp add: drop_bit_eq_div unat_div)
qed

lemma reset_f7: "length dcam_f7_reset = 4 \<and> list_all live_ok dcam_f7_reset"
  by (simp add: dcam_f7_reset_def dcam_f7_modes_def live_ok_resize)

text \<open>The stream's fields alone decide \<open>stream_ok\<close>.\<close>

lemma stream_ok_fields:
  "stream_ok cam \<Longrightarrow> same_stream cam c' \<Longrightarrow> iso_queue c' = iso_queue cam \<Longrightarrow> refill_slot c' = refill_slot cam \<Longrightarrow>
   iso_acked_packets c' = iso_acked_packets cam \<Longrightarrow> frame_counter c' = frame_counter cam \<Longrightarrow>
   frames_transmitted c' = frames_transmitted cam \<Longrightarrow> stream_ok c'"
  by (simp add: stream_ok_def same_stream_def queue_in_def ring_ok_def transmit_ok_def split: option.splits)

lemma created_ok: "stream_ok (dcam_create base tag sy std modes features) \<and> regs_ok (dcam_create base tag sy std modes features)"
proof -
  have "feature_ok present (map (\<lambda>i. if featPresent present i then dcam_feature_default_word i else 0) [0..<DCAM_NUM_FEATURES]) i"
    if "i < DCAM_NUM_FEATURES" for present i
    using that default_in_range [OF that] by (simp add: feature_ok_def)
  then show ?thesis
    using reset_f7
    by (simp add: dcam_create_def Let_def dcam_i2c_reset_def dcam_reset_video_state_def stream_ok_def queue_in_def regs_ok_def)
qed

lemma oneshot_ok: "stream_ok (cam\<lparr>iso_oneshot := b\<rparr>) = stream_ok cam" "regs_ok (cam\<lparr>iso_oneshot := b\<rparr>) = regs_ok cam"
  by (simp_all add: stream_ok_def queue_in_def ring_ok_def transmit_ok_def regs_ok_def split: option.splits)

definition camera_ok :: "dcam_camera \<Rightarrow> bool" where
  "camera_ok cam \<longleftrightarrow> regs_ok cam \<and> stream_ok cam"

lemma camera_ok_start: "camera_ok cam \<Longrightarrow> camera_ok (dcam_iso_start h (cam\<lparr>iso_oneshot := b\<rparr>))"
  using start_ok [of "cam\<lparr>iso_oneshot := b\<rparr>" h] regs_ok_same [of "cam\<lparr>iso_oneshot := b\<rparr>"]
  by (simp add: camera_ok_def oneshot_ok)

lemma camera_ok_stop: "camera_ok cam \<Longrightarrow> camera_ok (dcam_iso_stop cam)"
  using stop_ok by (auto simp: camera_ok_def intro: regs_ok_same)

lemma camera_ok_regs:
  assumes "camera_ok cam" and "regs_ok c'" and "same_stream cam c'" and "iso_queue c' = iso_queue cam"
    and "refill_slot c' = refill_slot cam" and "iso_acked_packets c' = iso_acked_packets cam"
    and "frame_counter c' = frame_counter cam" and "frames_transmitted c' = frames_transmitted cam"
  shows "camera_ok c'"
  using assms stream_ok_fields [of cam c'] by (simp add: camera_ok_def)

lemma camera_ok_f7:
  assumes "camera_ok cam" and "list_all live_ok ls" and "length ls = length (f7 cam)"
  shows "camera_ok (cam\<lparr>f7 := ls\<rparr>)"
  by (rule camera_ok_regs [OF assms(1)]) (use assms in \<open>simp_all add: camera_ok_def regs_ok_def same_stream_def\<close>)

lemma camera_ok_select:
  assumes "camera_ok cam"
  shows "camera_ok (cam\<lparr>cur_format := unat (drop_bit 29 (v :: ULONG))\<rparr>)" "camera_ok (cam\<lparr>cur_mode := unat (drop_bit 29 v)\<rparr>)"
    "camera_ok (cam\<lparr>cur_rate := unat (drop_bit 29 v)\<rparr>)"
  by (rule camera_ok_regs [OF assms]; use assms select_below [of v] in \<open>simp add: camera_ok_def regs_ok_def same_stream_def\<close>)+

lemma camera_ok_reset: "camera_ok cam \<Longrightarrow> camera_ok (dcam_reset_video_state cam)"
  by (rule camera_ok_regs [of cam]) (use reset_f7 in \<open>simp_all add: camera_ok_def regs_ok_def same_stream_def dcam_reset_video_state_def\<close>)

lemma camera_ok_channel: "camera_ok cam \<Longrightarrow> camera_ok (writeChannel v cam)"
  by (rule camera_ok_regs [of cam]) (simp_all add: camera_ok_def regs_ok_def same_stream_def writeChannel_def Let_def)

lemma camera_ok_feature:
  assumes "camera_ok cam"
  shows "camera_ok (snd (writeFeature off v cam))"
proof (cases "dcam_feature_by_value off")
  case None
  then show ?thesis using assms by (simp add: writeFeature_def)
next
  case (Some i)
  note i = find_value_index [OF Some]
  show ?thesis
  proof (cases "featPresent (feat_present cam) i")
    case False
    then show ?thesis using assms Some by (simp add: writeFeature_def)
  next
    case True
    let ?vs = "(feat_value cam)[i := dcam_feature_clamp_word i v]"
    have "feature_ok (feat_present cam) ?vs j" if "j < DCAM_NUM_FEATURES" for j
      using that assms i True clamp_in_range [OF i, of v]
      by (cases "j = i") (auto simp: camera_ok_def regs_ok_def feature_ok_def)
    then have "regs_ok (cam\<lparr>feat_value := ?vs\<rparr>)"
      using assms by (simp add: camera_ok_def regs_ok_def)
    then have "camera_ok (cam\<lparr>feat_value := ?vs\<rparr>)"
      by (rule camera_ok_regs [OF assms]) (simp_all add: same_stream_def)
    then show ?thesis using Some True by (simp add: writeFeature_def)
  qed
qed

lemma camera_ok_i2c: "camera_ok cam \<Longrightarrow> camera_ok (dcam_i2c_write_reg reg v cam)"
  by (rule camera_ok_regs [of cam])
    (auto simp: camera_ok_def regs_ok_def same_stream_def dcam_i2c_write_reg_def dcam_trigger_disarm_def Let_def)

lemma swap_length: "length (dcam_swap_dwords bs) = length bs"
  by (induction bs rule: dcam_swap_dwords.induct) simp_all

lemma camera_ok_mailbox:
  assumes "camera_ok cam"
  shows "camera_ok (dcam_on_mailbox_write bs cam)"
proof -
  let ?c = "cam\<lparr>mailbox_cmd := dcam_swap_dwords (take 512 bs)\<rparr>"
  have "camera_ok ?c"
    by (rule camera_ok_regs [OF assms]) (use assms in \<open>simp_all add: camera_ok_def regs_ok_def same_stream_def swap_length\<close>)
  then show ?thesis by (simp add: dcam_on_mailbox_write_def Let_def camera_ok_i2c)
qed

lemma camera_ok_register_write: "camera_ok cam \<Longrightarrow> camera_ok (snd (dcam_on_register_write h off v cam))"
  using camera_ok_f7 [of cam] csr_write_ok [of "f7 cam"]
  by (simp add: dcam_on_register_write_def Let_def camera_ok_reset camera_ok_select camera_ok_channel camera_ok_start
      camera_ok_stop camera_ok_feature camera_ok_def [of cam] regs_ok_def [of cam] split_beta)

lemma camera_ok_interrupt: "camera_ok cam \<Longrightarrow> camera_ok (dcam_on_iso_interrupt h n cam)"
  using interrupt_ok [of cam h n] by (auto simp: camera_ok_def intro: regs_ok_same)

lemma camera_ok_trigger: "camera_ok cam \<Longrightarrow> camera_ok (trigger_thread cam)"
  by (rule camera_ok_regs [of cam]) (simp_all add: camera_ok_def regs_ok_def same_stream_def trigger_thread_def)

lemma camera_ok_step:
  assumes "camera_ok cam"
  shows "camera_ok (camera_step h e cam)"
proof (cases e)
  case (ForceStream bpp)
  let ?c = "cam\<lparr>cur_format := 7, cur_mode := 0\<rparr>"
  have c: "camera_ok ?c"
    by (rule camera_ok_regs [OF assms]) (use assms in \<open>simp_all add: camera_ok_def regs_ok_def same_stream_def\<close>)
  then have f: "list_all live_ok (f7 ?c)" by (simp add: camera_ok_def regs_ok_def)
  have "camera_ok (?c\<lparr>f7 := snd (dcam_f7_csr_write 0 0x44 (push_bit 16 bpp) (f7 cam))\<rparr>)"
    using camera_ok_f7 [OF c] csr_write_ok [OF f] by simp
  then have "camera_ok (dcam_iso_start h (?c\<lparr>f7 := snd (dcam_f7_csr_write 0 0x44 (push_bit 16 bpp) (f7 cam)), iso_oneshot := False\<rparr>))"
    "camera_ok (dcam_iso_start h (?c\<lparr>f7 := f7 cam, iso_oneshot := False\<rparr>))"
    using camera_ok_start [of _ h False] camera_ok_f7 [OF c f] by (fastforce, simp)
  with ForceStream c show ?thesis by (simp add: dcam_force_stream_def Let_def split_beta)
qed (simp_all add: assms camera_ok_register_write camera_ok_mailbox dcam_on_iso_error_def camera_ok_stop camera_ok_interrupt
    camera_ok_trigger)

lemma run_ok: "camera_run c0 cam \<Longrightarrow> camera_ok c0 \<Longrightarrow> camera_ok cam"
  by (induction rule: camera_run.induct) (simp_all add: camera_ok_step)

section \<open>Claims\<close>

text \<open>
  C15: the emulated camera survives its host. After any sequence of register and mailbox writes, completion
  interrupts, context errors and trigger pulses, with any answers of the kernel, every Format 7 mode has a packet size legal for its
  geometry, every feature holds a value of its range (or nothing when disabled), and the stream is sound: each
  packet handed to the transmit context lies inside the mapped buffer, and while streaming the ring fits that buffer, fewer than a
  frame's packets are unaccounted for, and between one frame and a ring of frames are rendered ahead.
\<close>

theorem camera_stays_ok:
  assumes "camera_run (dcam_create base tag sy std modes features) cam"
  shows "camera_ok cam"
  using run_ok [OF assms] created_ok by (simp add: camera_ok_def)

text \<open>A camera told to stream right after power-up: 640x480 MONO8 at 30 frames per second.\<close>

definition lab_host :: fw_host where
  "lab_host = \<lparr>hostOpen = True, hostCreate = True, hostMap = (\<lambda>n. if n > 6291456 then NoMemory else Mapped),
     hostQueue = (\<lambda>q n. Some (min n 100)), hostStart = True\<rparr>"

definition lab_camera :: dcam_camera where
  "lab_camera = dcam_create 0xFFFFF0010000 1 False True 4 (Some ''gamma,exposure'')"

definition lab_stream :: dcam_camera where
  "lab_stream = camera_step lab_host (RegisterWrite 0x614 0x80000000) lab_camera"

lemma lab_run: "camera_run (dcam_create 0xFFFFF0010000 1 False True 4 (Some ''gamma,exposure'')) lab_stream"
  unfolding lab_stream_def lab_camera_def by (rule run_step) (rule run_start)

lemma lab_start:
  "\<exists>q. dcam_iso_start lab_host (lab_camera\<lparr>iso_oneshot := b\<rparr>) =
     lab_camera\<lparr>iso_oneshot := b, iso_bpp := 1280, iso_ppf := 240, frame_bytes := 307200, pixfmt := PIX_MONO8,
       img_width := 640, img_height := 480, iso_created := True, iso_queue := q, iso_buffer := Some 6291456, ring_frames := 4,
       frame_counter := (if b then 1 else 4), frames_transmitted := 0, iso_acked_packets := 0,
       refill_slot := (if b then 1 else 0), iso_running := True\<rparr>"
proof -
  let ?c = "lab_camera\<lparr>iso_oneshot := b, iso_bpp := 1280, iso_ppf := 240, frame_bytes := 307200, pixfmt := PIX_MONO8,
    img_width := 640, img_height := 480, iso_created := True, iso_queue := [], iso_buffer := Some 6291456, ring_frames := 4,
    frame_counter := 0, frames_transmitted := 0, iso_acked_packets := 0\<rparr>"
  let ?slots = "[0..<unat (if b then 1 else 4 :: ULONG)]"
  have new: "cur_format lab_camera = 0" "cur_mode lab_camera = 5" "cur_rate lab_camera = 4" "\<not> iso_running lab_camera"
    "\<not> iso_created lab_camera" "iso_buffer lab_camera = None"
    by (simp_all add: lab_camera_def dcam_create_def Let_def dcam_i2c_reset_def dcam_reset_video_state_def)
  have mode: "dcam_mode_info_get 0 5 = modeInfo PIX_MONO8 640 480 [(0, 0), (160, 1920), (320, 960), (640, 480), (1280, 240), (2560, 120)]"
    by (simp add: dcam_mode_info_get_def dcam_modes_def)
  have "\<exists>q. isoPrefill lab_host ?slots ?c = ?c\<lparr>iso_queue := q, frame_counter := frame_counter ?c + of_nat (length ?slots)\<rparr> \<and>
      list_all (packet_in 6291456) q"
    by (rule isoPrefill_in) (auto simp: transmit_ok_def split: if_splits)
  then obtain q where q: "isoPrefill lab_host ?slots ?c = ?c\<lparr>iso_queue := q, frame_counter := frame_counter ?c + of_nat (length ?slots)\<rparr>"
    by blast
  have run: "dcam_iso_start lab_host (lab_camera\<lparr>iso_oneshot := b\<rparr>) = (isoPrefill lab_host ?slots ?c)\<lparr>refill_slot :=
      (if b then 1 else 4) mod ring_frames (isoPrefill lab_host ?slots ?c), iso_running := True\<rparr>"
    by (simp add: dcam_iso_start_def iso_compute_geometry_def new mode modeInfo_def
        lab_host_def iso_map_buffer_once_def isoMapSizes_def iso_setup_ring_def Let_def)
  show ?thesis unfolding run q by (intro exI [of _ q]) simp
qed


text \<open>
  A one-shot prefills one slot. When ISO_EN is written while the shot is still on the wire, the handler only clears the
  one-shot flag and the start returns early, so the continuous stream that follows is fed with one frame of
  look-ahead, not with the ring the refill loop is meant to keep queued.
\<close>

theorem one_shot_lookahead:
  "let c = fold (camera_step lab_host) [RegisterWrite 0x61C 0x80000000, RegisterWrite 0x614 0x80000000] lab_camera in
   iso_running c \<and> \<not> iso_oneshot c \<and> ring_frames c = 4 \<and> frame_counter c - frames_transmitted c = 1"
proof -
  have "dcam_iso_stop lab_camera = lab_camera"
    by (simp add: dcam_iso_stop_def lab_camera_def dcam_create_def Let_def dcam_i2c_reset_def dcam_reset_video_state_def)
  then show ?thesis
    using lab_start [of True] by (auto simp: dcam_on_register_write_def dcam_iso_start_def [of _ "_\<lparr>iso_oneshot := False\<rparr>"] Let_def)
qed

theorem camera_stays_ok_witness: "camera_ok lab_stream"
  by (rule camera_stays_ok [OF lab_run])



text \<open>
  C40: chunking does not show on the wire. Provided the kernel takes something of every submission, queueing a frame
  hands the context exactly the packets of one pass over the frame, however the submissions are cut: consecutive slices of
  bytes-per-packet bytes from the start of the slot, each once and in order, the start-of-frame mark on the first one (or on all, as
  configured), an interrupt on every 512th and on the last.
\<close>

theorem frame_on_the_wire:
  assumes "hostTakes h"
  shows "iso_queue (iso_queue_frame h slot cam) = iso_queue cam @
    map (\<lambda>pkt. (iso_bpp cam OR push_bit 18 (iso_tag cam) OR (if iso_sy_all cam \<or> pkt = 0 then 0x100000 else 0) OR
                 (if Suc pkt = unat (iso_ppf cam) \<or> 512 dvd Suc pkt then 0x10000 else 0),
               slot * unat (frame_bytes cam) + pkt * unat (iso_bpp cam))) [0..<unat (iso_ppf cam)]"
proof -
  obtain k where "k = unat (iso_ppf cam)"
    "iso_queue_frame h slot cam = cam\<lparr>iso_queue := iso_queue cam @ map (framePacket cam slot) [0..<k]\<rparr>"
    using iso_submit_prefix [of 0 cam 0 h slot] assms by (auto simp: iso_queue_frame_def)
  moreover have "pkt = unat (iso_ppf cam) - 1 \<longleftrightarrow> Suc pkt = unat (iso_ppf cam)" if "pkt < unat (iso_ppf cam)" for pkt
    using that by auto
  ultimately show ?thesis
    by (auto simp: framePacket_def iso_control_def Let_def dvd_eq_mod_eq_0 or.assoc)
qed

theorem frame_on_the_wire_witness:
  "length (iso_queue (iso_queue_frame lab_host 1 (lab_camera\<lparr>iso_bpp := 1280, iso_ppf := 240, frame_bytes := 307200\<rparr>))) = 240"
proof -
  have "hostTakes lab_host" by (simp add: hostTakes_def lab_host_def min_def)
  moreover have "iso_queue lab_camera = []"
    by (simp add: lab_camera_def dcam_create_def Let_def dcam_i2c_reset_def dcam_reset_video_state_def)
  ultimately show ?thesis by (simp add: frame_on_the_wire)
qed

end
