(* ===== verification/Camera_Bus.thy ===== *)
theory Camera_Bus
  imports Fake_Camera_Props Dcam_Stream_Props
begin

text \<open>
  The driver and the emulated camera on one bus: the environment \<open>camera_bus\<close> delivers every asynchronous
  transaction of the driver to the region of the camera it addresses, so the driver's register operations run
  against the camera's handlers, and the two sides' tables and computations meet.
\<close>

section \<open>The bus\<close>

text \<open>
  The kernels on both sides are not code of the repository. They carry a quadlet as four bytes, most significant
  first, hand a transaction to the region it falls in, and fail one that the camera rejects or that falls outside
  every region with the status \<open>nak\<close>, a parameter.
\<close>

definition busAddress :: "USHORT \<Rightarrow> ULONG \<Rightarrow> ULONG64" where
  "busAddress hi lo = push_bit 32 (ucast hi) OR ucast lo"

definition inRegion :: "ULONG64 \<Rightarrow> ULONG64 \<Rightarrow> bool" where
  "inRegion a start \<longleftrightarrow> start \<le> a \<and> a - start < 0x1000"

abbreviation (input) DCAM_MAILBOX_ADDR :: ULONG64 where "DCAM_MAILBOX_ADDR \<equiv> 0xFFFFF0204000"

definition wireQuadlet :: "byte list \<Rightarrow> ULONG" where
  "wireQuadlet bs = (if length bs \<ge> 4 then RtlUlongByteSwap (of_le_bytes (take 4 bs)) else 0)"

definition camera_answer :: "fw_host \<Rightarrow> NTSTATUS \<Rightarrow> irb \<Rightarrow> dcam_camera \<Rightarrow> irb_outcome \<times> dcam_camera" where
  "camera_answer h nak i cam = (case i of
     ASYNC_READ hi lo len gen speed tc \<Rightarrow>
       (let a = busAddress hi lo in
        if inRegion a (dcam_base cam)
        then (InTime STATUS_SUCCESS (ResBytes (le_bytes (RtlUlongByteSwap (dcam_on_register_read cam (ucast (a - dcam_base cam)))))), cam)
        else if inRegion a DCAM_MAILBOX_ADDR
        then (InTime STATUS_SUCCESS (ResBytes (dcam_on_mailbox_read (unat len) cam)), cam)
        else (InTime nak ResNone, cam))
   | ASYNC_WRITE hi lo bs gen speed tc \<Rightarrow>
       (let a = busAddress hi lo in
        if inRegion a (dcam_base cam)
        then (case dcam_on_register_write h (ucast (a - dcam_base cam)) (wireQuadlet bs) cam of
                (rc, cam') \<Rightarrow> (InTime (if rc = RCODE_COMPLETE then STATUS_SUCCESS else nak) ResNone, cam'))
        else if inRegion a DCAM_MAILBOX_ADDR then (InTime STATUS_SUCCESS ResNone, dcam_on_mailbox_write bs cam)
        else (InTime nak ResNone, cam))
   | _ \<Rightarrow> (InTime STATUS_SUCCESS ResNone, cam))"

definition camera_bus :: "fw_host \<Rightarrow> NTSTATUS \<Rightarrow> dcam_camera env" where
  "camera_bus h nak = \<lparr>envAlloc = (\<lambda>b. (True, b)), envLock = (\<lambda>b. (STATUS_SUCCESS, b)), envCall = camera_answer h nak\<rparr>"

definition rejects :: "NTSTATUS \<Rightarrow> bool" where
  "rejects nak \<longleftrightarrow> \<not> NT_SUCCESS nak \<and> nak \<noteq> STATUS_INVALID_GENERATION"

text \<open>The driver has found the camera: its CSR base is the quadlet-aligned region the camera allocated in its search range.\<close>

definition attached :: "extension \<Rightarrow> dcam_camera \<Rightarrow> bool" where
  "attached x cam \<longleftrightarrow> HasPdo x \<and> \<not> BusResetPending x \<and> CsrBaseAddress x = dcam_base cam \<and>
     0xFFFFF0001000 \<le> dcam_base cam \<and> dcam_base cam \<le> 0xFFFFF00FF000 \<and> dcam_base cam mod 4 = 0"

lemma busAddress_split:
  assumes "a < 0x1000000000000"
  shows "busAddress (ucast (drop_bit 32 a)) (ucast a) = a"
proof -
  have m: "0x1000000000000 = (2 :: ULONG64) ^ 48" by simp
  have "a = a AND mask 48" using less_mask_eq [of a 48] assms unfolding m by simp
  then have top: "\<not> bit a n" if "48 \<le> n" for n using that by (metis bit_and_iff bit_mask_iff not_less)
  show ?thesis
    unfolding busAddress_def
    by (rule bit_word_eqI) (auto simp: bit_simps top not_less intro: ccontr)
qed

lemma narrow_widen [simp]: "ucast (ucast (w :: ULONG) :: ULONG64) = w"
  by (rule bit_word_eqI) (auto simp: bit_simps)

lemma register_address:
  assumes "attached x cam" and "off < 0x1000"
  shows "CsrBaseAddress x + ucast off < 0x1000000000000" "inRegion (CsrBaseAddress x + ucast off) (dcam_base cam)"
    "ucast (CsrBaseAddress x + ucast off - dcam_base cam) = (off :: ULONG)"
proof -
  have b: "unat (dcam_base cam) \<le> 0xFFFFF00FF000" "unat off < 0x1000" and x: "CsrBaseAddress x = dcam_base cam"
    using assms by (simp_all add: attached_def word_le_nat_alt word_less_nat_alt)
  have u: "unat (dcam_base cam + ucast off) = unat (dcam_base cam) + unat off"
    using b unat_widen [of off] by (subst unat_word_ariths) simp
  show "CsrBaseAddress x + ucast off < 0x1000000000000" using b u by (simp add: x word_less_nat_alt)
  have "(ucast off :: ULONG64) < 0x1000" using b(2) unat_widen [of off] by (simp add: word_less_nat_alt)
  then show "inRegion (CsrBaseAddress x + ucast off) (dcam_base cam)"
    using u by (simp add: inRegion_def x word_le_nat_alt)
  show "ucast (CsrBaseAddress x + ucast off - dcam_base cam) = off" by (simp add: x)
qed

lemma wireQuadlet_swap [simp]: "wireQuadlet (le_bytes (RtlUlongByteSwap v)) = v"
  by (simp add: wireQuadlet_def)

text \<open>The driver's register accesses are the camera's handlers.\<close>

lemma camera_read:
  assumes "attached x cam" and "off < 0x1000"
  shows "Photonic1394ReadRegister (camera_bus h nak) off (x, cam) = (Inr (dcam_on_register_read cam off), (x, cam))"
  using register_address [OF assms] assms(1)
  by (simp add: Photonic1394ReadRegister_def readQuadlet_def PhotonicAsyncTransfer_def refreshIfPending_def submitRetry_def
      PhotonicSubmitIrbEx_def camera_bus_def camera_answer_def xferIrb_def attached_def busAddress_split Let_def)

lemma camera_write:
  assumes "attached x cam" and "off < 0x1000" and "rejects nak"
  shows "Photonic1394WriteRegister (camera_bus h nak) off v (x, cam) =
    (case dcam_on_register_write h off v cam of
       (rc, cam') \<Rightarrow> (if rc = RCODE_COMPLETE then Inr () else Inl nak, (x, cam')))"
  using register_address [OF assms(1,2)] assms(1,3)
  by (cases "dcam_on_register_write h off v cam")
    (auto simp: Photonic1394WriteRegister_def writeQuadlet_def PhotonicAsyncTransfer_def refreshIfPending_def submitRetry_def
      PhotonicSubmitIrbEx_def camera_bus_def camera_answer_def xferIrb_def attached_def busAddress_split Let_def rejects_def andThen_def)

section \<open>The mode tables\<close>

lemma top_bit: "bit (drop_bit n (0x80000000 :: ULONG)) k \<longleftrightarrow> n + k = 31"
proof -
  have "(0x80000000 :: ULONG) = 2 ^ 31" by simp
  then show ?thesis by (simp only: bit_drop_bit_eq comp_def bit_exp_iff) (auto simp: add.commute)
qed

lemma inqBit_bit: "n \<le> 31 \<Longrightarrow> inqBit w n = bit w (31 - n)"
proof -
  assume n: "n \<le> 31"
  have "bit (w AND drop_bit n 0x80000000) k \<longleftrightarrow> bit w k \<and> k = 31 - n" for k
    using n by (auto simp: bit_and_iff top_bit)
  then show ?thesis unfolding inqBit_def by (metis bit_eqI bit_0_eq bot_apply bot_bool_def)
qed

lemma idMask_bit: "n \<le> 32 \<Longrightarrow> k < n \<Longrightarrow> inqBit (idMask P n) k = P k"
proof -
  have "bit (idMask P n) b \<longleftrightarrow> (\<exists>i < n. P i \<and> i + b = 31)" for b
    by (induction n) (auto simp: idMask_def bit_or_iff top_bit less_Suc_eq)
  moreover have "i + (31 - k) = 31 \<longleftrightarrow> i = k" if "k \<le> 31" for i using that by arith
  ultimately show "n \<le> 32 \<Longrightarrow> k < n \<Longrightarrow> ?thesis" by (simp add: inqBit_bit)
qed

lemma rate_tables: "map (map miRate) dcam_modes = g_DcamPacketGeometry"
  by (simp add: dcam_modes_def modeInfo_def g_DcamPacketGeometry_def)

lemma rate_tables_nth: "f < 3 \<Longrightarrow> m < 8 \<Longrightarrow> g_DcamPacketGeometry ! f ! m = miRate (dcam_modes ! f ! m)"
  using dcam_modes_dims by (simp flip: rate_tables add: list_all_length)

text \<open>
  The driver's tables are the camera's. The geometry and packet tables of photonic/dcam.c and the mode table of
  fake-fw-dev/video.c agree in every format, mode and rate, and a standard mode reads back as
  advertised exactly when the driver's packet table has an entry for the rate.
\<close>

theorem driver_camera_tables_agree:
  "map (map (\<lambda>mi. (miPixfmt mi, miWidth mi, miHeight mi))) dcam_modes = g_DcamGeometry \<and>
   map (map miRate) dcam_modes = g_DcamPacketGeometry \<and>
   list_all (\<lambda>f. list_all (\<lambda>m. list_all (\<lambda>r.
       inqBit (dcam_frame_rate_inq f m) r = (fst (g_DcamPacketGeometry ! f ! m ! r) \<noteq> 0)) [0..<6]) [0..<8]) [0..<3]"
proof -
  have "map (map (\<lambda>mi. (miPixfmt mi, miWidth mi, miHeight mi))) dcam_modes = g_DcamGeometry"
    by (simp add: dcam_modes_def modeInfo_def g_DcamGeometry_def)
  moreover have "inqBit (dcam_frame_rate_inq f m) r = (fst (g_DcamPacketGeometry ! f ! m ! r) \<noteq> 0)"
    if "f < 3" "m < 8" "r < 6" for f m r
  proof -
    have "inqBit (idMask P 6) r = P r" for P
      using that(3) by (simp add: idMask_bit)
    then show ?thesis using that by (simp add: dcam_frame_rate_inq_def dcam_packet_geom_def rate_tables_nth)
  qed
  ultimately show ?thesis using rate_tables by (simp add: list_all_iff)
qed

section \<open>Where the Format 7 registers are\<close>

lemma f7_offset:
  assumes "k < num_f7_modes cam" and "num_f7_modes cam \<le> 4" and "reg < 0x100"
  shows "unat (0xA00 + of_nat k * 0x100 + reg :: ULONG) = 2560 + 256 * k + unat reg"
    "f7Block cam (0xA00 + of_nat k * 0x100 + reg)"
    "unat ((0xA00 + of_nat k * 0x100 + reg - 0xA00 :: ULONG) div 0x100) = k"
    "(0xA00 + of_nat k * 0x100 + reg - 0xA00 :: ULONG) mod 0x100 = reg"
    "0xA00 + of_nat k * 0x100 + reg < (0x1000 :: ULONG)"
proof -
  have r: "unat reg < 256" "k < 4" using assms by (simp_all add: word_less_nat_alt)
  have k: "unat (of_nat k * 0x100 :: ULONG) = 256 * k" "unat (of_nat (num_f7_modes cam) * 0x100 :: ULONG) = 256 * num_f7_modes cam"
    using r assms(2) by (simp_all add: unat_word_ariths unat_of_nat)
  have rel: "unat (of_nat k * 0x100 + reg :: ULONG) = 256 * k + unat reg"
    using r k by (subst unat_word_ariths) simp
  show off: "unat (0xA00 + of_nat k * 0x100 + reg :: ULONG) = 2560 + 256 * k + unat reg"
    using r rel by (subst add.assoc, subst unat_word_ariths) simp
  have top: "unat (0xA00 + of_nat (num_f7_modes cam) * 0x100 :: ULONG) = 2560 + 256 * num_f7_modes cam"
    using assms(2) k by (subst unat_word_ariths) simp
  show "f7Block cam (0xA00 + of_nat k * 0x100 + reg)"
    unfolding f7Block_def word_le_nat_alt word_less_nat_alt off top using r assms(1) by simp
  have cancel: "(0xA00 + of_nat k * 0x100 + reg - 0xA00 :: ULONG) = of_nat k * 0x100 + reg" by simp
  show "unat ((0xA00 + of_nat k * 0x100 + reg - 0xA00 :: ULONG) div 0x100) = k"
    unfolding cancel unat_div rel using r by simp
  show "(0xA00 + of_nat k * 0x100 + reg - 0xA00 :: ULONG) mod 0x100 = reg"
    unfolding cancel word_unat_eq_iff unat_mod rel using r by simp
  show "0xA00 + of_nat k * 0x100 + reg < (0x1000 :: ULONG)"
    unfolding word_less_nat_alt off using r by simp
qed

text \<open>An access at a register of mode k's block, whose offset none of the fixed registers has.\<close>

lemma f7_write:
  assumes "k < num_f7_modes cam" and "num_f7_modes cam \<le> 4" and "reg < 0x100"
  shows "dcam_on_register_write h (0xA00 + of_nat k * 0x100 + reg) v cam =
    (case dcam_f7_csr_write k reg v (f7 cam) of (rc, ls) \<Rightarrow> (rc, cam\<lparr>f7 := ls\<rparr>))"
proof -
  note o = f7_offset [OF assms]
  define off :: ULONG where "off = 0xA00 + of_nat k * 0x100 + reg"
  have "2560 \<le> unat off" using o(1) by (simp add: off_def)
  then have "off \<noteq> 0x000" "off \<noteq> 0x608" "off \<noteq> 0x604" "off \<noteq> 0x600" "off \<noteq> 0x60C" "off \<noteq> 0x614" "off \<noteq> 0x61C" by auto
  then show ?thesis
    using o(2-4) unfolding off_def [symmetric] dcam_on_register_write_def Let_def by simp
qed

lemma f7_read:
  assumes "k < num_f7_modes cam" and "num_f7_modes cam \<le> 4" and "reg < 0x100"
  shows "dcam_on_register_read cam (0xA00 + of_nat k * 0x100 + reg) = dcam_f7_csr_read (f7 cam) k reg"
proof -
  note o = f7_offset [OF assms]
  define off :: ULONG where "off = 0xA00 + of_nat k * 0x100 + reg"
  have ge: "2560 \<le> unat off" using o(1) by (simp add: off_def)
  then have "off \<noteq> 0x100" "off \<noteq> 0x19C" "\<not> off \<le> 0x188" "\<not> off \<le> 0x25C" by (auto simp: word_le_nat_alt)
  moreover have "\<not> off < 0x2E0 + of_nat (num_f7_modes cam) * 4"
  proof -
    have "unat (of_nat (num_f7_modes cam) * 4 :: ULONG) = 4 * num_f7_modes cam"
      using assms(2) by (simp add: unat_word_ariths unat_of_nat)
    then have "unat (0x2E0 + of_nat (num_f7_modes cam) * 4 :: ULONG) = 736 + 4 * num_f7_modes cam"
      using assms(2) by (subst unat_word_ariths) simp
    then show ?thesis using ge assms(2) by (simp add: word_less_nat_alt)
  qed
  ultimately show ?thesis
    using o(2-4) unfolding off_def [symmetric] dcam_on_register_read_def Let_def by simp
qed

text \<open>The pointer the camera gives for a mode is the one the driver resolves to that mode's block.\<close>

lemma csr_pointer_lands:
  assumes "attached x cam" and "csr_base cam = ucast (dcam_base cam)" and "k < 4"
  shows "Photonic1394CsrPointerToOffset (dcam_f7_csr_pointer (csr_base cam) k) 0x48 (x, cam) = (Inr (0xA00 + of_nat k * 0x100), (x, cam))"
proof -
  define B where "B = unat (dcam_base cam)"
  define D where "D = B - 0xFFFFF0000000"
  have B: "0xFFFFF0001000 \<le> B" "B \<le> 0xFFFFF00FF000" "B mod 4 = 0" and x: "CsrBaseAddress x = dcam_base cam"
    using assms(1) by (auto simp: attached_def B_def word_le_nat_alt unat_mod dest!: arg_cong [where f = unat])
  have BD: "B = 0xFFFFF0000000 + D" "D \<le> 0xFF000" "0x1000 \<le> D" using B by (simp_all add: D_def)
  have "unat (ucast (dcam_base cam) :: ULONG) = B mod 2 ^ 32" by (simp add: B_def unsigned_ucast_eq take_bit_eq_mod)
  also have "\<dots> = ((0xF0000000 + D) + 65535 * 2 ^ 32) mod 2 ^ 32" using BD by simp
  also have "\<dots> = 0xF0000000 + D" using BD(2) unfolding mod_mult_self1 by (intro mod_less) simp
  finally have low: "unat (csr_base cam) = 0xF0000000 + D" by (simp add: assms(2))
  have "unat (csr_base cam - 0xF0000000) = D"
    by (subst unat_sub) (simp_all add: word_le_nat_alt low)
  moreover have off: "unat (0xA00 + of_nat k * 0x100 :: ULONG) = 2560 + 256 * k"
    using assms(3) by (simp add: unat_word_ariths unat_of_nat)
  ultimately have "unat (csr_base cam - 0xF0000000 + (0xA00 + of_nat k * 0x100)) = D + 2560 + 256 * k"
    using BD assms(3) by (subst unat_word_ariths) simp
  then have P: "unat (dcam_f7_csr_pointer (csr_base cam) k) = (D + 2560 + 256 * k) div 4"
    by (simp add: dcam_f7_csr_pointer_def unat_div)
  have "D mod 4 = 0" using B(3) BD(1) by presburger
  then have four: "(D + 2560 + 256 * k) div 4 * 4 = D + 2560 + 256 * k" by presburger
  let ?P = "dcam_f7_csr_pointer (csr_base cam) k"
  define a :: ULONG64 where "a = 0xFFFFF0000000 + ucast ?P * 4"
  have r: "registerSpace PHOTONIC_REGISTER_SPACE_LOW = 0xFFFFF0000000" "registerSpace PHOTONIC_CSR_BASE_MIN = 0xFFFFF0000000"
    "registerSpace PHOTONIC_CSR_BASE_MAX = 0xFFFFF1000000" by code_simp+
  have "unat (ucast ?P * 4 :: ULONG64) = D + 2560 + 256 * k"
    using P four unat_widen [of ?P] BD assms(3) by (subst unat_word_ariths) simp
  then have a: "unat a = B + 2560 + 256 * k"
    unfolding a_def using BD assms(3) by (subst unat_word_ariths) simp
  then have "unat (a + ucast (0x48 :: ULONG)) = B + 2560 + 256 * k + 72"
    using BD assms(3) by (subst unat_word_ariths) simp
  then have inside: "\<not> (a < 0xFFFFF0000000 \<or> a + ucast (0x48 :: ULONG) > 0xFFFFF1000000 \<or> a < dcam_base cam)"
    using a BD assms(3) unfolding word_less_nat_alt B_def [symmetric] by simp
  have "unat (a - dcam_base cam) = 2560 + 256 * k"
    using a by (subst unat_sub) (simp_all add: word_le_nat_alt B_def)
  then have "unat (ucast (a - dcam_base cam) :: ULONG) = 2560 + 256 * k"
    using assms(3) by (simp add: unsigned_ucast_eq take_bit_eq_mod)
  then have "(ucast (a - dcam_base cam) :: ULONG) = 0xA00 + of_nat k * 0x100"
    unfolding word_unat_eq_iff off by simp
  then show ?thesis
    using inside unfolding Photonic1394CsrPointerToOffset_def Let_def r fst_conv x a_def [symmetric] by simp
qed

text \<open>
  C39: the driver finds every Format 7 block of the camera. On an attached camera the pointer register of an advertised mode
  passes the driver's window check and resolves to the offset at which the camera decodes that mode's registers, so reading
  a register of the block reads that register of that mode.
\<close>

theorem format7_block_found:
  assumes "attached x cam" and "csr_base cam = ucast (dcam_base cam)" and "num_f7_modes cam \<le> 4" and "k < num_f7_modes cam"
    and "reg < 0x100"
  shows "andThen (Photonic1394ReadRegister (camera_bus h nak) (0x2E0 + of_nat k * 4))
       (\<lambda>pointer. andThen (Photonic1394CsrPointerToOffset pointer 0x48)
       (\<lambda>base. Photonic1394ReadRegister (camera_bus h nak) (base + reg))) (x, cam) =
     (Inr (dcam_f7_csr_read (f7 cam) k reg), (x, cam))"
proof -
  define off :: ULONG where "off = 0x2E0 + of_nat k * 4"
  have k: "k < 4" using assms(3,4) by simp
  have u: "unat (of_nat k * 4 :: ULONG) = 4 * k" "unat (of_nat (num_f7_modes cam) * 4 :: ULONG) = 4 * num_f7_modes cam"
    using k assms(3) by (simp_all add: unat_word_ariths unat_of_nat)
  have u_off: "unat off = 736 + 4 * k" unfolding off_def using k u by (subst unat_word_ariths) simp
  have top: "unat (0x2E0 + of_nat (num_f7_modes cam) * 4 :: ULONG) = 736 + 4 * num_f7_modes cam"
    using assms(3) u by (subst unat_word_ariths) simp
  have cancel: "off - 0x2E0 = of_nat k * 4" by (simp add: off_def)
  have idx: "unat ((off - 0x2E0) div 4) = k" unfolding cancel unat_div u using k by simp
  have "unat (off AND 3) = unat off mod 4"
  proof -
    have m: "(3 :: ULONG) = mask 2" by (simp add: mask_eq_exp_minus_1)
    show ?thesis unfolding m take_bit_eq_mask [symmetric] by (simp add: unsigned_take_bit_eq take_bit_eq_mod unat_mod)
  qed
  then have "unat (off AND 3) = 0" unfolding u_off by simp
  then have quad: "off AND 3 = 0" by (simp add: unat_eq_zero)
  have ne: "off \<noteq> 0x100" "off \<noteq> 0x19C" "\<not> off \<le> 0x188" "\<not> off \<le> 0x25C" "0x2E0 \<le> off"
    "off < 0x2E0 + of_nat (num_f7_modes cam) * 4" "off < 0x1000"
    using u_off assms(4) top k by (auto simp: word_le_nat_alt word_less_nat_alt)
  have pointer: "dcam_on_register_read cam off = dcam_f7_csr_pointer (csr_base cam) k"
    using ne(1-6) quad idx unfolding dcam_on_register_read_def Let_def by simp
  have "0xA00 + of_nat k * 0x100 + reg < (0x1000 :: ULONG)"
    by (rule f7_offset(5) [OF assms(4,3,5)])
  then show ?thesis
    using camera_read [OF assms(1)] ne(7) csr_pointer_lands [OF assms(1,2) k] f7_read [OF assms(4,3,5)]
    unfolding off_def [symmetric] by (simp add: andThen_def pointer)
qed

text \<open>The driver attached to the camera of \<open>Fake_Camera_Props\<close>, whose CSR region is at 0xFFFFF0010000.\<close>

definition lab_device :: extension where
  "lab_device = ext0\<lparr>CsrBaseAddress := 0xFFFFF0010000\<rparr>"

lemma lab_fields: "dcam_base lab_camera = 0xFFFFF0010000" "csr_base lab_camera = 0xF0010000" "num_f7_modes lab_camera = 4"
  "f7 lab_camera = dcam_f7_reset"
  by (simp_all add: lab_camera_def dcam_create_def Let_def dcam_i2c_reset_def dcam_reset_video_state_def)

lemma lab_attached: "attached lab_device lab_camera"
  by (simp add: attached_def lab_device_def lab_fields)

lemma mono_unit: "dcam_f7_csr_read dcam_f7_reset 0 0x44 = push_bit 16 1388"
  by (simp add: dcam_f7_csr_read_def dcam_f7_reset_def dcam_f7_modes_def f7Info_def dcam_f7_recommended_bpp_def
      dcam_f7_packet_params_def resize_def dcam_f7_bits_per_pixel_def Let_def)

theorem format7_block_found_witness:
  "andThen (Photonic1394ReadRegister (camera_bus lab_host STATUS_UNSUCCESSFUL) 0x2E0)
       (\<lambda>pointer. andThen (Photonic1394CsrPointerToOffset pointer 0x48)
       (\<lambda>base. Photonic1394ReadRegister (camera_bus lab_host STATUS_UNSUCCESSFUL) (base + 0x44))) (lab_device, lab_camera) =
     (Inr (push_bit 16 1388), (lab_device, lab_camera))"
  using format7_block_found [OF lab_attached, of 0 "0x44" lab_host STATUS_UNSUCCESSFUL] mono_unit by (simp add: lab_fields)

section \<open>Both sides configure the same stream\<close>

lemma select_roundtrip: "unat v < 8 \<Longrightarrow> unat (drop_bit 29 (push_bit 29 (v :: ULONG))) = unat v"
proof -
  assume "unat v < 8"
  then have "unat (push_bit 29 v) = unat v * 2 ^ 29" by (simp add: push_bit_eq_mult unat_word_ariths)
  then show ?thesis by (simp add: drop_bit_eq_div unat_div)
qed

lemma high_roundtrip: "v < 0x10000 \<Longrightarrow> drop_bit 16 (push_bit 16 (v :: ULONG)) = v"
proof -
  assume "v < 0x10000"
  then have "unat v < 65536" by (simp add: word_less_nat_alt)
  then have "unat (push_bit 16 v) = unat v * 2 ^ 16" by (simp add: push_bit_eq_mult unat_word_ariths)
  then show ?thesis unfolding word_unat_eq_iff by (simp add: drop_bit_eq_div unat_div)
qed

text \<open>The image size register packs two 16-bit numbers.\<close>

lemma size_roundtrip:
  "drop_bit 16 (push_bit 16 (w AND 0xFFFF) OR (h AND 0xFFFF) :: ULONG) = w AND 0xFFFF"
  "(push_bit 16 (w AND 0xFFFF) OR (h AND 0xFFFF) :: ULONG) AND 0xFFFF = h AND 0xFFFF"
proof -
  have m: "(0xFFFF :: ULONG) = mask 16" by (simp add: mask_eq_exp_minus_1)
  show "drop_bit 16 (push_bit 16 (w AND 0xFFFF) OR (h AND 0xFFFF) :: ULONG) = w AND 0xFFFF"
    unfolding m by (rule bit_word_eqI) (auto simp: bit_simps)
  show "(push_bit 16 (w AND 0xFFFF) OR (h AND 0xFFFF) :: ULONG) AND 0xFFFF = h AND 0xFFFF"
    unfolding m by (rule bit_word_eqI) (auto simp: bit_simps)
qed

lemma low16_id: "v < 0x10000 \<Longrightarrow> v AND 0xFFFF = (v :: ULONG)"
  using less_mask_eq [of v 16] by (simp add: mask_eq_exp_minus_1)

lemma coding_bits: "PhotonicDcamCodingBpp c \<noteq> 0 \<Longrightarrow> dcam_f7_bits_per_pixel c = PhotonicDcamCodingBpp c \<and> c < 0x100"
  by (auto simp: PhotonicDcamCodingBpp_def dcam_f7_bits_per_pixel_def split: if_split_asm)

lemma coding_roundtrip: "c < 0x100 \<Longrightarrow> drop_bit 24 (push_bit 24 (c :: ULONG)) = c"
proof -
  assume "c < 0x100"
  then have "unat c < 256" by (simp add: word_less_nat_alt)
  then have "unat (push_bit 24 c) = unat c * 2 ^ 24" by (simp add: push_bit_eq_mult unat_word_ariths)
  then show ?thesis unfolding word_unat_eq_iff by (simp add: drop_bit_eq_div unat_div)
qed

text \<open>A frame has the same number of bytes on both sides.\<close>

lemma frame_bytes_agree:
  assumes "PhotonicDcamCodingBpp c \<noteq> 0" and "lvWidth l = w" "lvHeight l = v" "color_coding l = c"
  shows "dcam_f7_frame_bytes l = PhotonicImageBytes w v (PhotonicDcamCodingBpp c)"
  using assms coding_bits [of c] by (simp add: dcam_f7_frame_bytes_def PhotonicImageBytes_def drop_bit_eq_div)

definition camera_entry :: "dcam_camera \<Rightarrow> stream \<Rightarrow> video_mode \<Rightarrow> bool" where
  "camera_entry cam s m \<longleftrightarrow>
     (if IsFormat7 m
      then unat (Mode m) < num_f7_modes cam \<and> Format7CsrOffset m = 0xA00 + of_nat (unat (Mode m)) * 0x100 \<and>
        PhotonicDcamCodingBpp (PixelFormat m) \<noteq> 0 \<and> sWidth s < 0x10000 \<and> sHeight s < 0x10000 \<and>
        ImageSize s = PhotonicImageBytes (sWidth s) (sHeight s) (PhotonicDcamCodingBpp (PixelFormat m))
      else std_ok m)"

lemma payload_small: "Photonic1394MaxIsochPayload x < 0x10000"
proof -
  have "unat (Photonic1394StreamScode x) \<le> 2"
    by (auto simp: Photonic1394StreamScode_def Let_def word_le_nat_alt word_less_nat_alt)
  then have "unat (Photonic1394StreamScode x) \<in> {0, 1, 2}" by auto
  then show ?thesis by (auto simp: Photonic1394MaxIsochPayload_def)
qed

lemma select_write:
  assumes "attached x cam" and "rejects nak" and "unat v < 8"
  shows
    "Photonic1394WriteRegister (camera_bus h nak) 0x608 (push_bit 29 v) (x, cam) = (Inr (), (x, cam\<lparr>cur_format := unat v\<rparr>))"
    "Photonic1394WriteRegister (camera_bus h nak) 0x604 (push_bit 29 v) (x, cam) = (Inr (), (x, cam\<lparr>cur_mode := unat v\<rparr>))"
    "Photonic1394WriteRegister (camera_bus h nak) 0x600 (push_bit 29 v) (x, cam) = (Inr (), (x, cam\<lparr>cur_rate := unat v\<rparr>))"
  using camera_write [OF assms(1) _ assms(2)] select_roundtrip [OF assms(3)]
  by (simp_all add: dcam_on_register_write_def)

lemma block_write:
  assumes "attached x cam" and "rejects nak" and "k < num_f7_modes cam" and "num_f7_modes cam \<le> 4" and "reg < 0x100"
  shows "Photonic1394WriteRegister (camera_bus h nak) (0xA00 + of_nat k * 0x100 + reg) v (x, cam) =
    (case dcam_f7_csr_write k reg v (f7 cam) of (rc, ls) \<Rightarrow> (if rc = RCODE_COMPLETE then Inr () else Inl nak, (x, cam\<lparr>f7 := ls\<rparr>)))"
  using camera_write [OF assms(1) f7_offset(5) [OF assms(3-5)] assms(2), of h v] f7_write [OF assms(3-5), of h v]
  by (simp split: prod.splits)

lemma block_read:
  assumes "attached x cam" and "k < num_f7_modes cam" and "num_f7_modes cam \<le> 4" and "reg < 0x100"
  shows "Photonic1394ReadRegister (camera_bus h nak) (0xA00 + of_nat k * 0x100 + reg) (x, cam) =
    (Inr (dcam_f7_csr_read (f7 cam) k reg), (x, cam))"
  using camera_read [OF assms(1) f7_offset(5) [OF assms(2-4)]] f7_read [OF assms(2-4)] by simp

lemma packets_nonzero: "list_all (list_all (\<lambda>mi. list_all (\<lambda>(b, p). b = 0 \<or> p \<noteq> 0) (miRate mi))) dcam_modes"
  by (simp add: dcam_modes_def modeInfo_def)

lemma attached_update [simp]:
  "attached x (cam\<lparr>cur_format := n\<rparr>) = attached x cam" "attached x (cam\<lparr>cur_mode := n\<rparr>) = attached x cam"
  "attached x (cam\<lparr>cur_rate := n\<rparr>) = attached x cam" "attached x (cam\<lparr>f7 := ls\<rparr>) = attached x cam"
  by (simp_all add: attached_def)

text \<open>The camera as a successful Format 7 configuration leaves it.\<close>

definition f7Latched :: "dcam_f7_live \<Rightarrow> ULONG \<Rightarrow> ULONG \<Rightarrow> ULONG \<Rightarrow> dcam_f7_live" where
  "f7Latched l w v c = resize ((resize (l\<lparr>lvWidth := w, lvHeight := v\<rparr>))\<lparr>color_coding := c\<rparr>)"

lemma configure_f7_camera:
  assumes "PhotonicDcamConfigureFormat7 (camera_bus h nak) m (s, (x, cam)) = (Inr (bpp, ppf), (s', (x', cam')))"
    and "attached x cam" and "rejects nak" and "camera_entry cam s m" and "IsFormat7 m"
    and "num_f7_modes cam \<le> 4" and "length (f7 cam) = 4"
  shows "let k = unat (Mode m); l = f7Latched (f7 cam ! k) (sWidth s) (sHeight s) (PixelFormat m) in
    k < 4 \<and> bpp \<noteq> 0 \<and> ppf = ImageSize s div bpp \<and> ppf \<noteq> 0 \<and> ImageSize s \<noteq> 0 \<and>
    dcam_f7_bpp_is_legal l bpp \<and> bpp \<le> Photonic1394MaxIsochPayload x \<and>
    cam' = cam\<lparr>cur_format := 7, cur_mode := k, f7 := (f7 cam)[k := l\<lparr>bytes_per_packet := bpp\<rparr>]\<rparr>"
proof -
  let ?k = "unat (Mode m)" and ?c = "PixelFormat m"
  have e: "?k < num_f7_modes cam" "Format7CsrOffset m = 0xA00 + of_nat ?k * 0x100" "PhotonicDcamCodingBpp ?c \<noteq> 0"
    "sWidth s < 0x10000" "sHeight s < 0x10000"
    using assms(4,5) by (simp_all add: camera_entry_def)
  have k: "?k < 4" "unat (ucast (Mode m) :: ULONG) = ?k" "unat (7 :: ULONG) < 8" "?k < length (f7 cam)" "unat (ucast (Mode m) :: ULONG) < 8"
    using e(1) assms(6,7) by (simp_all add: unsigned_ucast_eq take_bit_eq_mod)
  define l3 where "l3 = resize ((f7 cam ! ?k)\<lparr>lvWidth := sWidth s, lvHeight := sHeight s\<rparr>)"
  define l4 where "l4 = f7Latched (f7 cam ! ?k) (sWidth s) (sHeight s) ?c"
  have l4: "l4 = resize (l3\<lparr>color_coding := ?c\<rparr>)" by (simp add: l3_def l4_def f7Latched_def)
  define c2 where "c2 = cam\<lparr>cur_format := 7, cur_mode := ?k\<rparr>"
  define c3 where "c3 = c2\<lparr>f7 := (f7 cam)[?k := l3]\<rparr>"
  define c4 where "c4 = c3\<lparr>f7 := (f7 cam)[?k := l4]\<rparr>"
  have att: "attached x c2" "attached x c3" "attached x c4" using assms(2) by (simp_all add: c2_def c3_def c4_def)
  have modes: "?k < num_f7_modes c2" "num_f7_modes c2 \<le> 4" "?k < num_f7_modes c3" "num_f7_modes c3 \<le> 4"
    "?k < num_f7_modes c4" "num_f7_modes c4 \<le> 4" "f7 c2 = f7 cam" "f7 c3 = (f7 cam)[?k := l3]" "f7 c4 = (f7 cam)[?k := l4]"
    using e(1) assms(6) by (simp_all add: c2_def c3_def c4_def)
  have w1: "Photonic1394WriteRegister (camera_bus h nak) 0x608 (push_bit 29 7) (x, cam) = (Inr (), (x, cam\<lparr>cur_format := 7\<rparr>))"
    using select_write(1) [OF assms(2,3) k(3)] by simp
  have w2: "Photonic1394WriteRegister (camera_bus h nak) 0x604 (push_bit 29 (ucast (Mode m))) (x, cam\<lparr>cur_format := 7\<rparr>) = (Inr (), (x, c2))"
    using select_write(2) [of x "cam\<lparr>cur_format := 7\<rparr>", OF _ assms(3) k(5)] assms(2) k(2) by (simp add: c2_def)
  define base :: ULONG where "base = 0xA00 + of_nat ?k * 0x100"
  note bw = block_write [OF _ assms(3), where k = ?k and h = h, folded base_def]
  define v where "v = push_bit 16 (sWidth s AND 0xFFFF) OR (sHeight s AND 0xFFFF)"
  have v: "drop_bit 16 v = sWidth s" "v AND 0xFFFF = sHeight s"
    unfolding v_def size_roundtrip using low16_id e(4,5) by auto
  have w3: "Photonic1394WriteRegister (camera_bus h nak) (base + 0xC) v (x, c2) = (Inr (), (x, c3))"
    using bw [OF att(1) modes(1,2), where reg = "0xC"]
    by (simp add: dcam_f7_csr_write_def Let_def v modes c3_def l3_def)
  have w4: "Photonic1394WriteRegister (camera_bus h nak) (base + 0x10) (push_bit 24 ?c) (x, c3) = (Inr (), (x, c4))"
    using bw [OF att(2) modes(3,4), where reg = "0x10"] coding_bits [OF e(3)] coding_roundtrip [of ?c] k(4)
    by (simp add: dcam_f7_csr_write_def Let_def modes c4_def l4)
  have r5: "Photonic1394ReadRegister (camera_bus h nak) (base + 0x40) (x, c4) = (Inr (dcam_f7_csr_read (f7 c4) ?k 0x40), (x, c4))"
    using block_read [OF att(3) modes(5,6), where reg = "0x40" and h = h and nak = nak, folded base_def] by simp
  have w6: "Photonic1394WriteRegister (camera_bus h nak) (base + 0x44) (push_bit 16 b) (x, c4) =
      (if dcam_f7_bpp_is_legal l4 b then Inr () else Inl nak,
       (x, if dcam_f7_bpp_is_legal l4 b then c4\<lparr>f7 := (f7 cam)[?k := l4\<lparr>bytes_per_packet := b\<rparr>]\<rparr> else c4))"
    if "b < 0x10000" for b
    using bw [OF att(3) modes(5,6), where reg = "0x44"] high_roundtrip [OF that] k(4)
    by (simp add: dcam_f7_csr_write_def Let_def modes c4_def)
  let ?choose = "choosePacket (ImageSize s) (dcam_f7_csr_read (f7 c4) ?k 0x40) (Photonic1394MaxIsochPayload x) (FrameInterval s)"
  note cfg = assms(1) [unfolded PhotonicDcamConfigureFormat7_def split_conv Let_def e(2), folded base_def v_def]
  have img: "ImageSize s \<noteq> 0" by (rule ccontr) (use cfg in \<open>simp add: Let_def\<close>)
  note steps = img w1 w2 w3 w4 r5
  show ?thesis
  proof (cases ?choose)
    case (Inl err)
    with cfg steps show ?thesis by (simp add: onDrv_def Let_def)
  next
    case (Inr b)
    then have b: "b \<noteq> 0" "b \<le> Photonic1394MaxIsochPayload x" using choosePacket_Inr by blast+
    then have "b < 0x10000" using payload_small [of x] by (meson le_less_trans)
    note last = w6 [OF this]
    have ppf: "ImageSize s div b \<noteq> 0"
      by (rule ccontr) (use cfg steps Inr in \<open>simp add: onDrv_def Let_def\<close>)
    have legal: "dcam_f7_bpp_is_legal l4 b"
      by (rule ccontr) (use cfg steps Inr ppf last in \<open>simp add: onDrv_def Let_def\<close>)
    from cfg steps Inr ppf last legal
    have "bpp = b \<and> ppf = ImageSize s div b \<and> cam' = c4\<lparr>f7 := (f7 cam)[?k := l4\<lparr>bytes_per_packet := b\<rparr>]\<rparr>"
      by (simp add: onDrv_def Let_def ret_def) blast
    then show ?thesis
      using b ppf legal img k(1) by (simp add: Let_def l4_def c2_def c3_def c4_def)
  qed
qed

text \<open>
  C9: driver and camera agree on the stream. When the driver has configured a stream on an attached camera, for any entry of the
  camera's mode tables and any frame of at most 4096 packets, the camera computes for itself exactly the packet size and the number of
  packets per frame the driver returned, and it renders at least that many bytes per frame; so the host assembles a frame
  from the packets of one camera frame and of no other.
\<close>

theorem configured_stream_agrees:
  assumes "PhotonicDcamConfigureStream (camera_bus h nak) (s, (x, cam)) = (Inr (bpp, ppf), (s', (x', cam')))"
    and "sMode s = Some m" and "camera_entry cam s m" and "attached x cam" and "rejects nak"
    and "num_f7_modes cam \<le> 4" and "length (f7 cam) = 4" and "ppf \<le> 4096"
  shows "\<exists>c. iso_compute_geometry cam' = Some c \<and> iso_bpp c = bpp \<and> iso_ppf c = ppf \<and>
    unat bpp * unat ppf \<le> unat (frame_bytes c)"
proof -
  have "\<exists>c. iso_compute_geometry cam' = Some c \<and> iso_bpp c = bpp \<and> iso_ppf c = ppf"
  proof (cases "IsFormat7 m")
    case True
    define l where "l = f7Latched (f7 cam ! unat (Mode m)) (sWidth s) (sHeight s) (PixelFormat m)"
    have "PhotonicDcamConfigureFormat7 (camera_bus h nak) m (s, (x, cam)) = (Inr (bpp, ppf), (s', (x', cam')))"
      using assms(1,2) True by (simp add: PhotonicDcamConfigureStream_def)
    note cfg = configure_f7_camera [OF this assms(4,5,3) True assms(6,7), unfolded Let_def, folded l_def]
    have l: "lvWidth l = sWidth s" "lvHeight l = sHeight s" "color_coding l = PixelFormat m"
      by (simp_all add: l_def f7Latched_def resize_def)
    have e: "PhotonicDcamCodingBpp (PixelFormat m) \<noteq> 0"
      "ImageSize s = PhotonicImageBytes (sWidth s) (sHeight s) (PhotonicDcamCodingBpp (PixelFormat m))"
      using assms(3) True by (simp_all add: camera_entry_def)
    then have bits: "dcam_f7_bits_per_pixel (PixelFormat m) \<noteq> 0"
      and img: "dcam_f7_frame_bytes (l\<lparr>bytes_per_packet := bpp\<rparr>) = ImageSize s"
      using coding_bits [of "PixelFormat m"] frame_bytes_agree [of "PixelFormat m" "l\<lparr>bytes_per_packet := bpp\<rparr>"] l by simp_all
    have "sWidth s \<noteq> 0" "sHeight s \<noteq> 0"
      using cfg e(2) by (auto simp: PhotonicImageBytes_def)
    moreover have "ImageSize s div bpp \<noteq> 0" using cfg by auto
    ultimately show ?thesis
      using cfg l bits img assms(7,8)
      by (simp add: iso_compute_geometry_def iso_compute_geometry_f7_def Let_def not_less)
  next
    case False
    let ?f = "unat (Format m)" and ?k = "unat (Mode m)"
    let ?r = "PhotonicDcamSelectRate ?f ?k (RateMask m) (FrameInterval s) (Photonic1394MaxIsochPayload x)"
    have fk: "?f < 3" "?k < 8" using assms(3) False by (simp_all add: camera_entry_def std_ok_def word_less_nat_alt)
    have r: "?r < 6" using assms(1,2) False by (auto simp: PhotonicDcamConfigureStream_def Let_def split: if_split_asm)
    have u: "unat (ucast (Format m) :: ULONG) = ?f" "unat (ucast (Mode m) :: ULONG) = ?k" "unat (of_nat ?r :: ULONG) = ?r"
      using r fk by (simp_all add: unsigned_ucast_eq take_bit_eq_mod unat_of_nat)
    have w: "Photonic1394WriteRegister (camera_bus h nak) 0x608 (push_bit 29 (ucast (Format m))) (x, cam) =
        (Inr (), (x, cam\<lparr>cur_format := ?f\<rparr>))"
      "Photonic1394WriteRegister (camera_bus h nak) 0x604 (push_bit 29 (ucast (Mode m))) (x, cam\<lparr>cur_format := ?f\<rparr>) =
        (Inr (), (x, cam\<lparr>cur_format := ?f, cur_mode := ?k\<rparr>))"
      "Photonic1394WriteRegister (camera_bus h nak) 0x600 (push_bit 29 (of_nat ?r)) (x, cam\<lparr>cur_format := ?f, cur_mode := ?k\<rparr>) =
        (Inr (), (x, cam\<lparr>cur_format := ?f, cur_mode := ?k, cur_rate := ?r\<rparr>))"
      using select_write(1) [of x cam nak "ucast (Format m)" h] select_write(2) [of x "cam\<lparr>cur_format := ?f\<rparr>" nak "ucast (Mode m)" h]
        select_write(3) [of x "cam\<lparr>cur_format := ?f, cur_mode := ?k\<rparr>" nak "of_nat ?r" h] assms(4,5) fk r u by simp_all
    have "PhotonicDcamConfigureStream (camera_bus h nak) (s, (x, cam)) =
        (Inr (g_DcamPacketGeometry ! ?f ! ?k ! ?r),
         (s\<lparr>RateId := of_nat ?r\<rparr>, (x, cam\<lparr>cur_format := ?f, cur_mode := ?k, cur_rate := ?r\<rparr>)))"
      using assms(2) False r w by (simp add: PhotonicDcamConfigureStream_def Let_def onDrv_def ret_def not_le)
    then have run: "(bpp, ppf) = g_DcamPacketGeometry ! ?f ! ?k ! ?r" "cam' = cam\<lparr>cur_format := ?f, cur_mode := ?k, cur_rate := ?r\<rparr>"
      using assms(1) by simp_all
    have table: "miRate (dcam_mode_info_get ?f ?k) ! ?r = (bpp, ppf)"
      unfolding dcam_mode_info_get_def rate_tables_nth [OF fk, symmetric] by (rule run(1) [symmetric])
    have "bpp \<noteq> 0"
      using SelectRate_streams [OF refl r] by (auto simp: rateStreams_def run(1) [symmetric])
    moreover have "bpp = 0 \<or> ppf \<noteq> 0"
    proof -
      have "(bpp, ppf) \<in> set (miRate (dcam_modes ! ?f ! ?k))" "dcam_modes ! ?f ! ?k \<in> set (dcam_modes ! ?f)"
        "dcam_modes ! ?f \<in> set dcam_modes"
        using dcam_modes_dims fk r table by (auto simp: dcam_mode_info_get_def list_all_length intro: nth_mem dest: sym)
      then show ?thesis using packets_nonzero by (fastforce simp: list_all_iff)
    qed
    ultimately show ?thesis
      using run(2) table fk r assms(8) by (simp add: iso_compute_geometry_def Let_def not_less)
  qed
  then show ?thesis using geometry_some by (auto simp: transmit_ok_def)
qed

definition lab_request :: stream where
  "lab_request = roi_stream\<lparr>sMode := Some mono_mode, FrameInterval := 333333\<rparr>"

lemma lab_rate: "PhotonicDcamSelectRate 0 5 0x28000000 333333 4096 = 4"
  by (simp add: PhotonicDcamSelectRate_def selectRateStep_def rateStreams_def rateDelta_def g_DcamRateInterval_def
      g_DcamPacketGeometry_def inqBit_def drop_bit_eq_div upt_rec)

lemma lab_configured:
  "PhotonicDcamConfigureStream (camera_bus lab_host STATUS_UNSUCCESSFUL) (lab_request, (lab_device, lab_camera)) =
     (Inr (1280, 240), (lab_request\<lparr>RateId := 4\<rparr>, (lab_device, lab_camera\<lparr>cur_format := 0, cur_mode := 5, cur_rate := 4\<rparr>)))"
proof -
  have n: "rejects STATUS_UNSUCCESSFUL" by (simp add: rejects_def NT_SUCCESS_def)
  have p: "Photonic1394MaxIsochPayload lab_device = 4096"
    by (simp add: Photonic1394MaxIsochPayload_def Photonic1394StreamScode_def lab_device_def ext0_def)
  have "g_DcamPacketGeometry ! 0 ! 5 ! 4 = (1280, 240)" by (simp add: g_DcamPacketGeometry_def)
  then show ?thesis
    using select_write(1) [OF lab_attached n, of 0 lab_host] select_write(2) [of lab_device "lab_camera\<lparr>cur_format := 0\<rparr>", OF _ n, of 5 lab_host]
      select_write(3) [of lab_device "lab_camera\<lparr>cur_format := 0, cur_mode := 5\<rparr>", OF _ n, of 4 lab_host] lab_attached lab_rate p
    by (simp add: PhotonicDcamConfigureStream_def lab_request_def mono_mode_def stdEntry_def Let_def onDrv_def ret_def)
qed

theorem configured_stream_agrees_witness:
  "\<exists>c. iso_compute_geometry (lab_camera\<lparr>cur_format := 0, cur_mode := 5, cur_rate := 4\<rparr>) = Some c \<and>
     iso_bpp c = 1280 \<and> iso_ppf c = 240 \<and> unat (1280 :: ULONG) * unat (240 :: ULONG) \<le> unat (frame_bytes c)"
proof (rule configured_stream_agrees [OF lab_configured])
  show "sMode lab_request = Some mono_mode" by (simp add: lab_request_def)
  show "camera_entry lab_camera lab_request mono_mode"
    by (simp add: camera_entry_def mono_mode_def stdEntry_def std_ok_def g_DcamGeometry_def)
  show "rejects STATUS_UNSUCCESSFUL" by (simp add: rejects_def NT_SUCCESS_def)
qed (simp_all add: lab_attached lab_fields reset_f7)

end
