(* ===== verification/Camera_Mailbox.thy ===== *)
theory Camera_Mailbox
  imports Camera_Bus Ioctl_Session
begin

text \<open>
  The mailbox path from end to end: an IOCTL packet of the driver, through the byte order of the wire, to the
  camera head's register file and back.
\<close>

section \<open>Byte order\<close>










section \<open>Block transfers of the mailbox\<close>





section \<open>A register of the camera head\<close>











end
