(* ===== verification/Spec2Isabelle.thy ===== *)
theory Spec2Isabelle
  imports Irb_Race Bus1394_Props Dcam_Stream_Props Capture_Pool_Props Capture_Resource_Props Capture_Teardown_Props
    Frame_Ring_Calls Frame_Ring_Props Ioctl_Props Stream_Negotiation Camera_Mailbox
begin

text \<open>
  A verification development for photonic: a Windows stream-class driver for a FireWire (IEEE 1394, IIDC/DCAM)
  camera, and the emulated camera the repository tests it with.

  \<^bold>\<open>The program.\<close> The driver (photonic/) is loaded by the stream class driver. Device SRBs bring a camera up: the
  transport p1394.c finds its CSR base on the bus, dcam.c enumerates its video modes and image controls, formats.c and properties.c
  publish them as KS data ranges and property sets. Frames then reach a client by one of two interfaces that share
  one capture engine (capture/): a DirectShow capture pin (stream/), whose reads are SRBs that carry one frame each, and
  a private IOCTL interface (ioctl/), whose client maps a ring of frame buffers and is told of completed frames through events. The engine
  attaches buffers to an isochronous context of the bus driver, is called back by it for every frame, and hands the
  frame to whichever front-end owns the session. The camera is a user-mode program (fake-fw-dev/) that serves the same DCAM
  registers and transmits isochronous packets through the Linux firewire character device.

  \<^bold>\<open>Conventions.\<close> Machine integers are words of their width (\<open>Prelude\<close>), NTSTATUS codes among them; pointers into tables are
  indices or the entries pointed at; a lock section is one function on the state it guards. Register-level code is a
  computation in \<open>('s, 'a) comp\<close>, a state transformer that returns a status or a result. What is not code of the repository
  is a parameter: \<open>'b env\<close> is the bus driver with the kernel's allocator and remove lock, \<open>kernel\<close> the kernel services the IOCTL handlers
  call, \<open>fw_host\<close> the Linux ioctls under the camera. Concurrent code is a machine whose every step is one lock section or one
  interlocked access, so that runs cover all interleavings.

  \<^bold>\<open>Shared data and transport.\<close>
  \<^item> \<open>Prelude\<close>, \<open>Device\<close>: photonic.h, the mode table entry, the device extension and the negotiated part of the stream extension.
  \<^item> \<open>Irb_Race\<close>: p1394.c, PhotonicSubmitIrbEx against PhotonicIrbComplete, the abandon protocol of an overdue request as a step
    relation; nothing is freed twice or used after it is freed.
  \<^item> \<open>Bus1394\<close>, \<open>Bus1394_Props\<close>: the rest of p1394.c, submission, generation refresh and retry, quadlet and block transfers, CSR
    discovery; a stale generation is never reported while the bus is up, and addresses taken from the camera stay in the window.

  \<^bold>\<open>The camera protocol.\<close>
  \<^item> \<open>Dcam\<close>, \<open>Dcam_Stream\<close>: dcam.c, enumeration, rate and packet choice, stream configuration, current mode and window.
    \<open>Register_Frame\<close> is the contract between them and the transport as a locale: a register access leaves the device's tables alone.
  \<^item> \<open>Dcam_Props\<close>, \<open>Dcam_Stream_Props\<close>: whatever the camera answers, the mode table is well formed; the chosen rate and packet
    size are the best legal ones; a configured stream carries whole frames; the window arithmetic never wraps.

  \<^bold>\<open>The capture engine.\<close>
  \<^item> \<open>Capture_Pool\<close>, \<open>Capture_Pool_Props\<close>: capture.h and pool.c, the frame descriptors and the two lists that partition them, the chunks of a frame.
  \<^item> \<open>Capture_Resource\<close>, \<open>Capture_Resource_Props\<close>: resource.c, channel, bandwidth and resource handle.
  \<^item> \<open>Capture_Pump\<close>: pump.c, the lock sections of the pump and of the completion routines. \<open>Capture_Control\<close>: capture.c, teardown.c,
    work.c, the control transitions made under InterfaceMutex. \<open>Capture_Machine\<close>: both running on any number of processors with the bus
    driver; its front-end is a record of callbacks.
  \<^item> \<open>Capture_Front\<close>: what the engine asks of a front-end, a locale that \<open>Stream_Read\<close> and \<open>Frame_Ring\<close> interpret.
  \<^item> \<open>Capture_Account\<close>, \<open>Capture_World\<close>, \<open>Capture_Runs\<close>: in-flight counts, elections, descriptors and reads add up in every reachable world.
  \<^item> \<open>Capture_Shape\<close>, \<open>Capture_Safety\<close>, \<open>Capture_Teardown\<close>, \<open>Capture_Teardown_Props\<close>: the order of a teardown. Where the bus driver's promise
    to accept a stop is needed it is the hypothesis \<open>stopsAccepted\<close>, and two runs show what happens without it and in the window
    the code leaves open after the last decrement.
  \<^item> \<open>Capture_Progress\<close>, \<open>Capture_Drain\<close>: no wait loses its wakeup; a quiesce can always finish, by a measure on the work left.
  \<^item> \<open>Capture_Session\<close>: a concrete camera, bus and engine for the witnesses.

  \<^bold>\<open>The DirectShow pin.\<close>
  \<^item> \<open>Stream_Read\<close>, \<open>Stream_Read_Props\<close>: stream/read.c, the parked reads and the frame numbering.
  \<^item> \<open>Stream_Format\<close>, \<open>Stream_Intersect\<close>, \<open>Stream_Negotiation\<close>: formats.c, intersect.c and the mode recovery of lifecycle.c; each
    advertised range is that of its mode, and what an intersection offers can be opened.
  \<^item> \<open>Property_Sets\<close>, \<open>Device_Srb\<close>: properties.c, dispatch.c, lifecycle.c, control.c; every device and stream control SRB.

  \<^bold>\<open>The IOCTL interface.\<close>
  \<^item> \<open>Return_Code\<close>, \<open>Ioctl\<close>, \<open>Ioctl_Handlers\<close>, \<open>Ioctl_Dispatch\<close>: return_code.h, ioctl.h, ioctl/*.c, the shared buffer as a function from
    offsets to bytes, the handlers, the dispatch table and the hooks.
  \<^item> \<open>Frame_Ring\<close>, \<open>Frame_Ring_Props\<close>, \<open>Frame_Ring_Calls\<close>: frames.c, the mapped ring and the completion events.
  \<^item> \<open>Ioctl_Contract\<close>, \<open>Ioctl_Session\<close>: the contract of the table's handlers as a locale, on the buffer and on the device.
    \<open>Engine_Outcome\<close>, \<open>Ioctl_Refine\<close>, \<open>Ioctl_Props\<close>: the dispatcher implements a small abstract session; no pool byte
    leaks, no write leaves the buffer, no handle touches another's session.

  \<^bold>\<open>The emulated camera and the composition.\<close>
  \<^item> \<open>Fake_Registers\<close>, \<open>Fake_Camera\<close>: fake-fw-dev, video.c, format7.c, features.c, then dcam.c, iso.c, i2c.c, trigger.c, mailbox.c, avc.c.
  \<^item> \<open>Fake_Camera_Props\<close>: the camera under every sequence of transactions and interrupts.
  \<^item> \<open>Camera_Bus\<close>, \<open>Camera_Mailbox\<close>: the driver's operations with the camera's handlers as their bus: equal tables, resolved Format 7
    blocks, agreement on a configured stream, a head register written and read back through the MAILBOX request.

  \<^bold>\<open>Bounds.\<close> The poll of PhotonicDcamReset makes the code's 50 reads. The divisor scan has fuel 65537, more than the 16-bit
  candidates there are (\<open>divisorScan_spec\<close>). The mode table is the code's 48 entries. A call into the engine takes the schedule \<open>es\<close> of
  the machine's steps until it returns; the result is None when the schedule is not one the machine admits or ends early, and
  \<open>quiesce_finishes\<close> shows that a finishing schedule exists. The camera's submit and refill loops are total functions, with their
  termination proofs in \<open>Fake_Camera\<close>.

  \<^bold>\<open>Not modelled.\<close> DriverEntry and unload, the installation of the device-control hook, and the tracing helpers
  (PhotonicSrbCommandName, PhotonicTimeout): registration and log output. In fake-fw-dev the event loop (fwdev.c), the diagnostic
  listener (irlisten.c), the command line, the log and the rendering of the test pattern (frame.c): device I/O around the
  modelled handlers. The pixel bytes of frames are not modelled on either side, only the memory they occupy. The user-mode tests, the vendor
  client and the scripts are not part of the development.
\<close>

end
